theory Spec2Isabelle
  imports Complex_Main
begin

section \<open>JavaScript numbers\<close>

text \<open>
  A JavaScript number is an IEEE double. The model keeps the three kinds of special
  value the viewer code can produce (\<open>0/0\<close>, \<open>n/0\<close>) and idealises every finite
  double as the real number it stands for: the operations below are exact on finite
  values, so overflow to infinity and the sign of zero are not part of the model, and
  rounding is applied only where a definition says so (the STL path, whose result is
  compared with an exact value). The special values follow the language: \<open>0/0\<close> is
  \<open>NaN\<close>, \<open>x/0\<close> is an infinity for \<open>x \<noteq> 0\<close>, every operation on \<open>NaN\<close> is \<open>NaN\<close>,
  every comparison with \<open>NaN\<close> is false.
\<close>

datatype jsnum = NaN | PInf | NInf | Fin real

fun js_isNaN :: "jsnum \<Rightarrow> bool" where
  "js_isNaN NaN = True"
| "js_isNaN _ = False"

fun js_div :: "jsnum \<Rightarrow> jsnum \<Rightarrow> jsnum" where
  "js_div (Fin x) (Fin y) =
     (if y \<noteq> 0 then Fin (x / y)
      else if x = 0 then NaN else if 0 < x then PInf else NInf)"
| "js_div (Fin x) PInf = Fin 0"
| "js_div (Fin x) NInf = Fin 0"
| "js_div PInf (Fin y) = (if 0 \<le> y then PInf else NInf)"
| "js_div NInf (Fin y) = (if 0 \<le> y then NInf else PInf)"
| "js_div _ _ = NaN"

fun js_mul :: "jsnum \<Rightarrow> jsnum \<Rightarrow> jsnum" where
  "js_mul (Fin x) (Fin y) = Fin (x * y)"
| "js_mul (Fin x) PInf = (if x = 0 then NaN else if 0 < x then PInf else NInf)"
| "js_mul (Fin x) NInf = (if x = 0 then NaN else if 0 < x then NInf else PInf)"
| "js_mul PInf (Fin y) = (if y = 0 then NaN else if 0 < y then PInf else NInf)"
| "js_mul NInf (Fin y) = (if y = 0 then NaN else if 0 < y then NInf else PInf)"
| "js_mul PInf PInf = PInf"
| "js_mul PInf NInf = NInf"
| "js_mul NInf PInf = NInf"
| "js_mul NInf NInf = PInf"
| "js_mul _ _ = NaN"

fun js_add :: "jsnum \<Rightarrow> jsnum \<Rightarrow> jsnum" where
  "js_add (Fin x) (Fin y) = Fin (x + y)"
| "js_add (Fin x) PInf = PInf"
| "js_add (Fin x) NInf = NInf"
| "js_add PInf (Fin y) = PInf"
| "js_add NInf (Fin y) = NInf"
| "js_add PInf PInf = PInf"
| "js_add NInf NInf = NInf"
| "js_add _ _ = NaN"

fun js_sub :: "jsnum \<Rightarrow> jsnum \<Rightarrow> jsnum" where
  "js_sub (Fin x) (Fin y) = Fin (x - y)"
| "js_sub (Fin x) PInf = NInf"
| "js_sub (Fin x) NInf = PInf"
| "js_sub PInf (Fin y) = PInf"
| "js_sub NInf (Fin y) = NInf"
| "js_sub PInf NInf = PInf"
| "js_sub NInf PInf = NInf"
| "js_sub _ _ = NaN"

text \<open>\<open>Math.abs\<close>.\<close>

fun js_abs :: "jsnum \<Rightarrow> jsnum" where
  "js_abs (Fin x) = Fin \<bar>x\<bar>"
| "js_abs PInf = PInf"
| "js_abs NInf = PInf"
| "js_abs NaN = NaN"

text \<open>The comparison \<open>a > b\<close>.\<close>

fun js_gt :: "jsnum \<Rightarrow> jsnum \<Rightarrow> bool" where
  "js_gt (Fin x) (Fin y) = (y < x)"
| "js_gt PInf (Fin y) = True"
| "js_gt PInf NInf = True"
| "js_gt (Fin x) NInf = True"
| "js_gt _ _ = False"

text \<open>\<open>Math.max\<close> of two numbers: \<open>NaN\<close> as soon as one argument is.\<close>

fun js_max :: "jsnum \<Rightarrow> jsnum \<Rightarrow> jsnum" where
  "js_max NaN _ = NaN"
| "js_max _ NaN = NaN"
| "js_max PInf _ = PInf"
| "js_max _ PInf = PInf"
| "js_max NInf b = b"
| "js_max a NInf = a"
| "js_max (Fin x) (Fin y) = Fin (max x y)"

text \<open>\<open>Math.min\<close> of two numbers.\<close>

fun js_min :: "jsnum \<Rightarrow> jsnum \<Rightarrow> jsnum" where
  "js_min NaN _ = NaN"
| "js_min _ NaN = NaN"
| "js_min NInf _ = NInf"
| "js_min _ NInf = NInf"
| "js_min PInf b = b"
| "js_min a PInf = a"
| "js_min (Fin x) (Fin y) = Fin (min x y)"

text \<open>
  \<open>Math.tan\<close>. On a finite argument it is the real tangent; at a pole of the real
  tangent, which no double is, the idealised value is undefined and the model
  returns \<open>NaN\<close>. The tangent of an infinity or of \<open>NaN\<close> is \<open>NaN\<close>.
\<close>

fun js_tan :: "jsnum \<Rightarrow> jsnum" where
  "js_tan (Fin x) = (if cos x = 0 then NaN else Fin (tan x))"
| "js_tan _ = NaN"

subsection \<open>Rounding\<close>

text \<open>
  The result of an arithmetic operation on doubles is the exact result rounded to the
  nearest double, ties to the even significand; a value stored in a \<open>Float32Array\<close> is
  rounded to the nearest single in the same way. \<open>binary_round p\<close> rounds to a
  significand of \<open>p\<close> fraction bits: the exponent \<open>e\<close> is chosen so that \<open>|x| / 2^e\<close>
  lies between \<open>2^p\<close> and \<open>2^(p+1)\<close>, and that quotient is rounded to an integer.
  The exponent is not bounded, so the model rounds as the hardware does for magnitudes
  in the normal range (no overflow, no subnormal numbers).
\<close>

definition roundTiesToEven :: "real \<Rightarrow> int" where
  "roundTiesToEven x =
     (let n = \<lfloor>x\<rfloor>; r = x - of_int n
      in if r < 1 / 2 then n else if 1 / 2 < r then n + 1 else if even n then n else n + 1)"

definition binary_round :: "nat \<Rightarrow> real \<Rightarrow> real" where
  "binary_round p x =
     (if x = 0 then 0
      else (let e = \<lfloor>log 2 \<bar>x\<bar>\<rfloor> - int p
            in of_int (roundTiesToEven (x / 2 powi e)) * 2 powi e))"

definition double :: "real \<Rightarrow> real" where
  "double x = binary_round 52 x"

definition float32 :: "real \<Rightarrow> real" where
  "float32 x = binary_round 23 x"

text \<open>A number that is the rounded result of an operation.\<close>

fun js_double :: "jsnum \<Rightarrow> jsnum" where
  "js_double (Fin x) = Fin (double x)"
| "js_double a = a"

section \<open>Vectors and boxes of the rendering library\<close>

text \<open>\<open>THREE.Vector3\<close>: three numbers \<open>x\<close>, \<open>y\<close>, \<open>z\<close>.\<close>

datatype 'a vector3 = Vector3 (vx: 'a) (vy: 'a) (vz: 'a)

type_synonym vec3 = "real vector3"

definition fin3 :: "vec3 \<Rightarrow> jsnum vector3" where
  "fin3 v = Vector3 (Fin (vx v)) (Fin (vy v)) (Fin (vz v))"

text \<open>The finite value of a number, and the vector of a \<open>Vector3\<close> of finite numbers.\<close>

fun fin_of :: "jsnum \<Rightarrow> real option" where
  "fin_of (Fin x) = Some x"
| "fin_of _ = None"

definition finite3 :: "jsnum vector3 \<Rightarrow> vec3 option" where
  "finite3 v =
     (case (fin_of (vx v), fin_of (vy v), fin_of (vz v)) of
        (Some a, Some b, Some c) \<Rightarrow> Some (Vector3 a b c)
      | _ \<Rightarrow> None)"

text \<open>\<open>Vector3.add\<close>, \<open>Vector3.sub\<close> and \<open>Vector3.multiplyScalar\<close>.\<close>

definition js_add3 :: "jsnum vector3 \<Rightarrow> jsnum vector3 \<Rightarrow> jsnum vector3" where
  "js_add3 a b = Vector3 (js_add (vx a) (vx b)) (js_add (vy a) (vy b)) (js_add (vz a) (vz b))"

definition js_sub3 :: "jsnum vector3 \<Rightarrow> jsnum vector3 \<Rightarrow> jsnum vector3" where
  "js_sub3 a b = Vector3 (js_sub (vx a) (vx b)) (js_sub (vy a) (vy b)) (js_sub (vz a) (vz b))"

definition multiplyScalar :: "real \<Rightarrow> vec3 \<Rightarrow> vec3" where
  "multiplyScalar k v = Vector3 (vx v * k) (vy v * k) (vz v * k)"

text \<open>The result of an operation on each coordinate, rounded to a double.\<close>

definition double3 :: "vec3 \<Rightarrow> vec3" where
  "double3 v = Vector3 (double (vx v)) (double (vy v)) (double (vz v))"

text \<open>
  \<open>THREE.Box3\<close> over finite coordinates. A fresh box is empty (the library gives it
  \<open>min = +Infinity\<close> and \<open>max = -Infinity\<close>); a box grown from points has a \<open>min\<close>
  and a \<open>max\<close> corner.
\<close>

datatype box3 = EmptyBox | Box (bmin: vec3) (bmax: vec3)

fun expandByPoint :: "box3 \<Rightarrow> vec3 \<Rightarrow> box3" where
  "expandByPoint EmptyBox p = Box p p"
| "expandByPoint (Box lo hi) p =
     Box (Vector3 (min (vx lo) (vx p)) (min (vy lo) (vy p)) (min (vz lo) (vz p)))
         (Vector3 (max (vx hi) (vx p)) (max (vy hi) (vy p)) (max (vz hi) (vz p)))"

definition setFromPoints :: "vec3 list \<Rightarrow> box3" where
  "setFromPoints ps = foldl expandByPoint EmptyBox ps"

text \<open>
  \<open>Box3.getSize\<close> and \<open>Box3.getCenter\<close>: the library answers \<open>(0,0,0)\<close> for an
  empty box, \<open>max - min\<close> and \<open>(min + max) * 0.5\<close> otherwise.
\<close>

fun getSize :: "box3 \<Rightarrow> vec3" where
  "getSize EmptyBox = Vector3 0 0 0"
| "getSize (Box lo hi) = Vector3 (vx hi - vx lo) (vy hi - vy lo) (vz hi - vz lo)"

fun getCenter :: "box3 \<Rightarrow> vec3" where
  "getCenter EmptyBox = Vector3 0 0 0"
| "getCenter (Box lo hi) =
     Vector3 ((vx lo + vx hi) * 0.5) ((vy lo + vy hi) * 0.5) ((vz lo + vz hi) * 0.5)"

text \<open>The eight corners of a box, in the order \<open>Box3.applyMatrix4\<close> visits them.\<close>

definition corners :: "vec3 \<Rightarrow> vec3 \<Rightarrow> vec3 list" where
  "corners lo hi =
     [Vector3 (vx lo) (vy lo) (vz lo), Vector3 (vx lo) (vy lo) (vz hi),
      Vector3 (vx lo) (vy hi) (vz lo), Vector3 (vx lo) (vy hi) (vz hi),
      Vector3 (vx hi) (vy lo) (vz lo), Vector3 (vx hi) (vy lo) (vz hi),
      Vector3 (vx hi) (vy hi) (vz lo), Vector3 (vx hi) (vy hi) (vz hi)]"

text \<open>
  The box of an object in world space can also hold \<open>NaN\<close> in every coordinate; its
  size and its centre are then \<open>NaN\<close> too.
\<close>

datatype world_box = WorldBox box3 | NaNBox

fun world_getSize :: "world_box \<Rightarrow> jsnum vector3" where
  "world_getSize (WorldBox b) = fin3 (getSize b)"
| "world_getSize NaNBox = Vector3 NaN NaN NaN"

fun world_getCenter :: "world_box \<Rightarrow> jsnum vector3" where
  "world_getCenter (WorldBox b) = fin3 (getCenter b)"
| "world_getCenter NaNBox = Vector3 NaN NaN NaN"

section \<open>Meshes\<close>

text \<open>
  A \<open>THREE.Mesh\<close> with the parts of it the viewer code touches: the vertex positions
  of its geometry (the loaders keep them in a \<open>Float32Array\<close>), its position, its
  rotation about the x axis (the only Euler angle either file sets) and its scale,
  which \<open>scale.setScalar\<close> makes uniform. The scale of the STL path is \<open>100 / maxDim\<close>
  and can be \<open>Infinity\<close>, so it is a \<open>jsnum\<close>.
\<close>

record mesh =
  geometry :: "vec3 list"
  mesh_position :: vec3
  rotation_x :: real
  mesh_scale :: jsnum

text \<open>\<open>BufferGeometry.computeBoundingBox\<close>: the box of the vertex positions.\<close>

definition computeBoundingBox :: "vec3 list \<Rightarrow> box3" where
  "computeBoundingBox g = setFromPoints g"

text \<open>
  \<open>BufferGeometry.translate\<close> moves every vertex: the translation matrix is applied to
  the vertex in double arithmetic, where the only operation that rounds is the sum of
  coordinate and offset, and the result is stored back into the \<open>Float32Array\<close>.
\<close>

definition translate :: "real \<Rightarrow> real \<Rightarrow> real \<Rightarrow> vec3 list \<Rightarrow> vec3 list" where
  "translate dx dy dz g =
     map (\<lambda>v. Vector3 (float32 (double (vx v + dx))) (float32 (double (vy v + dy)))
                      (float32 (double (vz v + dz)))) g"

text \<open>
  The world matrix of a mesh that sits directly in the scene: scale, then the
  rotation about x, then the translation.
\<close>

definition localToWorld :: "vec3 \<Rightarrow> real \<Rightarrow> real \<Rightarrow> vec3 \<Rightarrow> vec3" where
  "localToWorld pos rx k v =
     Vector3 (vx pos + k * vx v)
             (vy pos + (cos rx * (k * vy v) - sin rx * (k * vz v)))
             (vz pos + (sin rx * (k * vy v) + cos rx * (k * vz v)))"

text \<open>
  \<open>new THREE.Box3().setFromObject(mesh)\<close>, as release 128 of the library computes it:
  the bounding box of the geometry is carried through the world matrix corner by
  corner and the box of the eight images is returned, here in exact arithmetic. An
  empty geometry box stays empty. With a scale that is not finite the world matrix
  holds \<open>0 * Infinity\<close>, every image is \<open>NaN\<close>, and so is the box.
\<close>

definition setFromObject :: "mesh \<Rightarrow> world_box" where
  "setFromObject m =
     (case computeBoundingBox (geometry m) of
        EmptyBox \<Rightarrow> WorldBox EmptyBox
      | Box lo hi \<Rightarrow>
          (case mesh_scale m of
             Fin k \<Rightarrow> WorldBox (setFromPoints
                         (map (localToWorld (mesh_position m) (rotation_x m) k) (corners lo hi)))
           | _ \<Rightarrow> NaNBox))"

section \<open>Viewer state\<close>

text \<open>
  \<open>THREE.PerspectiveCamera\<close>: vertical field of view in degrees, aspect ratio, near and
  far plane, position. \<open>camera.lookAt(p)\<close> turns the camera towards \<open>p\<close>; the model
  keeps the point last looked at, which together with the position fixes the
  orientation. Neither file sets \<open>camera.up\<close>, which stays \<open>(0, 1, 0)\<close>.
\<close>

record camera =
  fov :: real
  aspect :: jsnum
  near :: real
  far :: real
  position :: "jsnum vector3"
  lookAt :: "jsnum vector3"

text \<open>
  \<open>OrbitControls\<close>, with the properties the two files set and the state that
  \<open>update\<close> reads and writes: the point the controls orbit around, damping, automatic
  rotation, the limits on the distance between camera and target, and what user input
  has left to be applied: a rotation (\<open>sphericalDelta\<close>, as azimuth \<open>theta\<close> and polar
  angle \<open>phi\<close>), a pan (\<open>panOffset\<close>) and a zoom factor (the variable \<open>scale\<close> of the
  library, here \<open>dollyScale\<close>). \<open>interacting\<close> says that a drag is going on (the
  library's \<open>state\<close> is not \<open>STATE.NONE\<close>). The pending input is taken to be finite.
\<close>

record controls =
  target :: "jsnum vector3"
  enableDamping :: bool
  dampingFactor :: real
  autoRotate :: bool
  autoRotateSpeed :: real
  minDistance :: jsnum
  maxDistance :: jsnum
  sphericalDelta_theta :: real
  sphericalDelta_phi :: real
  panOffset :: vec3
  dollyScale :: real
  interacting :: bool

text \<open>\<open>WebGLRenderer\<close>: the drawing size given by \<open>setSize\<close>.\<close>

record renderer =
  drawingSize :: "nat \<times> nat"

text \<open>The canvas element: its client size in pixels, as the browser lays it out.\<close>

record canvas =
  clientWidth :: nat
  clientHeight :: nat

text \<open>
  The fields of a \<open>PrinjektConfigurator\<close> that the camera code reads and writes. Both
  classes start with \<open>camera\<close>, \<open>controls\<close> and \<open>renderer\<close> set to \<open>null\<close>. The loaded
  mesh is \<open>this.currentModel\<close> in the master logic and \<open>this.model\<close> in the asset
  script; the renderer draws on the canvas, so \<open>renderer.domElement\<close> is the canvas of
  the state.
\<close>

record configurator =
  camera :: "camera option"
  controls :: "controls option"
  renderer :: "renderer option"
  currentModel :: "mesh option"
  canvas :: canvas

text \<open>Reading a property of \<open>null\<close> throws.\<close>

datatype error = TypeError

section \<open>The orbit controls\<close>

text \<open>
  Both fit operations end with \<open>this.controls.update()\<close>. The method belongs to the
  library (the master logic loads release 128 of it); the definitions of this section
  follow that release. \<open>update\<close> takes the offset of the camera from the target,
  turns it into spherical coordinates, applies pending rotation and zoom, keeps the
  polar angle away from the poles and the radius within the distance limits, moves
  the target by the pending pan, and puts the camera at the target plus the new
  offset, looking at the target.
\<close>

text \<open>\<open>Math.atan2(y, x)\<close> on finite arguments (a zero counts as positive).\<close>

definition atan2 :: "real \<Rightarrow> real \<Rightarrow> real" where
  "atan2 y x =
     (if 0 < x then arctan (y / x)
      else if x < 0 then (if 0 \<le> y then arctan (y / x) + pi else arctan (y / x) - pi)
      else if 0 < y then pi / 2 else if y < 0 then - pi / 2 else 0)"

text \<open>
  \<open>THREE.Spherical\<close>. The radius can be an infinity, when a distance limit is one.
\<close>

record spherical =
  radius :: jsnum
  phi :: real
  theta :: real

text \<open>\<open>Spherical.setFromVector3\<close>, on a vector of finite coordinates.\<close>

definition setFromVector3 :: "vec3 \<Rightarrow> spherical" where
  "setFromVector3 v =
     (let r = sqrt (vx v * vx v + vy v * vy v + vz v * vz v)
      in if r = 0 then \<lparr>radius = Fin r, phi = 0, theta = 0\<rparr>
         else \<lparr>radius = Fin r, phi = arccos (max (- 1) (min 1 (vy v / r))),
               theta = atan2 (vx v) (vz v)\<rparr>)"

text \<open>\<open>Spherical.makeSafe\<close> keeps the polar angle \<open>0.000001\<close> away from the poles.\<close>

definition makeSafe :: "real \<Rightarrow> real" where
  "makeSafe p = max 0.000001 (min (pi - 0.000001) p)"

text \<open>\<open>Vector3.setFromSpherical\<close>.\<close>

definition setFromSpherical :: "spherical \<Rightarrow> jsnum vector3" where
  "setFromSpherical sp =
     (let sinPhiRadius = js_mul (Fin (sin (phi sp))) (radius sp)
      in Vector3 (js_mul sinPhiRadius (Fin (sin (theta sp))))
                 (js_mul (Fin (cos (phi sp))) (radius sp))
                 (js_mul sinPhiRadius (Fin (cos (theta sp)))))"

text \<open>
  \<open>offset.applyQuaternion(quat)\<close>, where \<open>quat\<close> turns \<open>camera.up\<close> into the y axis.
  For the up vector \<open>(0, 1, 0)\<close> it is the identity quaternion \<open>(0, 0, 0, 1)\<close>, and so
  is its inverse. The library multiplies every coordinate with each component of the
  quaternion on the way: a vector of finite coordinates comes back as it is, and one
  with a coordinate that is not finite meets \<open>0 * Infinity\<close> or \<open>NaN\<close> in every sum and
  comes back as \<open>(NaN, NaN, NaN)\<close>.
\<close>

definition applyQuaternion :: "jsnum vector3 \<Rightarrow> jsnum vector3" where
  "applyQuaternion v = (case finite3 v of Some u \<Rightarrow> v | None \<Rightarrow> Vector3 NaN NaN NaN)"

text \<open>\<open>getAutoRotationAngle\<close>: the angle of one frame at 60 frames a second.\<close>

definition getAutoRotationAngle :: "controls \<Rightarrow> real" where
  "getAutoRotationAngle ctl = 2 * pi / 60 / 60 * autoRotateSpeed ctl"

text \<open>
  \<open>OrbitControls.update\<close>. Automatic rotation adds its angle to the pending rotation
  when no drag is going on. With damping, the share \<open>dampingFactor\<close> of the pending
  rotation and pan is applied and the rest is kept for the next call; without, all of
  it is applied. The azimuth is not limited (neither file sets limits), the polar
  angle is limited to \<open>[0, \<pi>]\<close> and then made safe, the radius is multiplied by the
  pending zoom and limited by \<open>Math.max(minDistance, Math.min(maxDistance, radius))\<close>.
  The pending zoom is used up. The result is the controls and the camera after the
  call.
\<close>

definition update :: "controls \<Rightarrow> camera \<Rightarrow> controls \<times> camera" where
  "update ctl cam =
     (let offset = applyQuaternion (js_sub3 (position cam) (target ctl));
          delta_theta = (if autoRotate ctl \<and> \<not> interacting ctl
                         then sphericalDelta_theta ctl - getAutoRotationAngle ctl
                         else sphericalDelta_theta ctl);
          delta_phi = sphericalDelta_phi ctl;
          k = (if enableDamping ctl then dampingFactor ctl else 1);
          target' = js_add3 (target ctl) (fin3 (multiplyScalar k (panOffset ctl)));
          offset' =
            (case finite3 offset of
               None \<Rightarrow> Vector3 NaN NaN NaN
             | Some v \<Rightarrow>
                 (let sp = setFromVector3 v;
                      th = theta sp + delta_theta * k;
                      ph = makeSafe (max 0 (min pi (phi sp + delta_phi * k)));
                      r = js_max (minDistance ctl)
                            (js_min (maxDistance ctl) (js_mul (radius sp) (Fin (dollyScale ctl))))
                  in applyQuaternion (setFromSpherical \<lparr>radius = r, phi = ph, theta = th\<rparr>)));
          ctl' = ctl\<lparr>target := target',
                     sphericalDelta_theta :=
                       (if enableDamping ctl then delta_theta * (1 - dampingFactor ctl) else 0),
                     sphericalDelta_phi :=
                       (if enableDamping ctl then delta_phi * (1 - dampingFactor ctl) else 0),
                     panOffset :=
                       (if enableDamping ctl
                        then multiplyScalar (1 - dampingFactor ctl) (panOffset ctl)
                        else Vector3 0 0 0),
                     dollyScale := 1\<rparr>
      in (ctl', cam\<lparr>position := js_add3 target' offset', lookAt := target'\<rparr>))"

text \<open>
  The controls are at rest when no rotation, pan or zoom is pending and automatic
  rotation does not set in.
\<close>

definition idle :: "controls \<Rightarrow> bool" where
  "idle ctl \<longleftrightarrow>
     sphericalDelta_theta ctl = 0 \<and> sphericalDelta_phi ctl = 0 \<and>
     panOffset ctl = Vector3 0 0 0 \<and> dollyScale ctl = 1 \<and>
     \<not> (autoRotate ctl \<and> \<not> interacting ctl)"

text \<open>The state after \<open>this.controls.update()\<close>, for a camera and controls that exist.\<close>

definition updateControls :: "configurator \<Rightarrow> camera \<Rightarrow> controls \<Rightarrow> configurator" where
  "updateControls s cam ctl =
     (case update ctl cam of (ctl', cam') \<Rightarrow> s\<lparr>camera := Some cam', controls := Some ctl'\<rparr>)"

section \<open>Fitting the camera\<close>

text \<open>\<open>Math.max(size.x, size.y, size.z)\<close>.\<close>

definition maxDim :: "jsnum vector3 \<Rightarrow> jsnum" where
  "maxDim sz = js_max (js_max (vx sz) (vy sz)) (vz sz)"

text \<open>
  \<open>_fitCameraToModel(model)\<close> of the master logic. The four guards of its first line,
  then the guard on the aspect ratio, are its early returns. The distance is
  \<open>Math.abs((maxDim / (aspect > 1 ? 2 : 2 * aspect)) / Math.tan(fov / 2))\<close> with
  \<open>fov = camera.fov * (Math.PI / 180)\<close>, times \<open>1.5\<close>. The camera is put at
  \<open>(cameraZ, cameraZ * 0.7, cameraZ)\<close> and turned to the centre of the box, the target
  of the controls is set to the centre, and the controls are updated.
\<close>

definition master_cameraZ :: "jsnum \<Rightarrow> real \<Rightarrow> jsnum \<Rightarrow> jsnum" where
  "master_cameraZ md f a =
     js_mul (js_abs (js_div (js_div md (if js_gt a (Fin 1) then Fin 2 else js_mul (Fin 2) a))
                            (js_tan (Fin (f * (pi / 180) / 2)))))
            (Fin 1.5)"

definition master_fitCameraToModel :: "mesh option \<Rightarrow> configurator \<Rightarrow> configurator" where
  "master_fitCameraToModel model s =
     (case (model, camera s, controls s, renderer s) of
        (Some m, Some cam, Some ctl, Some rnd) \<Rightarrow>
          (let box = setFromObject m;
               sz = world_getSize box;
               center = world_getCenter box;
               a = js_div (Fin (real (clientWidth (canvas s))))
                          (Fin (real (clientHeight (canvas s))))
           in if js_isNaN a \<or> a = Fin 0 then s
              else
                (let cameraZ = master_cameraZ (maxDim sz) (fov cam) a;
                     targetY = vy center;
                     p = Vector3 (vx center) targetY (vz center)
                 in updateControls s
                      (cam\<lparr>position := Vector3 cameraZ (js_mul cameraZ (Fin 0.7)) cameraZ,
                           lookAt := p\<rparr>)
                      (ctl\<lparr>target := p\<rparr>)))
      | _ \<Rightarrow> s)"

text \<open>
  \<open>fitCameraToModel()\<close> of the asset script. Only the model is guarded; the camera and
  the controls are read without a check. The distance is
  \<open>Math.abs(maxDim / 2 / Math.tan(fov / 2))\<close> times \<open>1.5\<close>. The camera is put that
  far from the centre of the box along z and turned to the centre, the target of the
  controls is set to the centre, and the controls are updated.
\<close>

definition asset_cameraZ :: "jsnum \<Rightarrow> real \<Rightarrow> jsnum" where
  "asset_cameraZ md f =
     js_mul (js_abs (js_div (js_div md (Fin 2)) (js_tan (Fin (f * (pi / 180) / 2)))))
            (Fin 1.5)"

definition fitCameraToModel :: "configurator \<Rightarrow> error + configurator" where
  "fitCameraToModel s =
     (case currentModel s of
        None \<Rightarrow> Inr s
      | Some m \<Rightarrow>
          (let box = setFromObject m;
               sz = world_getSize box;
               center = world_getCenter box
           in case camera s of
                None \<Rightarrow> Inl TypeError
              | Some cam \<Rightarrow>
                  (let cameraZ = asset_cameraZ (maxDim sz) (fov cam);
                       cam' = cam\<lparr>position :=
                                    Vector3 (vx center) (vy center) (js_add (vz center) cameraZ),
                                  lookAt := center\<rparr>
                   in case controls s of
                        None \<Rightarrow> Inl TypeError
                      | Some ctl \<Rightarrow> Inr (updateControls s cam' (ctl\<lparr>target := center\<rparr>)))))"

section \<open>Resizing the viewport\<close>

text \<open>
  \<open>handleResize\<close> of the master logic: nothing happens on a canvas without width or
  height; otherwise the aspect ratio of the camera and the size of the renderer are
  set and the camera is fitted to \<open>this.currentModel\<close>.
\<close>

definition handleResize :: "configurator \<Rightarrow> error + configurator" where
  "handleResize s =
     (let width = clientWidth (canvas s);
          height = clientHeight (canvas s)
      in if width = 0 \<or> height = 0 then Inr s
         else
           (case camera s of
              None \<Rightarrow> Inl TypeError
            | Some cam \<Rightarrow>
                (case renderer s of
                   None \<Rightarrow> Inl TypeError
                 | Some rnd \<Rightarrow>
                     (let s' = s\<lparr>camera := Some (cam\<lparr>aspect :=
                                                      js_div (Fin (real width)) (Fin (real height))\<rparr>),
                                 renderer := Some (rnd\<lparr>drawingSize := (width, height)\<rparr>)\<rparr>
                      in Inr (master_fitCameraToModel (currentModel s') s')))))"

text \<open>
  \<open>onWindowResize\<close> of the asset script: the aspect ratio of the camera and the size
  of the renderer are set from the canvas, whatever its size.
\<close>

definition onWindowResize :: "configurator \<Rightarrow> error + configurator" where
  "onWindowResize s =
     (case camera s of
        None \<Rightarrow> Inl TypeError
      | Some cam \<Rightarrow>
          (case renderer s of
             None \<Rightarrow> Inl TypeError
           | Some rnd \<Rightarrow>
               Inr (s\<lparr>camera := Some (cam\<lparr>aspect :=
                                            js_div (Fin (real (clientWidth (canvas s))))
                                                   (Fin (real (clientHeight (canvas s))))\<rparr>),
                      renderer := Some (rnd\<lparr>drawingSize :=
                                            (clientWidth (canvas s), clientHeight (canvas s))\<rparr>)\<rparr>)))"

text \<open>
  \<open>updateViewerSetting('autoRotate', value)\<close> of the master logic switches the
  automatic rotation of the controls, if there are controls.
\<close>

definition updateViewerSetting_autoRotate :: "bool \<Rightarrow> configurator \<Rightarrow> configurator" where
  "updateViewerSetting_autoRotate v s =
     (case controls s of
        None \<Rightarrow> s
      | Some ctl \<Rightarrow> s\<lparr>controls := Some (ctl\<lparr>autoRotate := v\<rparr>)\<rparr>)"

section \<open>Loading an STL model\<close>

text \<open>
  The success callback of \<open>loadSTLModel\<close> in the asset script. The geometry is moved
  by minus the centre of its bounding box; \<open>translate\<close> recomputes the bounding box in
  place, so the size is read from the box of the moved geometry. The mesh is scaled by
  \<open>100 / maxDim\<close>, stored in \<open>this.model\<close>, and the camera is fitted. Whether the
  scaled model measures exactly 100 depends on the rounding, so on this path the model
  rounds where the code does: the sum in \<open>getCenter\<close> (the halving after it is exact),
  the difference in \<open>getSize\<close>, the quotient \<open>100 / maxDim\<close>, and the vertices that
  \<open>translate\<close> stores.
\<close>

definition centerAndScale :: "vec3 list \<Rightarrow> mesh" where
  "centerAndScale g =
     (let center = double3 (getCenter (computeBoundingBox g));
          g' = translate (- vx center) (- vy center) (- vz center) g;
          sz = double3 (getSize (computeBoundingBox g'));
          maxDim = max (max (vx sz) (vy sz)) (vz sz);
          scale = js_double (js_div (Fin 100) (Fin maxDim))
      in \<lparr>geometry = g', mesh_position = Vector3 0 0 0, rotation_x = 0, mesh_scale = scale\<rparr>)"

definition loadSTLModel_onLoad :: "vec3 list \<Rightarrow> configurator \<Rightarrow> error + configurator" where
  "loadSTLModel_onLoad g s = fitCameraToModel (s\<lparr>currentModel := Some (centerAndScale g)\<rparr>)"

text \<open>Running a second step on the state the first one returned, if it returned.\<close>

definition andThen :: "error + 'a \<Rightarrow> ('a \<Rightarrow> error + 'b) \<Rightarrow> error + 'b" where
  "andThen r f = (case r of Inl e \<Rightarrow> Inl e | Inr x \<Rightarrow> f x)"

section \<open>The view frustum\<close>

text \<open>
  The pose of the viewer: where the camera is, the point it looks at, and the point
  the controls orbit around.
\<close>

definition cameraPosition :: "configurator \<Rightarrow> jsnum vector3 option" where
  "cameraPosition s = map_option position (camera s)"

definition cameraLookAt :: "configurator \<Rightarrow> jsnum vector3 option" where
  "cameraLookAt s = map_option lookAt (camera s)"

definition controlsTarget :: "configurator \<Rightarrow> jsnum vector3 option" where
  "controlsTarget s = map_option target (controls s)"

definition sub3 :: "vec3 \<Rightarrow> vec3 \<Rightarrow> vec3" where
  "sub3 a b = Vector3 (vx a - vx b) (vy a - vy b) (vz a - vz b)"

definition dot3 :: "vec3 \<Rightarrow> vec3 \<Rightarrow> real" where
  "dot3 a b = vx a * vx b + vy a * vy b + vz a * vz b"

definition cross3 :: "vec3 \<Rightarrow> vec3 \<Rightarrow> vec3" where
  "cross3 a b =
     Vector3 (vy a * vz b - vz a * vy b) (vz a * vx b - vx a * vz b) (vx a * vy b - vy a * vx b)"

text \<open>\<open>Vector3.normalize\<close> divides by the length, or by \<open>1\<close> when the length is \<open>0\<close>.\<close>

definition normalize3 :: "vec3 \<Rightarrow> vec3" where
  "normalize3 a =
     (let l = sqrt (dot3 a a); l' = (if l = 0 then 1 else l)
      in Vector3 (vx a / l') (vy a / l') (vz a / l'))"

text \<open>
  \<open>Matrix4.lookAt(eye, target, up)\<close> with the default \<open>up = (0,1,0)\<close> of a camera:
  the axes \<open>x\<close>, \<open>y\<close>, \<open>z\<close> of the camera in world space. The camera looks down its
  negative \<open>z\<close> axis.
\<close>

definition lookAtBasis :: "vec3 \<Rightarrow> vec3 \<Rightarrow> vec3 \<times> vec3 \<times> vec3" where
  "lookAtBasis eye tgt =
     (let up = Vector3 0 1 0;
          z0 = sub3 eye tgt;
          z1 = normalize3 (if dot3 z0 z0 = 0 then Vector3 (vx z0) (vy z0) 1 else z0);
          x0 = cross3 up z1;
          z2 = (if dot3 x0 x0 = 0
                then normalize3 (Vector3 (vx z1) (vy z1) (vz z1 + 0.0001)) else z1);
          x1 = normalize3 (if dot3 x0 x0 = 0 then cross3 up z2 else x0)
      in (x1, cross3 z2 x1, z2))"

text \<open>
  A point is inside the view frustum of a perspective camera (zoom \<open>1\<close>) when its
  depth along the viewing direction is between the near and the far plane and its
  offsets along the camera's \<open>y\<close> and \<open>x\<close> axes are within \<open>depth * tan(fov/2)\<close> and
  that times the aspect ratio.
\<close>

definition inFrustum :: "real \<Rightarrow> real \<Rightarrow> real \<Rightarrow> real \<Rightarrow> vec3 \<Rightarrow> vec3 \<Rightarrow> vec3 \<Rightarrow> bool" where
  "inFrustum f a n fr eye tgt v =
     (case lookAtBasis eye tgt of
        (x, y, z) \<Rightarrow>
          (let w = sub3 v eye;
               depth = - dot3 z w;
               top = tan (f * (pi / 180) / 2)
           in n \<le> depth \<and> depth \<le> fr \<and>
              \<bar>dot3 y w\<bar> \<le> depth * top \<and> \<bar>dot3 x w\<bar> \<le> depth * top * a))"

definition cameraSees :: "camera \<Rightarrow> vec3 \<Rightarrow> bool" where
  "cameraSees cam v =
     (case (finite3 (position cam), finite3 (lookAt cam), fin_of (aspect cam)) of
        (Some eye, Some tgt, Some a) \<Rightarrow> inFrustum (fov cam) a (near cam) (far cam) eye tgt v
      | _ \<Rightarrow> False)"

definition sees :: "configurator \<Rightarrow> vec3 \<Rightarrow> bool" where
  "sees s v = (case camera s of None \<Rightarrow> False | Some cam \<Rightarrow> cameraSees cam v)"

section \<open>Viewers as the scripts set them up\<close>

definition origin :: "jsnum vector3" where
  "origin = Vector3 (Fin 0) (Fin 0) (Fin 0)"

text \<open>
  The controls as the constructor \<open>new OrbitControls(camera, element)\<close> leaves them:
  around the origin, no damping, no automatic rotation, no limits on the distance,
  nothing pending. The constructor ends with a call of \<open>update\<close>, which turns the
  camera to the target.
\<close>

definition OrbitControls :: controls where
  "OrbitControls =
     \<lparr>target = origin, enableDamping = False, dampingFactor = 0.05,
      autoRotate = False, autoRotateSpeed = 2, minDistance = Fin 0, maxDistance = PInf,
      sphericalDelta_theta = 0, sphericalDelta_phi = 0, panOffset = Vector3 0 0 0,
      dollyScale = 1, interacting = False\<rparr>"

text \<open>
  The viewer state at the end of \<open>initThreeJS\<close> of the master logic on a given canvas,
  with the viewer settings of the constructor (\<open>autoRotate: false\<close>): a camera of 45
  degrees at \<open>(200, 150, 200)\<close>, controls with damping, no model yet.
\<close>

definition initThreeJS :: "canvas \<Rightarrow> configurator" where
  "initThreeJS cv =
     \<lparr>camera = Some \<lparr>fov = 45,
                      aspect = js_div (Fin (real (clientWidth cv))) (Fin (real (clientHeight cv))),
                      near = 0.1, far = 1000,
                      position = Vector3 (Fin 200) (Fin 150) (Fin 200),
                      lookAt = origin\<rparr>,
      controls = Some (OrbitControls\<lparr>enableDamping := True, dampingFactor := 0.05,
                                      autoRotate := False, autoRotateSpeed := 2\<rparr>),
      renderer = Some \<lparr>drawingSize = (clientWidth cv, clientHeight cv)\<rparr>,
      currentModel = None,
      canvas = cv\<rparr>"

text \<open>
  The viewer state at the end of \<open>setupViewer\<close> of the asset script: a camera of 50
  degrees at \<open>(0, 0, 150)\<close>, controls with damping that keep the camera between 50
  and 500 units from the target.
\<close>

definition setupViewer :: "canvas \<Rightarrow> configurator" where
  "setupViewer cv =
     \<lparr>camera = Some \<lparr>fov = 50,
                      aspect = js_div (Fin (real (clientWidth cv))) (Fin (real (clientHeight cv))),
                      near = 0.1, far = 1000,
                      position = Vector3 (Fin 0) (Fin 0) (Fin 150),
                      lookAt = origin\<rparr>,
      controls = Some (OrbitControls\<lparr>enableDamping := True, dampingFactor := 0.05,
                                      minDistance := Fin 50, maxDistance := Fin 500\<rparr>),
      renderer = Some \<lparr>drawingSize = (clientWidth cv, clientHeight cv)\<rparr>,
      currentModel = None,
      canvas = cv\<rparr>"

text \<open>A cube of edge \<open>2 * h\<close> around the origin, and a mesh of a single vertex.\<close>

definition cube :: "real \<Rightarrow> mesh" where
  "cube h =
     \<lparr>geometry = corners (Vector3 (- h) (- h) (- h)) (Vector3 h h h),
      mesh_position = Vector3 0 0 0, rotation_x = 0, mesh_scale = Fin 1\<rparr>"

definition point_mesh :: mesh where
  "point_mesh =
     \<lparr>geometry = [Vector3 0 0 0],
      mesh_position = Vector3 0 0 0, rotation_x = 0, mesh_scale = Fin 1\<rparr>"

text \<open>
  Viewers after the user has worked with them. In the first, on a canvas of 800 by 600
  pixels, the user has panned the controls of the master logic ten units along x,
  camera and target together. In the second the pan is still going on: the damped
  controls have two units of it left to apply. In the third, of the asset script, the
  model is loaded, the camera is back at its starting distance and the canvas is now
  400 by 600 pixels.
\<close>

definition panned_wide :: configurator where
  "panned_wide =
     \<lparr>camera = Some \<lparr>fov = 45, aspect = Fin (4 / 3), near = 0.1, far = 1000,
                      position = Vector3 (Fin 210) (Fin 150) (Fin 200),
                      lookAt = Vector3 (Fin 10) (Fin 0) (Fin 0)\<rparr>,
      controls = Some (OrbitControls\<lparr>target := Vector3 (Fin 10) (Fin 0) (Fin 0),
                                      enableDamping := True\<rparr>),
      renderer = Some \<lparr>drawingSize = (800, 600)\<rparr>,
      currentModel = Some (cube 5),
      canvas = \<lparr>clientWidth = 800, clientHeight = 600\<rparr>\<rparr>"

definition panning_viewer :: configurator where
  "panning_viewer =
     \<lparr>camera = Some \<lparr>fov = 45, aspect = Fin (4 / 3), near = 0.1, far = 1000,
                      position = Vector3 (Fin 210) (Fin 150) (Fin 200),
                      lookAt = Vector3 (Fin 10) (Fin 0) (Fin 0)\<rparr>,
      controls = Some (OrbitControls\<lparr>target := Vector3 (Fin 10) (Fin 0) (Fin 0),
                                      enableDamping := True, panOffset := Vector3 2 0 0\<rparr>),
      renderer = Some \<lparr>drawingSize = (800, 600)\<rparr>,
      currentModel = Some (cube 5),
      canvas = \<lparr>clientWidth = 800, clientHeight = 600\<rparr>\<rparr>"

definition zoomed_viewer :: configurator where
  "zoomed_viewer =
     (setupViewer \<lparr>clientWidth = 800, clientHeight = 600\<rparr>)
       \<lparr>currentModel := Some (cube 50), canvas := \<lparr>clientWidth = 400, clientHeight = 600\<rparr>\<rparr>"

text \<open>The third viewer once \<open>onWindowResize\<close> has run.\<close>

definition zoomed_resized :: configurator where
  "zoomed_resized =
     \<lparr>camera = Some \<lparr>fov = 50, aspect = Fin (2 / 3), near = 0.1, far = 1000,
                      position = Vector3 (Fin 0) (Fin 0) (Fin 150), lookAt = origin\<rparr>,
      controls = Some (OrbitControls\<lparr>enableDamping := True, dampingFactor := 0.05,
                                      minDistance := Fin 50, maxDistance := Fin 500\<rparr>),
      renderer = Some \<lparr>drawingSize = (400, 600)\<rparr>,
      currentModel = Some (cube 50),
      canvas = \<lparr>clientWidth = 400, clientHeight = 600\<rparr>\<rparr>"

text \<open>
  The viewer of the scenario with the controls of the asset script: a camera of 45
  degrees on a canvas of 800 by 600 pixels and a cube of edge 10 around the origin.
  Camera and controls aim ten units beside the cube.
\<close>

definition scenario_viewer :: configurator where
  "scenario_viewer =
     \<lparr>camera = Some \<lparr>fov = 45, aspect = Fin (4 / 3), near = 0.1, far = 1000,
                      position = Vector3 (Fin 10) (Fin 0) (Fin 150),
                      lookAt = Vector3 (Fin 10) (Fin 0) (Fin 0)\<rparr>,
      controls = Some (OrbitControls\<lparr>target := Vector3 (Fin 10) (Fin 0) (Fin 0),
                                      enableDamping := True, dampingFactor := 0.05,
                                      minDistance := Fin 50, maxDistance := Fin 500\<rparr>),
      renderer = Some \<lparr>drawingSize = (800, 600)\<rparr>,
      currentModel = Some (cube 5),
      canvas = \<lparr>clientWidth = 800, clientHeight = 600\<rparr>\<rparr>"

text \<open>
  Two geometries whose bounding box is the cube of edge 11 with a corner at the
  origin: two opposite corners of it, and all eight.
\<close>

definition edge11_diagonal :: "vec3 list" where
  "edge11_diagonal = [Vector3 0 0 0, Vector3 11 11 11]"

definition edge11_cube :: "vec3 list" where
  "edge11_cube = corners (Vector3 0 0 0) (Vector3 11 11 11)"

text \<open>
  A box whose corners are carried through a function, and a box whose \<open>min\<close> is
  below its \<open>max\<close>.
\<close>

fun mapBox :: "(vec3 \<Rightarrow> vec3) \<Rightarrow> box3 \<Rightarrow> box3" where
  "mapBox F EmptyBox = EmptyBox"
| "mapBox F (Box lo hi) = Box (F lo) (F hi)"

fun ordered :: "box3 \<Rightarrow> bool" where
  "ordered EmptyBox = True"
| "ordered (Box lo hi) = (vx lo \<le> vx hi \<and> vy lo \<le> vy hi \<and> vz lo \<le> vz hi)"

text \<open>
  An offset of the camera from the target that is at least \<open>0.000001\<close> radians away
  from the vertical through the target, so that \<open>makeSafe\<close> leaves its polar angle as
  it is (the offset \<open>0\<close> counts).
\<close>

definition awayFromPoles :: "vec3 \<Rightarrow> bool" where
  "awayFromPoles v \<longleftrightarrow> \<bar>vy v\<bar> \<le> cos 0.000001 * sqrt (dot3 v v)"

text \<open>A viewer whose controls, if it has any, are at rest.\<close>

definition atRest :: "configurator \<Rightarrow> bool" where
  "atRest s = (case controls s of None \<Rightarrow> True | Some ctl \<Rightarrow> idle ctl)"

text \<open>The third viewer once \<open>fitCameraToModel\<close> has run after the resize.\<close>

definition zoomed_fitted :: configurator where
  "zoomed_fitted =
     \<lparr>camera = Some \<lparr>fov = 50, aspect = Fin (2 / 3), near = 0.1, far = 1000,
                      position = Vector3 (Fin 0) (Fin 0) (Fin (75 / tan (5 * pi / 36))),
                      lookAt = origin\<rparr>,
      controls = Some (OrbitControls\<lparr>enableDamping := True, dampingFactor := 0.05,
                                      minDistance := Fin 50, maxDistance := Fin 500\<rparr>),
      renderer = Some \<lparr>drawingSize = (400, 600)\<rparr>,
      currentModel = Some (cube 50),
      canvas = \<lparr>clientWidth = 400, clientHeight = 600\<rparr>\<rparr>"

text \<open>
  The distance of the specification, in its words:
  \<open>|maxDim / (aspect > 1 ? 2 : 2 * aspect) / tan(fovRad / 2)|\<close> with
  \<open>fovRad = verticalFOV * \<pi> / 180\<close>, times \<open>1.5\<close>.
\<close>

definition spec_distance :: "jsnum \<Rightarrow> real \<Rightarrow> jsnum \<Rightarrow> jsnum" where
  "spec_distance md f a =
     js_mul (js_abs (js_div (js_div md (if js_gt a (Fin 1) then Fin 2 else js_mul (Fin 2) a))
                            (js_tan (Fin ((f * pi / 180) / 2)))))
            (Fin 1.5)"

section \<open>Facts about the numbers\<close>

lemma tan_pi_8: "tan (pi / 8) = sqrt 2 - 1"
proof -
  have "tan (pi / 8) = sin (2 * (pi / 8)) / (cos (2 * (pi / 8)) + 1)"
    by (rule tan_half)
  also have "2 * (pi / 8) = pi / 4" by simp
  finally have "tan (pi / 8) = (sqrt 2 / 2) / (sqrt 2 / 2 + 1)"
    by (simp only: sin_45 cos_45)
  moreover have "(sqrt 2 / 2) / (sqrt 2 / 2 + 1) = sqrt 2 - 1"
  proof -
    have pos: "sqrt 2 / 2 + 1 \<noteq> 0"
      by (smt (verit) real_sqrt_ge_zero divide_nonneg_pos)
    have "(sqrt 2 - 1) * (sqrt 2 / 2 + 1) = sqrt 2 / 2"
      by (simp add: field_simps)
    then show ?thesis using pos by (metis nonzero_mult_div_cancel_right)
  qed
  ultimately show ?thesis by simp
qed

lemma cos_pi_8: "cos (pi / 8) \<noteq> 0"
  using cos_gt_zero [of "pi / 8"] by simp

lemma sqrt2_bounds: "1.4142 < sqrt 2" "sqrt 2 < 1.4143"
proof -
  show "1.4142 < sqrt 2"
    by (rule real_less_rsqrt) (simp add: power2_eq_square)
  show "sqrt 2 < 1.4143"
    by (rule real_less_lsqrt) (simp_all add: power2_eq_square)
qed

lemma sqrt3_bounds: "1.732 < sqrt 3" "sqrt 3 < 1.7321"
proof -
  show "1.732 < sqrt 3"
    by (rule real_less_rsqrt) (simp add: power2_eq_square)
  show "sqrt 3 < 1.7321"
    by (rule real_less_lsqrt) (simp_all add: power2_eq_square)
qed

lemma tan_75: "tan (5 * pi / 12) = (1 + 1 / sqrt 3) / (1 - 1 / sqrt 3)"
proof -
  have c1: "cos (pi / 4) \<noteq> 0" by (simp add: cos_45)
  have c2: "cos (pi / 6) \<noteq> 0" by (simp add: cos_30)
  have "0 < cos (pi / 4 + pi / 6)"
    by (rule cos_gt_zero) (use pi_gt_zero in simp_all)
  then have c3: "cos (pi / 4 + pi / 6) \<noteq> 0" by simp
  have "tan (pi / 4 + pi / 6) = (tan (pi / 4) + tan (pi / 6)) / (1 - tan (pi / 4) * tan (pi / 6))"
    by (rule tan_add [OF c1 c2 c3])
  moreover have "pi / 4 + pi / 6 = 5 * pi / 12" by simp
  ultimately show ?thesis by (simp add: tan_45 tan_30)
qed

lemma tan_75_less: "tan (5 * pi / 12) < 11 / 2"
proof -
  have s: "1 / sqrt 3 < 3 / 5"
    using sqrt3_bounds(1) by (simp add: field_simps)
  have p: "0 < 1 / sqrt 3" by simp
  define r where "r = 1 / sqrt 3"
  have "r < 3 / 5" "0 < r" using s p by (simp_all add: r_def)
  then have "(1 + r) / (1 - r) < 11 / 2"
    by (simp add: field_simps)
  then show ?thesis by (simp add: tan_75 r_def)
qed

lemma arctan_half_bounds: "5 * pi / 36 < arctan (1 / 2)" "arctan (1 / 2) < pi / 6"
proof -
  define a where "a = arctan (1 / 2 :: real)"
  have ta: "tan a = 1 / 2" by (simp add: a_def tan_arctan)
  have "1 / 2 < 1 / sqrt 3"
    using sqrt3_bounds(2) by (simp add: field_simps)
  then have "arctan (1 / 2) < arctan (1 / sqrt 3)"
    by (simp only: arctan_less_iff)
  moreover have "arctan (1 / sqrt 3) = pi / 6"
    using arctan_tan [of "pi / 6"] by (simp add: tan_30)
  ultimately have a6: "a < pi / 6" by (simp add: a_def)
  have a0: "0 < a" by (simp add: a_def)
  have c1: "cos a \<noteq> 0" using cos_gt_zero [of a] a0 a6 by simp
  have c2: "cos (2 * a) \<noteq> 0" using cos_gt_zero [of "2 * a"] a0 a6 by simp
  have c3: "cos (2 * a + a) \<noteq> 0" using cos_gt_zero [of "2 * a + a"] a0 a6 by simp
  have "tan (2 * a) = 2 * tan a / (1 - (tan a)\<^sup>2)"
    by (rule tan_double [OF c1 c2])
  then have t2: "tan (2 * a) = 4 / 3"
    unfolding ta by (simp add: power2_eq_square)
  have "tan (2 * a + a) = (tan (2 * a) + tan a) / (1 - tan (2 * a) * tan a)"
    by (rule tan_add [OF c2 c1 c3])
  then have t3: "tan (2 * a + a) = 11 / 2"
    unfolding t2 ta by simp
  have "tan (5 * pi / 12) < tan (2 * a + a)"
    using tan_75_less unfolding t3 .
  moreover have "- (pi / 2) < 5 * pi / 12" "5 * pi / 12 < pi / 2"
    "- (pi / 2) < 2 * a + a" "2 * a + a < pi / 2"
    using a0 a6 pi_gt_zero by simp_all
  ultimately have "5 * pi / 12 < 2 * a + a"
    by (simp only: tan_mono_lt_eq)
  then show "5 * pi / 36 < arctan (1 / 2)" by (simp add: a_def)
  show "arctan (1 / 2) < pi / 6" using a6 by (simp add: a_def)
qed

lemma tan_25_less_half: "tan (5 * pi / 36) < 1 / 2"
proof -
  have "tan (5 * pi / 36) < tan (arctan (1 / 2))"
  proof (rule tan_monotone)
    show "- (pi / 2) < 5 * pi / 36" using pi_gt_zero by simp
    show "5 * pi / 36 < arctan (1 / 2)" by (rule arctan_half_bounds(1))
    show "arctan (1 / 2) < pi / 2" by (rule arctan_ubound)
  qed
  then show ?thesis by (simp add: tan_arctan)
qed

lemma tan_25_pos: "0 < tan (5 * pi / 36)"
  by (rule tan_gt_zero) (use pi_gt_zero in simp_all)

lemma cos_25: "cos (5 * pi / 36) \<noteq> 0"
  using cos_gt_zero [of "5 * pi / 36"] pi_gt_zero by simp

section \<open>Updating the controls\<close>

lemma js_add_zero: "js_add a (Fin 0) = a"
  by (cases a) simp_all

lemma js_add3_zero: "js_add3 t (fin3 (Vector3 0 0 0)) = t"
  by (cases t) (simp add: js_add3_def fin3_def js_add_zero)

lemma multiplyScalar_zero: "multiplyScalar k (Vector3 0 0 0) = Vector3 0 0 0"
  by (simp add: multiplyScalar_def)

lemma update_idle_controls: "idle ctl \<Longrightarrow> fst (update ctl cam) = ctl"
  by (auto simp add: update_def idle_def Let_def js_add3_zero multiplyScalar_zero)

lemma update_lookAt: "lookAt (snd (update ctl cam)) = target (fst (update ctl cam))"
  by (simp add: update_def Let_def)

lemma update_target:
  "target (fst (update ctl cam)) =
     js_add3 (target ctl)
       (fin3 (multiplyScalar (if enableDamping ctl then dampingFactor ctl else 1) (panOffset ctl)))"
  by (simp add: update_def Let_def)

lemma update_intrinsics:
  "fov (snd (update ctl cam)) = fov cam" "aspect (snd (update ctl cam)) = aspect cam"
  "near (snd (update ctl cam)) = near cam" "far (snd (update ctl cam)) = far cam"
  by (simp_all add: update_def Let_def)

lemma finite3_fin3: "finite3 (fin3 v) = Some v"
  by (cases v) (simp add: finite3_def fin3_def)

lemma finite3_Some: "finite3 v = Some u \<Longrightarrow> v = fin3 u"
  by (cases v; cases "vx v"; cases "vy v"; cases "vz v") (auto simp add: finite3_def fin3_def)

lemma applyQuaternion_fin3: "applyQuaternion (fin3 v) = fin3 v"
  by (simp add: applyQuaternion_def finite3_fin3)

lemma atan2_sin_cos:
  fixes x z :: real
  assumes "0 < x * x + z * z"
  shows "sin (atan2 x z) = x / sqrt (x * x + z * z)"
    and "cos (atan2 x z) = z / sqrt (x * x + z * z)"
proof -
  define h where "h = sqrt (x * x + z * z)"
  have h: "0 < h" "h * h = x * x + z * z"
    using assms by (simp_all add: h_def)
  have *: "sin (atan2 x z) = x / h \<and> cos (atan2 x z) = z / h"
  proof (cases "z = 0")
    case True
    then have "x \<noteq> 0" using assms by auto
    moreover have "h = \<bar>x\<bar>" using True by (simp add: h_def)
    ultimately show ?thesis using True by (auto simp add: atan2_def)
  next
    case False
    define u where "u = x / z"
    have "1 + u\<^sup>2 = (h / z)\<^sup>2"
      using False h(2) by (simp add: u_def power2_eq_square field_simps)
    then have s: "sqrt (1 + u\<^sup>2) = h / \<bar>z\<bar>"
      using h(1) by (simp add: real_sqrt_abs abs_divide)
    have c: "cos (arctan u) = \<bar>z\<bar> / h" and si: "sin (arctan u) = u * \<bar>z\<bar> / h"
      using False h(1) by (simp_all add: cos_arctan sin_arctan s)
    show ?thesis
    proof (cases "0 < z")
      case True
      then show ?thesis
        using c si by (simp add: atan2_def u_def)
    next
      case neg: False
      then have "z < 0" using False by simp
      then show ?thesis
        using c si by (simp add: atan2_def u_def)
    qed
  qed
  show "sin (atan2 x z) = x / sqrt (x * x + z * z)" using * by (simp add: h_def)
  show "cos (atan2 x z) = z / sqrt (x * x + z * z)" using * by (simp add: h_def)
qed

lemma eps_small: "(0.000001::real) < pi / 3"
  using pi_ge_two by simp

lemma cos_eps_bounds: "1 / 2 < cos (0.000001::real)" "cos (0.000001::real) < 1"
proof -
  have "cos (pi / 3) < cos (0.000001::real)"
    by (rule cos_monotone_0_pi) (use eps_small pi_ge_two in simp_all)
  then show "1 / 2 < cos (0.000001::real)"
    by (simp add: cos_60)
  have "cos (0.000001::real) < cos 0"
    by (rule cos_monotone_0_pi) (use pi_ge_two in simp_all)
  then show "cos (0.000001::real) < 1"
    by simp
qed

lemma makeSafe_id: "0.000001 \<le> p \<Longrightarrow> p \<le> pi - 0.000001 \<Longrightarrow> makeSafe p = p"
  by (simp add: makeSafe_def)

lemma makeSafe_half_pi: "makeSafe (pi / 2) = pi / 2"
  by (rule makeSafe_id) (use pi_ge_two in simp_all)

lemma makeSafe_zero: "makeSafe 0 = 0.000001"
  using pi_ge_two by (simp add: makeSafe_def)

lemma phi_range: "0 \<le> phi (setFromVector3 v)" "phi (setFromVector3 v) \<le> pi"
  by (auto simp add: setFromVector3_def Let_def intro!: arccos_lbound arccos_ubound)

lemma radius_setFromVector3:
  "radius (setFromVector3 v) = Fin (sqrt (vx v * vx v + vy v * vy v + vz v * vz v))"
  by (simp add: setFromVector3_def Let_def)

lemma update_idle_position:
  assumes "idle ctl" and "position cam = fin3 p" and "target ctl = fin3 t"
    and v: "v = sub3 p t"
  shows "position (snd (update ctl cam)) =
           js_add3 (fin3 t)
             (applyQuaternion (setFromSpherical
                \<lparr>radius = js_max (minDistance ctl)
                            (js_min (maxDistance ctl) (radius (setFromVector3 v))),
                 phi = makeSafe (phi (setFromVector3 v)),
                 theta = theta (setFromVector3 v)\<rparr>))"
proof -
  have o: "js_sub3 (fin3 p) (fin3 t) = fin3 v"
    by (simp add: v js_sub3_def fin3_def sub3_def)
  have p: "max 0 (min pi (phi (setFromVector3 v))) = phi (setFromVector3 v)"
    using phi_range [of v] by simp
  have m: "js_mul (radius (setFromVector3 v)) (Fin 1) = radius (setFromVector3 v)"
    by (simp add: radius_setFromVector3)
  have i: "sphericalDelta_theta ctl = 0" "sphericalDelta_phi ctl = 0"
    "panOffset ctl = Vector3 0 0 0" "dollyScale ctl = 1"
    "\<not> (autoRotate ctl \<and> \<not> interacting ctl)"
    using assms(1) by (simp_all add: idle_def)
  show ?thesis
    unfolding update_def Let_def
    by (simp add: assms(2,3) i o applyQuaternion_fin3 finite3_fin3 p m
        js_add3_zero multiplyScalar_zero del: js_max.simps js_min.simps)
qed

lemma polar_angle:
  fixes v :: vec3
  assumes r: "r = sqrt (vx v * vx v + vy v * vy v + vz v * vz v)" and nz: "r \<noteq> 0"
    and le: "\<bar>vy v\<bar> \<le> cos 0.000001 * r"
  shows "makeSafe (phi (setFromVector3 v)) = phi (setFromVector3 v)"
    and "sin (phi (setFromVector3 v)) * r = sqrt (vx v * vx v + vz v * vz v)"
    and "cos (phi (setFromVector3 v)) * r = vy v"
    and "0 < vx v * vx v + vz v * vz v"
proof -
  have rpos: "0 < r"
    using nz r by (simp add: less_le)
  define t where "t = vy v / r"
  have tr: "t * r = vy v"
    using nz by (simp add: t_def)
  have ta: "\<bar>t\<bar> \<le> cos 0.000001"
    using le rpos by (simp add: t_def abs_divide field_simps)
  then have t1: "- 1 \<le> t" "t \<le> 1" "\<bar>t\<bar> < 1"
    using cos_eps_bounds(2) by simp_all
  have ph: "phi (setFromVector3 v) = arccos t"
    using nz r t1 by (simp add: setFromVector3_def Let_def t_def)
  have e: "arccos (cos 0.000001) = (0.000001::real)"
    by (rule arccos_cos) (use pi_ge_two in simp_all)
  have lo: "0.000001 \<le> arccos t"
  proof -
    have "arccos (cos 0.000001) \<le> arccos t"
      by (rule arccos_le_arccos) (use ta t1 cos_eps_bounds in simp_all)
    then show ?thesis
      unfolding e .
  qed
  have hi: "arccos t \<le> pi - 0.000001"
  proof -
    have "arccos t \<le> arccos (- cos 0.000001)"
      by (rule arccos_le_arccos) (use ta t1 cos_eps_bounds in simp_all)
    also have "\<dots> = pi - arccos (cos 0.000001)"
      by (rule arccos_minus) (use cos_eps_bounds in simp_all)
    finally show ?thesis
      unfolding e .
  qed
  show "makeSafe (phi (setFromVector3 v)) = phi (setFromVector3 v)"
    unfolding ph by (rule makeSafe_id [OF lo hi])
  define h2 where "h2 = vx v * vx v + vz v * vz v"
  have r2: "r * r = h2 + vy v * vy v"
    using r by (simp add: h2_def)
  have "vy v * vy v < r * r"
  proof -
    have "\<bar>vy v\<bar> < r"
      using t1(3) rpos by (simp add: t_def abs_divide)
    then have "\<bar>vy v\<bar> * \<bar>vy v\<bar> < r * r"
      by (intro mult_strict_mono) simp_all
    then show ?thesis by (simp add: abs_mult_self_eq)
  qed
  then show "0 < vx v * vx v + vz v * vz v"
    using r2 by (simp add: h2_def)
  have "sin (arccos t) = sqrt (1 - t\<^sup>2)"
    by (rule sin_arccos [OF t1(1,2)])
  moreover have "sqrt (1 - t\<^sup>2) * r = sqrt ((1 - t\<^sup>2) * (r * r))"
    using rpos by (simp add: real_sqrt_mult)
  moreover have "(1 - t\<^sup>2) * (r * r) = h2"
  proof -
    have "t\<^sup>2 * (r * r) = (t * r) * (t * r)"
      by (simp add: power2_eq_square)
    then have "t\<^sup>2 * (r * r) = vy v * vy v"
      by (simp only: tr)
    then show ?thesis
      using r2 by (simp add: left_diff_distrib)
  qed
  ultimately show "sin (phi (setFromVector3 v)) * r = sqrt (vx v * vx v + vz v * vz v)"
    by (simp add: ph h2_def)
  show "cos (phi (setFromVector3 v)) * r = vy v"
    using t1 tr by (simp add: ph)
qed

lemma azimuth:
  "sqrt (vx v * vx v + vy v * vy v + vz v * vz v) \<noteq> 0 \<Longrightarrow>
   theta (setFromVector3 v) = atan2 (vx v) (vz v)"
  by (simp add: setFromVector3_def Let_def)

lemma roundtrip:
  fixes v :: vec3
  assumes r: "r = sqrt (vx v * vx v + vy v * vy v + vz v * vz v)"
    and le: "\<bar>vy v\<bar> \<le> cos 0.000001 * r"
  shows "setFromSpherical \<lparr>radius = Fin r, phi = makeSafe (phi (setFromVector3 v)),
                            theta = theta (setFromVector3 v)\<rparr> = fin3 v"
proof (cases "r = 0")
  case True
  then have "vx v * vx v + vy v * vy v + vz v * vz v = 0"
    using r by simp
  then have "vx v = 0" "vy v = 0" "vz v = 0"
    by (simp_all add: sum_squares_eq_zero_iff add_nonneg_eq_0_iff)
  then show ?thesis
    using True by (cases v) (simp add: setFromSpherical_def fin3_def Let_def)
next
  case False
  note p = polar_angle [OF r False le]
  have th: "theta (setFromVector3 v) = atan2 (vx v) (vz v)"
    using False by (simp add: azimuth r)
  note a = atan2_sin_cos [OF p(4)]
  have x: "sqrt (vx v * vx v + vz v * vz v) * sin (atan2 (vx v) (vz v)) = vx v"
    using p(4) by (simp add: a(1))
  have z: "sqrt (vx v * vx v + vz v * vz v) * cos (atan2 (vx v) (vz v)) = vz v"
    using p(4) by (simp add: a(2))
  show ?thesis
    by (simp add: setFromSpherical_def fin3_def p(1,2,3) th Let_def x z)
qed

lemma js_add3_sub3: "js_add3 (fin3 t) (fin3 (sub3 p t)) = fin3 p"
  by (simp add: js_add3_def fin3_def sub3_def)

lemma clamp_unlimited: "0 \<le> r \<Longrightarrow> js_max (Fin 0) (js_min PInf (Fin r)) = Fin r"
  by simp

lemma update_idle_keeps_position:
  assumes "idle ctl" and "position cam = fin3 p" and "target ctl = fin3 t"
    and "awayFromPoles (sub3 p t)"
    and "js_max (minDistance ctl) (js_min (maxDistance ctl) (Fin (sqrt (dot3 (sub3 p t) (sub3 p t))))) =
           Fin (sqrt (dot3 (sub3 p t) (sub3 p t)))"
  shows "position (snd (update ctl cam)) = fin3 p"
proof -
  define v where "v = sub3 p t"
  define r where "r = sqrt (vx v * vx v + vy v * vy v + vz v * vz v)"
  have d: "sqrt (dot3 v v) = r"
    by (simp add: r_def dot3_def)
  have le: "\<bar>vy v\<bar> \<le> cos 0.000001 * r"
    using assms(4) by (simp add: awayFromPoles_def v_def [symmetric] d)
  have c: "js_max (minDistance ctl) (js_min (maxDistance ctl) (radius (setFromVector3 v))) = Fin r"
    using assms(5) by (simp only: v_def [symmetric] d radius_setFromVector3 r_def [symmetric])
  have "position (snd (update ctl cam)) = js_add3 (fin3 t) (fin3 v)"
    unfolding update_idle_position [OF assms(1,2,3) v_def] c roundtrip [OF r_def le]
      applyQuaternion_fin3 ..
  then show ?thesis
    by (simp only: v_def js_add3_sub3)
qed

lemma setFromVector3_along_z:
  "0 < z \<Longrightarrow> setFromVector3 (Vector3 0 0 z) = \<lparr>radius = Fin z, phi = pi / 2, theta = 0\<rparr>"
  by (simp add: setFromVector3_def atan2_def)

lemma setFromVector3_zero:
  "setFromVector3 (Vector3 0 0 0) = \<lparr>radius = Fin 0, phi = 0, theta = 0\<rparr>"
  by (simp add: setFromVector3_def)

lemma update_idle_along_z:
  assumes "idle ctl" and "position cam = fin3 (Vector3 x y (z + d))"
    and "target ctl = fin3 (Vector3 x y z)" and "0 < d"
    and "js_max (minDistance ctl) (js_min (maxDistance ctl) (Fin d)) = Fin r"
  shows "position (snd (update ctl cam)) = fin3 (Vector3 x y (z + r))"
proof -
  have v: "Vector3 0 0 d = sub3 (Vector3 x y (z + d)) (Vector3 x y z)"
    by (simp add: sub3_def)
  show ?thesis
    unfolding update_idle_position [OF assms(1,2,3) v] setFromVector3_along_z [OF assms(4)]
    by (simp add: assms(5) makeSafe_half_pi setFromSpherical_def applyQuaternion_def finite3_def
        js_add3_def fin3_def)
qed

lemma update_idle_on_target:
  assumes "idle ctl" and "position cam = fin3 t" and "target ctl = fin3 t"
    and "js_max (minDistance ctl) (js_min (maxDistance ctl) (Fin 0)) = Fin r"
  shows "position (snd (update ctl cam)) =
           fin3 (Vector3 (vx t) (vy t + cos 0.000001 * r) (vz t + sin 0.000001 * r))"
proof -
  have v: "Vector3 0 0 0 = sub3 t t"
    by (simp add: sub3_def)
  show ?thesis
    unfolding update_idle_position [OF assms(1,2,3) v] setFromVector3_zero
    by (simp add: assms(4) makeSafe_zero setFromSpherical_def applyQuaternion_def finite3_def
        js_add3_def fin3_def)
qed

section \<open>The fit operations, step by step\<close>

lemma update_idle:
  assumes "idle ctl"
  shows "update ctl cam =
           (ctl, cam\<lparr>position := position (snd (update ctl cam)), lookAt := target ctl\<rparr>)"
proof -
  have i: "sphericalDelta_theta ctl = 0" "sphericalDelta_phi ctl = 0"
    "panOffset ctl = Vector3 0 0 0" "dollyScale ctl = 1"
    "\<not> (autoRotate ctl \<and> \<not> interacting ctl)"
    using assms by (simp_all add: idle_def)
  have c: "fst (update ctl cam) = ctl"
    by (rule update_idle_controls [OF assms])
  have l: "snd (update ctl cam) =
      cam\<lparr>position := position (snd (update ctl cam)), lookAt := target ctl\<rparr>"
    unfolding update_def Let_def
    by (simp add: i js_add3_zero multiplyScalar_zero)
  show ?thesis
    using c l by (metis prod.collapse)
qed

lemma idle_target: "idle (ctl\<lparr>target := t\<rparr>) = idle ctl"
  by (simp add: idle_def)

lemma update_overwritten:
  "(snd (update ctl cam))\<lparr>position := p, lookAt := l\<rparr> = cam\<lparr>position := p, lookAt := l\<rparr>"
  by (simp add: update_def Let_def)

lemma updateControls_fields:
  "camera (updateControls s cam ctl) = Some (snd (update ctl cam))"
  "controls (updateControls s cam ctl) = Some (fst (update ctl cam))"
  "renderer (updateControls s cam ctl) = renderer s"
  "currentModel (updateControls s cam ctl) = currentModel s"
  "canvas (updateControls s cam ctl) = canvas s"
  by (simp_all add: updateControls_def split: prod.splits)

lemma updateControls_idle:
  assumes "idle ctl"
  shows "updateControls s cam ctl =
           s\<lparr>camera := Some (cam\<lparr>position := position (snd (update ctl cam)),
                                  lookAt := target ctl\<rparr>),
             controls := Some ctl\<rparr>"
  unfolding updateControls_def by (subst update_idle [OF assms]) simp

lemma master_fit_guarded:
  assumes "camera s = Some cam" "controls s = Some ctl" "renderer s = Some rnd"
    and "clientWidth (canvas s) \<noteq> 0"
    and "cz = master_cameraZ (maxDim (world_getSize (setFromObject m))) (fov cam)
                (js_div (Fin (real (clientWidth (canvas s)))) (Fin (real (clientHeight (canvas s)))))"
    and "c = world_getCenter (setFromObject m)"
  shows "master_fitCameraToModel (Some m) s =
           updateControls s (cam\<lparr>position := Vector3 cz (js_mul cz (Fin 0.7)) cz, lookAt := c\<rparr>)
             (ctl\<lparr>target := c\<rparr>)"
  using assms by (simp add: master_fitCameraToModel_def Let_def)

lemma master_fit_skipped:
  "model = None \<or> camera s = None \<or> controls s = None \<or> renderer s = None \<or>
   clientWidth (canvas s) = 0
   \<Longrightarrow> master_fitCameraToModel model s = s"
  by (auto simp add: master_fitCameraToModel_def Let_def split: option.splits)

lemma asset_fit_present:
  assumes "currentModel s = Some m" "camera s = Some cam" "controls s = Some ctl"
    and "cz = asset_cameraZ (maxDim (world_getSize (setFromObject m))) (fov cam)"
    and "c = world_getCenter (setFromObject m)"
  shows "fitCameraToModel s =
           Inr (updateControls s
                  (cam\<lparr>position := Vector3 (vx c) (vy c) (js_add (vz c) cz), lookAt := c\<rparr>)
                  (ctl\<lparr>target := c\<rparr>))"
  using assms by (simp add: fitCameraToModel_def Let_def)

lemma asset_fit_absent: "currentModel s = None \<Longrightarrow> fitCameraToModel s = Inr s"
  by (simp add: fitCameraToModel_def)

lemma awayFromPoles_diagonal: "awayFromPoles (Vector3 d (d * 0.7) d)"
proof -
  have "dot3 (Vector3 d (d * 0.7) d) (Vector3 d (d * 0.7) d) = 2.49 * (d * d)"
    by (simp add: dot3_def algebra_simps)
  then have "sqrt (dot3 (Vector3 d (d * 0.7) d) (Vector3 d (d * 0.7) d)) = sqrt (2.49 * (d * d))"
    by (simp only:)
  also have "\<dots> = sqrt 2.49 * sqrt (d * d)"
    by (rule real_sqrt_mult)
  also have "sqrt (d * d) = \<bar>d\<bar>"
    by (rule real_sqrt_abs2)
  finally have s: "sqrt (dot3 (Vector3 d (d * 0.7) d) (Vector3 d (d * 0.7) d)) = sqrt 2.49 * \<bar>d\<bar>" .
  have "1.5 < sqrt 2.49"
    by (rule real_less_rsqrt) (simp add: power2_eq_square)
  then have "0.7 \<le> cos 0.000001 * sqrt 2.49"
    using cos_eps_bounds(1) mult_strict_mono [of "1 / 2" "cos 0.000001" "1.5" "sqrt 2.49"]
    by simp
  then have "0.7 * \<bar>d\<bar> \<le> cos 0.000001 * sqrt 2.49 * \<bar>d\<bar>"
    by (rule mult_right_mono) simp
  then show ?thesis
    unfolding awayFromPoles_def s by (simp add: abs_mult mult.assoc mult.commute)
qed

lemma dot3_self_nonneg: "0 \<le> dot3 v v"
  by (simp add: dot3_def)

lemma master_fit_pose:
  assumes "camera s = Some cam" "controls s = Some ctl" "renderer s = Some rnd"
    and "clientWidth (canvas s) \<noteq> 0"
    and "idle ctl" "minDistance ctl = Fin 0" "maxDistance ctl = PInf"
    and "master_cameraZ (maxDim (world_getSize (setFromObject m))) (fov cam)
           (js_div (Fin (real (clientWidth (canvas s)))) (Fin (real (clientHeight (canvas s))))) =
         Fin d"
    and "world_getCenter (setFromObject m) = fin3 c"
    and "awayFromPoles (sub3 (Vector3 d (d * 0.7) d) c)"
  shows "master_fitCameraToModel (Some m) s =
           s\<lparr>camera := Some (cam\<lparr>position := fin3 (Vector3 d (d * 0.7) d), lookAt := fin3 c\<rparr>),
             controls := Some (ctl\<lparr>target := fin3 c\<rparr>)\<rparr>"
proof -
  define cam1 where
    "cam1 = cam\<lparr>position := Vector3 (Fin d) (js_mul (Fin d) (Fin 0.7)) (Fin d), lookAt := fin3 c\<rparr>"
  define ctl1 where "ctl1 = ctl\<lparr>target := fin3 c\<rparr>"
  have i: "idle ctl1"
    using assms(5) by (simp add: ctl1_def idle_target)
  have p: "position cam1 = fin3 (Vector3 d (d * 0.7) d)"
    by (simp add: cam1_def fin3_def)
  have t: "target ctl1 = fin3 c"
    by (simp add: ctl1_def)
  have cl: "js_max (minDistance ctl1) (js_min (maxDistance ctl1)
        (Fin (sqrt (dot3 (sub3 (Vector3 d (d * 0.7) d) c) (sub3 (Vector3 d (d * 0.7) d) c))))) =
      Fin (sqrt (dot3 (sub3 (Vector3 d (d * 0.7) d) c) (sub3 (Vector3 d (d * 0.7) d) c)))"
    by (simp add: ctl1_def assms(6,7) dot3_self_nonneg max_def)
  have pos: "position (snd (update ctl1 cam1)) = fin3 (Vector3 d (d * 0.7) d)"
    by (rule update_idle_keeps_position [OF i p t assms(10) cl])
  have "master_fitCameraToModel (Some m) s = updateControls s cam1 ctl1"
    unfolding cam1_def ctl1_def
    by (rule master_fit_guarded [OF assms(1,2,3,4) assms(8) [symmetric] assms(9) [symmetric]])
  also have "\<dots> = s\<lparr>camera := Some (cam1\<lparr>position := fin3 (Vector3 d (d * 0.7) d),
                                            lookAt := fin3 c\<rparr>),
                       controls := Some ctl1\<rparr>"
    unfolding updateControls_idle [OF i] pos by (simp add: ctl1_def)
  finally show ?thesis
    by (simp add: cam1_def ctl1_def)
qed

lemma asset_fit_pose:
  assumes "currentModel s = Some m" "camera s = Some cam" "controls s = Some ctl"
    and "idle ctl"
    and "asset_cameraZ (maxDim (world_getSize (setFromObject m))) (fov cam) = Fin d" and "0 < d"
    and "world_getCenter (setFromObject m) = fin3 c"
    and "js_max (minDistance ctl) (js_min (maxDistance ctl) (Fin d)) = Fin r"
  shows "fitCameraToModel s =
           Inr (s\<lparr>camera := Some (cam\<lparr>position := fin3 (Vector3 (vx c) (vy c) (vz c + r)),
                                       lookAt := fin3 c\<rparr>),
                  controls := Some (ctl\<lparr>target := fin3 c\<rparr>)\<rparr>)"
proof -
  define cam1 where
    "cam1 = cam\<lparr>position := Vector3 (Fin (vx c)) (Fin (vy c)) (js_add (Fin (vz c)) (Fin d)),
                 lookAt := fin3 c\<rparr>"
  define ctl1 where "ctl1 = ctl\<lparr>target := fin3 c\<rparr>"
  have i: "idle ctl1"
    using assms(4) by (simp add: ctl1_def idle_target)
  have p: "position cam1 = fin3 (Vector3 (vx c) (vy c) (vz c + d))"
    by (simp add: cam1_def fin3_def)
  have t: "target ctl1 = fin3 (Vector3 (vx c) (vy c) (vz c))"
    by (simp add: ctl1_def)
  have cl: "js_max (minDistance ctl1) (js_min (maxDistance ctl1) (Fin d)) = Fin r"
    using assms(8) by (simp add: ctl1_def)
  have pos: "position (snd (update ctl1 cam1)) = fin3 (Vector3 (vx c) (vy c) (vz c + r))"
    by (rule update_idle_along_z [OF i p t assms(6) cl])
  have "fitCameraToModel s = Inr (updateControls s cam1 ctl1)"
    unfolding cam1_def ctl1_def
    by (subst asset_fit_present [OF assms(1,2,3) refl refl]) (simp add: assms(5,7) fin3_def)
  also have "updateControls s cam1 ctl1 =
      s\<lparr>camera := Some (cam1\<lparr>position := fin3 (Vector3 (vx c) (vy c) (vz c + r)),
                               lookAt := fin3 c\<rparr>),
        controls := Some ctl1\<rparr>"
    unfolding updateControls_idle [OF i] pos by (simp add: ctl1_def)
  finally show ?thesis
    by (simp add: cam1_def ctl1_def)
qed

section \<open>The example viewers\<close>

lemma cube_box:
  "0 \<le> h \<Longrightarrow>
   setFromObject (cube h) = WorldBox (Box (Vector3 (- h) (- h) (- h)) (Vector3 h h h))"
  by (simp add: setFromObject_def cube_def computeBoundingBox_def setFromPoints_def
      corners_def localToWorld_def)

lemma point_box:
  "setFromObject point_mesh = WorldBox (Box (Vector3 0 0 0) (Vector3 0 0 0))"
  by (simp add: setFromObject_def point_mesh_def computeBoundingBox_def setFromPoints_def
      corners_def localToWorld_def)

lemma master_cameraZ_finite:
  assumes "0 < a" "cos (f * (pi / 180) / 2) \<noteq> 0" "tan (f * (pi / 180) / 2) \<noteq> 0"
  shows "master_cameraZ (Fin md) f (Fin a) =
           Fin (\<bar>md / (if 1 < a then 2 else 2 * a) / tan (f * (pi / 180) / 2)\<bar> * 1.5)"
  using assms by (simp add: master_cameraZ_def)

lemma master_cameraZ_infinite_aspect:
  assumes "cos (f * (pi / 180) / 2) \<noteq> 0" "tan (f * (pi / 180) / 2) \<noteq> 0"
  shows "master_cameraZ (Fin md) f PInf = Fin (\<bar>md / 2 / tan (f * (pi / 180) / 2)\<bar> * 1.5)"
  using assms by (simp add: master_cameraZ_def)

lemma asset_cameraZ_finite:
  assumes "cos (f * (pi / 180) / 2) \<noteq> 0" "tan (f * (pi / 180) / 2) \<noteq> 0"
  shows "asset_cameraZ (Fin md) f = Fin (\<bar>md / 2 / tan (f * (pi / 180) / 2)\<bar> * 1.5)"
  using assms by (simp add: asset_cameraZ_def)

lemma half_45: "(45::real) * (pi / 180) / 2 = pi / 8"
  by simp

lemma half_50: "(50::real) * (pi / 180) / 2 = 5 * pi / 36"
  by simp

lemma tan_pi_8_pos: "0 < tan (pi / 8)"
  by (rule tan_gt_zero) (use pi_gt_zero in simp_all)

lemma cube_size: "0 \<le> h \<Longrightarrow> maxDim (world_getSize (setFromObject (cube h))) = Fin (2 * h)"
  by (simp add: cube_box maxDim_def fin3_def)

lemma cube_center: "0 \<le> h \<Longrightarrow> world_getCenter (setFromObject (cube h)) = origin"
  by (simp add: cube_box fin3_def origin_def)

lemma origin_fin3: "origin = fin3 (Vector3 0 0 0)"
  by (simp add: origin_def fin3_def)

lemma idle_OrbitControls:
  "idle (OrbitControls\<lparr>enableDamping := True, dampingFactor := 0.05,
                         autoRotate := False, autoRotateSpeed := 2\<rparr>)"
  "idle (OrbitControls\<lparr>enableDamping := True, dampingFactor := 0.05,
                         minDistance := Fin 50, maxDistance := Fin 500\<rparr>)"
  "idle (OrbitControls\<lparr>target := t, enableDamping := True\<rparr>)"
  by (simp_all add: idle_def OrbitControls_def)

lemma initThreeJS_fields:
  "camera (initThreeJS cv) =
     Some \<lparr>fov = 45, aspect = js_div (Fin (real (clientWidth cv))) (Fin (real (clientHeight cv))),
           near = 0.1, far = 1000, position = Vector3 (Fin 200) (Fin 150) (Fin 200), lookAt = origin\<rparr>"
  "controls (initThreeJS cv) =
     Some (OrbitControls\<lparr>enableDamping := True, dampingFactor := 0.05,
                           autoRotate := False, autoRotateSpeed := 2\<rparr>)"
  "renderer (initThreeJS cv) = Some \<lparr>drawingSize = (clientWidth cv, clientHeight cv)\<rparr>"
  "currentModel (initThreeJS cv) = None"
  "canvas (initThreeJS cv) = cv"
  by (simp_all add: initThreeJS_def)

lemma master_cameraZ_45_10: "master_cameraZ (Fin 10) 45 PInf = Fin (15 / 2 / (sqrt 2 - 1))"
  using master_cameraZ_infinite_aspect [of 45 10] cos_pi_8 tan_pi_8_pos
  by (simp add: tan_pi_8)

lemma asset_cameraZ_50_100: "asset_cameraZ (Fin 100) 50 = Fin (75 / tan (5 * pi / 36))"
  using asset_cameraZ_finite [of 50 100] cos_25 tan_25_pos
  by (simp add: half_50)

lemma master_controls_limits:
  "minDistance (OrbitControls\<lparr>enableDamping := True, dampingFactor := 0.05,
                                autoRotate := False, autoRotateSpeed := 2\<rparr>) = Fin 0"
  "maxDistance (OrbitControls\<lparr>enableDamping := True, dampingFactor := 0.05,
                                autoRotate := False, autoRotateSpeed := 2\<rparr>) = PInf"
  by (simp_all add: OrbitControls_def)

lemma master_fit_init:
  assumes "w \<noteq> 0"
    and "master_cameraZ (maxDim (world_getSize (setFromObject m))) 45
           (js_div (Fin (real w)) (Fin (real h))) = Fin d"
    and "world_getCenter (setFromObject m) = origin"
  shows "cameraPosition (master_fitCameraToModel (Some m)
             (initThreeJS \<lparr>clientWidth = w, clientHeight = h\<rparr>)) =
           Some (Vector3 (Fin d) (Fin (d * 0.7)) (Fin d))"
proof -
  define s0 where "s0 = initThreeJS \<lparr>clientWidth = w, clientHeight = h\<rparr>"
  define cam where
    "cam = \<lparr>fov = 45,
            aspect = js_div (Fin (real (clientWidth \<lparr>clientWidth = w, clientHeight = h\<rparr>)))
                            (Fin (real (clientHeight \<lparr>clientWidth = w, clientHeight = h\<rparr>))),
            near = 0.1, far = 1000,
            position = Vector3 (Fin 200) (Fin 150) (Fin 200), lookAt = origin\<rparr>"
  have w: "clientWidth (canvas s0) \<noteq> 0"
    using assms(1) by (simp add: s0_def initThreeJS_fields)
  have z: "master_cameraZ (maxDim (world_getSize (setFromObject m))) (fov cam)
      (js_div (Fin (real (clientWidth (canvas s0)))) (Fin (real (clientHeight (canvas s0))))) =
      Fin d"
    using assms(2) by (simp only: s0_def initThreeJS_fields cam_def camera.simps canvas.simps)
  have c: "world_getCenter (setFromObject m) = fin3 (Vector3 0 0 0)"
    using assms(3) by (simp only: origin_fin3)
  have a: "awayFromPoles (sub3 (Vector3 d (d * 0.7) d) (Vector3 0 0 0))"
    using awayFromPoles_diagonal [of d] by (simp add: sub3_def)
  note p = master_fit_pose [OF initThreeJS_fields(1,2,3) [of "\<lparr>clientWidth = w, clientHeight = h\<rparr>"],
      folded s0_def cam_def, OF w idle_OrbitControls(1) master_controls_limits z c a]
  show ?thesis
    unfolding s0_def [symmetric] p by (simp add: cameraPosition_def fin3_def)
qed

section \<open>Guards, missing models and resizing\<close>

lemma tan_25_lower: "sqrt 2 - 1 < tan (5 * pi / 36)"
proof -
  have "tan (pi / 8) < tan (5 * pi / 36)"
    by (rule tan_monotone) (use pi_gt_zero in simp_all)
  then show ?thesis
    by (simp add: tan_pi_8)
qed

lemma asset_distance_bounds: "150 < 75 / tan (5 * pi / 36)" "75 / tan (5 * pi / 36) < 500"
proof -
  show "150 < 75 / tan (5 * pi / 36)"
    using tan_25_pos tan_25_less_half by (simp add: field_simps)
  have "0.4 < sqrt 2 - 1"
    using sqrt2_bounds(1) by simp
  then have "0.4 < tan (5 * pi / 36)"
    using tan_25_lower by simp
  then show "75 / tan (5 * pi / 36) < 500"
    using tan_25_pos by (simp add: field_simps)
qed

lemma asset_controls_limits:
  "minDistance (OrbitControls\<lparr>enableDamping := True, dampingFactor := 0.05,
                                minDistance := Fin 50, maxDistance := Fin 500\<rparr>) = Fin 50"
  "maxDistance (OrbitControls\<lparr>enableDamping := True, dampingFactor := 0.05,
                                minDistance := Fin 50, maxDistance := Fin 500\<rparr>) = Fin 500"
  by (simp_all add: OrbitControls_def)

lemma asset_fit_cube_50:
  assumes "currentModel s = Some (cube 50)" "camera s = Some cam" "fov cam = 50"
    and "controls s = Some ctl" "idle ctl" "minDistance ctl = Fin 50" "maxDistance ctl = Fin 500"
  shows "fitCameraToModel s =
           Inr (s\<lparr>camera := Some (cam\<lparr>position :=
                                        Vector3 (Fin 0) (Fin 0) (Fin (75 / tan (5 * pi / 36))),
                                       lookAt := origin\<rparr>),
                  controls := Some (ctl\<lparr>target := origin\<rparr>)\<rparr>)"
proof -
  have z: "asset_cameraZ (maxDim (world_getSize (setFromObject (cube 50)))) (fov cam) =
      Fin (75 / tan (5 * pi / 36))"
    using asset_cameraZ_50_100 by (simp add: cube_size assms(3))
  have pos: "0 < 75 / tan (5 * pi / 36)"
    using tan_25_pos by simp
  have c: "world_getCenter (setFromObject (cube 50)) = fin3 (Vector3 0 0 0)"
    using cube_center [of 50] by (simp add: origin_fin3)
  have cl: "js_max (minDistance ctl) (js_min (maxDistance ctl) (Fin (75 / tan (5 * pi / 36)))) =
      Fin (75 / tan (5 * pi / 36))"
    using asset_distance_bounds by (simp add: assms(6,7))
  show ?thesis
    unfolding asset_fit_pose [OF assms(1,2,4,5) z pos c cl]
    by (simp add: fin3_def origin_def)
qed

text \<open>
  C5. When there is no model, neither fit operation changes the state: the camera
  position, the point it looks at and the target of the controls are the ones from
  before the call. The master logic takes the model as an argument, the asset script
  reads \<open>this.model\<close>.
\<close>

theorem fit_absent_model_unchanged:
  "master_fitCameraToModel None s = s \<and>
   (currentModel s = None \<longrightarrow> fitCameraToModel s = Inr s)"
  by (simp add: master_fit_skipped asset_fit_absent)

theorem fit_absent_model_unchanged_witness:
  "currentModel (setupViewer \<lparr>clientWidth = 800, clientHeight = 600\<rparr>) = None \<and>
   fitCameraToModel (setupViewer \<lparr>clientWidth = 800, clientHeight = 600\<rparr>) =
     Inr (setupViewer \<lparr>clientWidth = 800, clientHeight = 600\<rparr>)"
  using fit_absent_model_unchanged [of "setupViewer \<lparr>clientWidth = 800, clientHeight = 600\<rparr>"]
  by (simp add: setupViewer_def)

text \<open>
  C4, as the code has it. The master logic skips the fit when the aspect ratio
  \<open>clientWidth / clientHeight\<close> is \<open>NaN\<close> or \<open>0\<close>, which is when the width of the canvas
  is \<open>0\<close>: the state, and with it the camera position, the point looked at and the
  target of the controls, is returned as it was.
\<close>

theorem master_fit_zero_width_noop:
  "clientWidth (canvas s) = 0 \<Longrightarrow> master_fitCameraToModel model s = s"
  by (simp add: master_fit_skipped)

theorem master_fit_zero_width_noop_witness:
  "clientWidth (canvas (initThreeJS \<lparr>clientWidth = 0, clientHeight = 600\<rparr>)) = 0 \<and>
   master_fitCameraToModel (Some (cube 5)) (initThreeJS \<lparr>clientWidth = 0, clientHeight = 600\<rparr>) =
     initThreeJS \<lparr>clientWidth = 0, clientHeight = 600\<rparr>"
  using master_fit_zero_width_noop
    [of "initThreeJS \<lparr>clientWidth = 0, clientHeight = 600\<rparr>" "Some (cube 5)"]
  by (simp add: initThreeJS_def)

text \<open>
  C4 as stated fails. On a canvas of 800 by 0 pixels the aspect ratio is \<open>Infinity\<close>,
  the guard of the master logic lets it through and the camera leaves
  \<open>(200, 150, 200)\<close>. The asset script has no guard on the canvas: on a canvas of 0 by
  0 pixels it moves the camera from \<open>(0, 0, 150)\<close> to \<open>(0, 0, 75 / tan 25\<degree>)\<close>.
\<close>

theorem fit_zero_viewport_changes_pose:
  "cameraPosition (master_fitCameraToModel (Some (cube 5))
       (initThreeJS \<lparr>clientWidth = 800, clientHeight = 0\<rparr>))
     \<noteq> cameraPosition (initThreeJS \<lparr>clientWidth = 800, clientHeight = 0\<rparr>) \<and>
   fitCameraToModel
       ((setupViewer \<lparr>clientWidth = 0, clientHeight = 0\<rparr>)\<lparr>currentModel := Some (cube 50)\<rparr>)
     \<noteq> Inr ((setupViewer \<lparr>clientWidth = 0, clientHeight = 0\<rparr>)\<lparr>currentModel := Some (cube 50)\<rparr>)"
proof
  define d :: real where "d = 15 / 2 / (sqrt 2 - 1)"
  have "cameraPosition (master_fitCameraToModel (Some (cube 5))
       (initThreeJS \<lparr>clientWidth = 800, clientHeight = 0\<rparr>)) =
     Some (Vector3 (Fin d) (Fin (d * 0.7)) (Fin d))"
    by (rule master_fit_init) (simp_all add: cube_size cube_center master_cameraZ_45_10 d_def)
  moreover have "\<not> (d = 200 \<and> d * 0.7 = 150)"
    by auto
  ultimately show "cameraPosition (master_fitCameraToModel (Some (cube 5))
       (initThreeJS \<lparr>clientWidth = 800, clientHeight = 0\<rparr>))
     \<noteq> cameraPosition (initThreeJS \<lparr>clientWidth = 800, clientHeight = 0\<rparr>)"
    by (auto simp add: cameraPosition_def initThreeJS_fields)
  define s0 where
    "s0 = (setupViewer \<lparr>clientWidth = 0, clientHeight = 0\<rparr>)\<lparr>currentModel := Some (cube 50)\<rparr>"
  have f: "currentModel s0 = Some (cube 50)"
    "camera s0 = Some \<lparr>fov = 50, aspect = NaN, near = 0.1, far = 1000,
                        position = Vector3 (Fin 0) (Fin 0) (Fin 150), lookAt = origin\<rparr>"
    "controls s0 = Some (OrbitControls\<lparr>enableDamping := True, dampingFactor := 0.05,
                                        minDistance := Fin 50, maxDistance := Fin 500\<rparr>)"
    by (simp_all add: s0_def setupViewer_def)
  have "75 / tan (5 * pi / 36) \<noteq> 150"
    using asset_distance_bounds(1) by simp
  then have "fitCameraToModel s0 \<noteq> Inr s0"
    unfolding asset_fit_cube_50 [OF f(1,2) _ f(3) idle_OrbitControls(2) asset_controls_limits, simplified]
    by (simp add: s0_def setupViewer_def)
  then show "fitCameraToModel
       ((setupViewer \<lparr>clientWidth = 0, clientHeight = 0\<rparr>)\<lparr>currentModel := Some (cube 50)\<rparr>)
     \<noteq> Inr ((setupViewer \<lparr>clientWidth = 0, clientHeight = 0\<rparr>)\<lparr>currentModel := Some (cube 50)\<rparr>)"
    by (simp add: s0_def)
qed

text \<open>
  C9, as the code has it. Neither fit operation has a \<open>throw\<close>. The master logic
  returns the state unchanged when the model, the camera, the controls or the renderer
  is missing or the canvas has no width, and is a total function of its input. The
  asset script returns the state unchanged when there is no model, and returns
  normally whenever the camera and the controls exist, which they do from
  \<open>setupViewer\<close> on.
\<close>

theorem fit_guards_absorb:
  "(model = None \<or> camera s = None \<or> controls s = None \<or> renderer s = None \<or>
      clientWidth (canvas s) = 0 \<longrightarrow> master_fitCameraToModel model s = s) \<and>
   (currentModel s = None \<longrightarrow> fitCameraToModel s = Inr s) \<and>
   (camera s \<noteq> None \<and> controls s \<noteq> None \<longrightarrow> (\<exists>s'. fitCameraToModel s = Inr s'))"
  by (auto simp add: master_fit_skipped asset_fit_absent fitCameraToModel_def Let_def
      split: option.splits)

theorem fit_guards_absorb_witness:
  "master_fitCameraToModel (Some (cube 5)) (initThreeJS \<lparr>clientWidth = 0, clientHeight = 600\<rparr>) =
     initThreeJS \<lparr>clientWidth = 0, clientHeight = 600\<rparr> \<and>
   fitCameraToModel (initThreeJS \<lparr>clientWidth = 0, clientHeight = 600\<rparr>) =
     Inr (initThreeJS \<lparr>clientWidth = 0, clientHeight = 600\<rparr>)"
  using fit_guards_absorb
    [of "Some (cube 5)" "initThreeJS \<lparr>clientWidth = 0, clientHeight = 600\<rparr>"]
  by (simp add: initThreeJS_fields)

lemma master_cameraZ_45_0: "master_cameraZ (Fin 0) 45 (Fin (4 / 3)) = Fin 0"
  using master_cameraZ_finite [of "4 / 3" 45 0] cos_pi_8 tan_pi_8_pos
  by (simp add: half_45)

text \<open>
  C9 as stated fails: an object without extent is not absorbed. For a mesh of one
  vertex on a canvas of 800 by 600 pixels the distance is \<open>0\<close> and the master logic
  moves the camera from \<open>(200, 150, 200)\<close> into the origin.
\<close>

theorem zero_size_object_moves_camera:
  "cameraPosition (master_fitCameraToModel (Some point_mesh)
      (initThreeJS \<lparr>clientWidth = 800, clientHeight = 600\<rparr>)) =
     Some (Vector3 (Fin 0) (Fin 0) (Fin 0)) \<and>
   cameraPosition (initThreeJS \<lparr>clientWidth = 800, clientHeight = 600\<rparr>) =
     Some (Vector3 (Fin 200) (Fin 150) (Fin 200))"
proof
  have "cameraPosition (master_fitCameraToModel (Some point_mesh)
      (initThreeJS \<lparr>clientWidth = 800, clientHeight = 600\<rparr>)) =
      Some (Vector3 (Fin 0) (Fin (0 * 0.7)) (Fin 0))"
    by (rule master_fit_init)
       (simp_all add: point_box maxDim_def fin3_def master_cameraZ_45_0 origin_def)
  then show "cameraPosition (master_fitCameraToModel (Some point_mesh)
      (initThreeJS \<lparr>clientWidth = 800, clientHeight = 600\<rparr>)) =
     Some (Vector3 (Fin 0) (Fin 0) (Fin 0))"
    by simp
  show "cameraPosition (initThreeJS \<lparr>clientWidth = 800, clientHeight = 600\<rparr>) =
     Some (Vector3 (Fin 200) (Fin 150) (Fin 200))"
    by (simp add: cameraPosition_def initThreeJS_fields)
qed

lemma onWindowResize_zoomed: "onWindowResize zoomed_viewer = Inr zoomed_resized"
  by (simp add: onWindowResize_def zoomed_viewer_def zoomed_resized_def setupViewer_def)

text \<open>
  C3, as the code has it. On a canvas with a width and a height, \<open>handleResize\<close> of the
  master logic sets the aspect ratio of the camera and the size of the renderer and
  then fits the camera to \<open>this.currentModel\<close> (a fit without a model changes
  nothing); on a canvas without width or height it does nothing. \<open>onWindowResize\<close> of
  the asset script sets the aspect ratio and leaves the camera where it is.
\<close>

theorem resize_handlers:
  "(camera s = Some cam \<and> renderer s = Some rnd \<and>
      clientWidth (canvas s) \<noteq> 0 \<and> clientHeight (canvas s) \<noteq> 0 \<longrightarrow>
      handleResize s =
        Inr (master_fitCameraToModel (currentModel s)
               (s\<lparr>camera := Some (cam\<lparr>aspect :=
                        Fin (real (clientWidth (canvas s)) / real (clientHeight (canvas s)))\<rparr>),
                   renderer := Some (rnd\<lparr>drawingSize :=
                        (clientWidth (canvas s), clientHeight (canvas s))\<rparr>)\<rparr>))) \<and>
   (clientWidth (canvas s) = 0 \<or> clientHeight (canvas s) = 0 \<longrightarrow> handleResize s = Inr s) \<and>
   (onWindowResize s = Inr s' \<longrightarrow>
      cameraPosition s' = cameraPosition s \<and> cameraLookAt s' = cameraLookAt s \<and>
      controlsTarget s' = controlsTarget s \<and>
      map_option aspect (camera s') =
        Some (js_div (Fin (real (clientWidth (canvas s)))) (Fin (real (clientHeight (canvas s))))))"
proof (intro conjI impI)
  assume "camera s = Some cam \<and> renderer s = Some rnd \<and>
      clientWidth (canvas s) \<noteq> 0 \<and> clientHeight (canvas s) \<noteq> 0"
  then show "handleResize s =
        Inr (master_fitCameraToModel (currentModel s)
               (s\<lparr>camera := Some (cam\<lparr>aspect :=
                        Fin (real (clientWidth (canvas s)) / real (clientHeight (canvas s)))\<rparr>),
                   renderer := Some (rnd\<lparr>drawingSize :=
                        (clientWidth (canvas s), clientHeight (canvas s))\<rparr>)\<rparr>))"
    by (simp add: handleResize_def Let_def)
next
  assume "clientWidth (canvas s) = 0 \<or> clientHeight (canvas s) = 0"
  then show "handleResize s = Inr s"
    by (auto simp add: handleResize_def Let_def)
next
  assume r: "onWindowResize s = Inr s'"
  then show "cameraPosition s' = cameraPosition s"
    by (auto simp add: onWindowResize_def cameraPosition_def split: option.splits)
  from r show "cameraLookAt s' = cameraLookAt s"
    by (auto simp add: onWindowResize_def cameraLookAt_def split: option.splits)
  from r show "controlsTarget s' = controlsTarget s"
    by (auto simp add: onWindowResize_def controlsTarget_def split: option.splits)
  from r show "map_option aspect (camera s') =
        Some (js_div (Fin (real (clientWidth (canvas s)))) (Fin (real (clientHeight (canvas s)))))"
    by (auto simp add: onWindowResize_def split: option.splits)
qed

theorem resize_handlers_witness:
  "handleResize ((initThreeJS \<lparr>clientWidth = 400, clientHeight = 600\<rparr>)\<lparr>currentModel := Some (cube 5)\<rparr>) =
     Inr (master_fitCameraToModel (Some (cube 5))
            ((initThreeJS \<lparr>clientWidth = 400, clientHeight = 600\<rparr>)\<lparr>currentModel := Some (cube 5)\<rparr>)) \<and>
   handleResize (initThreeJS \<lparr>clientWidth = 0, clientHeight = 600\<rparr>) =
     Inr (initThreeJS \<lparr>clientWidth = 0, clientHeight = 600\<rparr>) \<and>
   cameraPosition zoomed_resized = cameraPosition zoomed_viewer"
  using resize_handlers
    [of "(initThreeJS \<lparr>clientWidth = 400, clientHeight = 600\<rparr>)\<lparr>currentModel := Some (cube 5)\<rparr>"
        "\<lparr>fov = 45, aspect = Fin (2 / 3), near = 0.1, far = 1000,
          position = Vector3 (Fin 200) (Fin 150) (Fin 200), lookAt = origin\<rparr>"
        "\<lparr>drawingSize = (400, 600)\<rparr>"]
    resize_handlers [of "initThreeJS \<lparr>clientWidth = 0, clientHeight = 600\<rparr>"]
    resize_handlers [of zoomed_viewer _ _ zoomed_resized]
    onWindowResize_zoomed
  by (simp add: initThreeJS_def)

lemma zoomed_resized_fields:
  "currentModel zoomed_resized = Some (cube 50)"
  "camera zoomed_resized =
     Some \<lparr>fov = 50, aspect = Fin (2 / 3), near = 0.1, far = 1000,
           position = Vector3 (Fin 0) (Fin 0) (Fin 150), lookAt = origin\<rparr>"
  "controls zoomed_resized =
     Some (OrbitControls\<lparr>enableDamping := True, dampingFactor := 0.05,
                           minDistance := Fin 50, maxDistance := Fin 500\<rparr>)"
  by (simp_all add: zoomed_resized_def)

lemma fit_zoomed_resized:
  "fitCameraToModel zoomed_resized =
     Inr (zoomed_resized\<lparr>camera :=
            Some \<lparr>fov = 50, aspect = Fin (2 / 3), near = 0.1, far = 1000,
                  position = Vector3 (Fin 0) (Fin 0) (Fin (75 / tan (5 * pi / 36))),
                  lookAt = origin\<rparr>\<rparr>)"
  unfolding asset_fit_cube_50 [OF zoomed_resized_fields(1,2) _ zoomed_resized_fields(3)
      idle_OrbitControls(2) asset_controls_limits, simplified]
  by (simp add: zoomed_resized_def OrbitControls_def)

text \<open>
  C3 as stated fails for the asset script. The model is loaded, the camera stands at
  \<open>(0, 0, 150)\<close>, the canvas shrinks to 400 by 600 pixels. After \<open>onWindowResize\<close>
  the camera still stands there, and a fit would move it: the handler has not fitted.
\<close>

theorem asset_resize_does_not_refit:
  "onWindowResize zoomed_viewer = Inr zoomed_resized \<and>
   cameraPosition zoomed_resized = Some (Vector3 (Fin 0) (Fin 0) (Fin 150)) \<and>
   fitCameraToModel zoomed_resized \<noteq> Inr zoomed_resized"
proof (intro conjI)
  show "onWindowResize zoomed_viewer = Inr zoomed_resized"
    by (rule onWindowResize_zoomed)
  show "cameraPosition zoomed_resized = Some (Vector3 (Fin 0) (Fin 0) (Fin 150))"
    by (simp add: cameraPosition_def zoomed_resized_def)
  have "75 / tan (5 * pi / 36) \<noteq> 150"
    using asset_distance_bounds(1) by simp
  then show "fitCameraToModel zoomed_resized \<noteq> Inr zoomed_resized"
    unfolding fit_zoomed_resized by (simp add: zoomed_resized_def)
qed

section \<open>Fitting twice\<close>

lemma master_refit_at_rest:
  assumes "\<And>ctl. controls s = Some ctl \<Longrightarrow> idle ctl"
  shows "master_fitCameraToModel m (master_fitCameraToModel m s) = master_fitCameraToModel m s"
proof (cases "m = None \<or> camera s = None \<or> controls s = None \<or> renderer s = None \<or>
    clientWidth (canvas s) = 0")
  case True
  then show ?thesis
    by (simp add: master_fit_skipped)
next
  case False
  then obtain m0 cam ctl rnd where f: "m = Some m0" "camera s = Some cam" "controls s = Some ctl"
    "renderer s = Some rnd" "clientWidth (canvas s) \<noteq> 0"
    by auto
  define c where "c = world_getCenter (setFromObject m0)"
  define cz where "cz = master_cameraZ (maxDim (world_getSize (setFromObject m0))) (fov cam)
      (js_div (Fin (real (clientWidth (canvas s)))) (Fin (real (clientHeight (canvas s)))))"
  define cam1 where "cam1 = cam\<lparr>position := Vector3 cz (js_mul cz (Fin 0.7)) cz, lookAt := c\<rparr>"
  define ctl1 where "ctl1 = ctl\<lparr>target := c\<rparr>"
  define cam2 where "cam2 = cam1\<lparr>position := position (snd (update ctl1 cam1)),
                                 lookAt := target ctl1\<rparr>"
  define s1 where "s1 = s\<lparr>camera := Some cam2, controls := Some ctl1\<rparr>"
  have i: "idle ctl1"
    using assms [OF f(3)] by (simp add: ctl1_def idle_target)
  have one: "master_fitCameraToModel (Some m0) s = s1"
    unfolding master_fit_guarded [OF f(2,3,4,5) cz_def c_def]
    unfolding cam1_def [symmetric] ctl1_def [symmetric] updateControls_idle [OF i]
    by (simp add: s1_def cam2_def)
  have g: "camera s1 = Some cam2" "controls s1 = Some ctl1" "renderer s1 = Some rnd"
    "clientWidth (canvas s1) \<noteq> 0"
    using f by (simp_all add: s1_def)
  have cz': "cz = master_cameraZ (maxDim (world_getSize (setFromObject m0))) (fov cam2)
      (js_div (Fin (real (clientWidth (canvas s1)))) (Fin (real (clientHeight (canvas s1)))))"
    by (simp add: cz_def cam2_def cam1_def s1_def)
  have c1: "cam2\<lparr>position := Vector3 cz (js_mul cz (Fin 0.7)) cz, lookAt := c\<rparr> = cam1"
    by (simp add: cam2_def cam1_def)
  have c2: "ctl1\<lparr>target := c\<rparr> = ctl1"
    by (simp add: ctl1_def)
  have two: "master_fitCameraToModel (Some m0) s1 = s1"
    unfolding master_fit_guarded [OF g cz' c_def] c1 c2 updateControls_idle [OF i]
    by (simp add: s1_def cam2_def)
  show ?thesis
    unfolding f(1) one two ..
qed

lemma asset_refit_at_rest:
  assumes "\<And>ctl. controls s = Some ctl \<Longrightarrow> idle ctl"
  shows "andThen (fitCameraToModel s) fitCameraToModel = fitCameraToModel s"
proof (cases "currentModel s")
  case None
  then show ?thesis
    by (simp add: asset_fit_absent andThen_def)
next
  case (Some m0)
  show ?thesis
  proof (cases "camera s = None \<or> controls s = None")
    case True
    then have "fitCameraToModel s = Inl TypeError"
      using Some by (auto simp add: fitCameraToModel_def Let_def split: option.splits)
    then show ?thesis
      by (simp add: andThen_def)
  next
    case False
    then obtain cam ctl where f: "camera s = Some cam" "controls s = Some ctl"
      by auto
    define c where "c = world_getCenter (setFromObject m0)"
    define cz where "cz = asset_cameraZ (maxDim (world_getSize (setFromObject m0))) (fov cam)"
    define cam1 where
      "cam1 = cam\<lparr>position := Vector3 (vx c) (vy c) (js_add (vz c) cz), lookAt := c\<rparr>"
    define ctl1 where "ctl1 = ctl\<lparr>target := c\<rparr>"
    define cam2 where "cam2 = cam1\<lparr>position := position (snd (update ctl1 cam1)),
                                   lookAt := target ctl1\<rparr>"
    define s1 where "s1 = s\<lparr>camera := Some cam2, controls := Some ctl1\<rparr>"
    have i: "idle ctl1"
      using assms [OF f(2)] by (simp add: ctl1_def idle_target)
    have one: "fitCameraToModel s = Inr s1"
      unfolding asset_fit_present [OF Some f cz_def c_def]
      unfolding cam1_def [symmetric] ctl1_def [symmetric] updateControls_idle [OF i]
      by (simp add: s1_def cam2_def)
    have g: "currentModel s1 = Some m0" "camera s1 = Some cam2" "controls s1 = Some ctl1"
      using Some by (simp_all add: s1_def)
    have cz': "cz = asset_cameraZ (maxDim (world_getSize (setFromObject m0))) (fov cam2)"
      by (simp add: cz_def cam2_def cam1_def)
    have c1: "cam2\<lparr>position := Vector3 (vx c) (vy c) (js_add (vz c) cz), lookAt := c\<rparr> = cam1"
      by (simp add: cam2_def cam1_def)
    have c2: "ctl1\<lparr>target := c\<rparr> = ctl1"
      by (simp add: ctl1_def)
    have two: "fitCameraToModel s1 = Inr s1"
      unfolding asset_fit_present [OF g cz' c_def] c1 c2 updateControls_idle [OF i]
      by (simp add: s1_def cam2_def)
    show ?thesis
      unfolding one by (simp add: andThen_def two)
  qed
qed

lemma finite_spherical:
  "applyQuaternion (setFromSpherical \<lparr>radius = Fin r, phi = p, theta = t\<rparr>) =
     Vector3 (Fin (sin p * r * sin t)) (Fin (cos p * r)) (Fin (sin p * r * cos t))"
  by (simp add: setFromSpherical_def applyQuaternion_def finite3_def Let_def)

lemma update_autorotating:
  assumes p: "position cam = fin3 (Vector3 d (d * 0.7) d)"
    and t: "target ctl = fin3 (Vector3 0 0 0)"
    and d: "0 < d"
    and c: "panOffset ctl = Vector3 0 0 0" "sphericalDelta_phi ctl = 0" "dollyScale ctl = 1"
      "minDistance ctl = Fin 0" "maxDistance ctl = PInf"
      "enableDamping ctl" "dampingFactor ctl = 0.05"
      "autoRotate ctl" "\<not> interacting ctl" "autoRotateSpeed ctl = 2"
  shows "vx (position (snd (update ctl cam))) =
           Fin (d * sqrt 2 * sin (pi / 4 + (sphericalDelta_theta ctl - pi / 900) * 0.05))"
    and "fst (update ctl cam) =
           ctl\<lparr>sphericalDelta_theta := (sphericalDelta_theta ctl - pi / 900) * 0.95\<rparr>"
proof -
  define v where "v = Vector3 d (d * 0.7) d"
  define r where "r = sqrt (vx v * vx v + vy v * vy v + vz v * vz v)"
  have o: "js_sub3 (position cam) (target ctl) = fin3 v"
    by (simp add: p t js_sub3_def fin3_def v_def)
  have a: "awayFromPoles v"
    unfolding v_def by (rule awayFromPoles_diagonal)
  then have le: "\<bar>vy v\<bar> \<le> cos 0.000001 * r"
    by (simp add: awayFromPoles_def dot3_def r_def)
  have "0 < d * d"
    using d by simp
  then have "0 < vx v * vx v + vy v * vy v + vz v * vz v"
    by (simp add: v_def add_pos_nonneg)
  then have rpos: "0 < r"
    by (simp add: r_def)
  then have nz: "r \<noteq> 0"
    by simp
  note pa = polar_angle [OF r_def nz le]
  have rad: "radius (setFromVector3 v) = Fin r"
    by (simp add: radius_setFromVector3 r_def)
  have th: "theta (setFromVector3 v) = pi / 4"
    using d azimuth [of v] nz by (simp add: r_def [symmetric] atan2_def v_def arctan_one)
  have h: "sin (phi (setFromVector3 v)) * r = d * sqrt 2"
  proof -
    have "vx v * vx v + vz v * vz v = 2 * (d * d)"
      by (simp add: v_def)
    then have "sqrt (vx v * vx v + vz v * vz v) = sqrt 2 * sqrt (d * d)"
      by (simp only: real_sqrt_mult)
    then show ?thesis
      using d by (simp add: pa(2))
  qed
  have ph: "max 0 (min pi (phi (setFromVector3 v))) = phi (setFromVector3 v)"
    using phi_range [of v] by simp
  have g: "getAutoRotationAngle ctl = pi / 900"
    by (simp add: getAutoRotationAngle_def c)
  have cl: "js_max (Fin 0) (js_min PInf (Fin r)) = Fin r"
    using rpos by simp
  have pos: "position (snd (update ctl cam)) =
      js_add3 (fin3 (Vector3 0 0 0))
        (Vector3 (Fin (sin (phi (setFromVector3 v)) * r *
                       sin (pi / 4 + (sphericalDelta_theta ctl - pi / 900) * 0.05)))
                 (Fin (cos (phi (setFromVector3 v)) * r))
                 (Fin (sin (phi (setFromVector3 v)) * r *
                       cos (pi / 4 + (sphericalDelta_theta ctl - pi / 900) * 0.05))))"
    unfolding update_def Let_def o applyQuaternion_fin3 finite3_fin3
    by (simp add: c t g rad cl ph pa(1) th finite_spherical js_add3_zero multiplyScalar_zero
        del: js_max.simps js_min.simps)
  show "vx (position (snd (update ctl cam))) =
           Fin (d * sqrt 2 * sin (pi / 4 + (sphericalDelta_theta ctl - pi / 900) * 0.05))"
    unfolding pos h by (simp add: js_add3_def fin3_def)
  show "fst (update ctl cam) =
           ctl\<lparr>sphericalDelta_theta := (sphericalDelta_theta ctl - pi / 900) * 0.95\<rparr>"
    unfolding update_def Let_def
    by (simp add: c t g js_add3_zero multiplyScalar_zero)
qed

lemma master_cameraZ_scenario:
  "master_cameraZ (Fin 10) 45 (Fin (4 / 3)) = Fin (10 / 2 / tan (22.5 * pi / 180) * 1.5)"
  using master_cameraZ_finite [of "4 / 3" 45 10] cos_pi_8 tan_pi_8_pos
  by (simp add: half_45)

lemma scenario_distance_pos: "0 < 10 / 2 / tan (22.5 * pi / 180) * 1.5"
proof -
  have "(22.5::real) * pi / 180 = pi / 8"
    by simp
  then show ?thesis
    using tan_pi_8_pos by simp
qed

text \<open>
  C6, as the code has it. With the controls at rest, fitting a second time, with the
  model, the camera intrinsics and the canvas as they were, returns the state the
  first fit returned: the fit reads the model, the field of view and the canvas,
  writes the camera position, the point looked at and the target of the controls, and
  the update of controls at rest leaves their state as it is.
\<close>

theorem fit_idempotent:
  assumes "atRest s"
  shows "master_fitCameraToModel m (master_fitCameraToModel m s) = master_fitCameraToModel m s \<and>
         andThen (fitCameraToModel s) fitCameraToModel = fitCameraToModel s"
proof
  have i: "idle ctl" if "controls s = Some ctl" for ctl
    using assms that by (simp add: atRest_def)
  show "master_fitCameraToModel m (master_fitCameraToModel m s) = master_fitCameraToModel m s"
    by (rule master_refit_at_rest) (rule i)
  show "andThen (fitCameraToModel s) fitCameraToModel = fitCameraToModel s"
    by (rule asset_refit_at_rest) (rule i)
qed

theorem fit_idempotent_witness:
  "atRest panned_wide \<and>
   master_fitCameraToModel (Some (cube 5)) (master_fitCameraToModel (Some (cube 5)) panned_wide) =
     master_fitCameraToModel (Some (cube 5)) panned_wide \<and>
   andThen (fitCameraToModel zoomed_resized) fitCameraToModel = fitCameraToModel zoomed_resized"
proof -
  have a: "atRest panned_wide" "atRest zoomed_resized"
    by (simp_all add: atRest_def panned_wide_def zoomed_resized_def idle_def OrbitControls_def)
  from fit_idempotent [OF a(1), of "Some (cube 5)"] fit_idempotent [OF a(2)] a(1)
  show ?thesis
    by simp
qed

text \<open>
  C6 as stated fails. Take the viewer of the master logic on a canvas of 800 by 600
  pixels with the setting \<open>autoRotate\<close> switched on, and the cube of edge 10. Every
  update of the controls adds the angle of one frame, \<open>\<pi> / 900\<close>, to the pending
  rotation and applies a twentieth of what is pending. After one fit the camera has
  been turned by \<open>\<pi> / 18000\<close> from the diagonal, after two fits by \<open>1.95 \<pi> / 18000\<close>
  (the second fit puts it back on the diagonal first): the positions differ.
\<close>

theorem autorotating_fit_not_idempotent:
  "map_option vx (cameraPosition (master_fitCameraToModel (Some (cube 5))
      (updateViewerSetting_autoRotate True (initThreeJS \<lparr>clientWidth = 800, clientHeight = 600\<rparr>)))) =
     Some (Fin (10 / 2 / tan (22.5 * pi / 180) * 1.5 * sqrt 2 * sin (pi / 4 - pi / 18000))) \<and>
   map_option vx (cameraPosition (master_fitCameraToModel (Some (cube 5))
      (master_fitCameraToModel (Some (cube 5))
        (updateViewerSetting_autoRotate True (initThreeJS \<lparr>clientWidth = 800, clientHeight = 600\<rparr>))))) =
     Some (Fin (10 / 2 / tan (22.5 * pi / 180) * 1.5 * sqrt 2 * sin (pi / 4 - 1.95 * pi / 18000))) \<and>
   cameraPosition (master_fitCameraToModel (Some (cube 5))
      (master_fitCameraToModel (Some (cube 5))
        (updateViewerSetting_autoRotate True (initThreeJS \<lparr>clientWidth = 800, clientHeight = 600\<rparr>)))) \<noteq>
   cameraPosition (master_fitCameraToModel (Some (cube 5))
      (updateViewerSetting_autoRotate True (initThreeJS \<lparr>clientWidth = 800, clientHeight = 600\<rparr>)))"
proof -
  define d :: real where "d = 10 / 2 / tan (22.5 * pi / 180) * 1.5"
  define s0 where
    "s0 = updateViewerSetting_autoRotate True (initThreeJS \<lparr>clientWidth = 800, clientHeight = 600\<rparr>)"
  define cam where
    "cam = \<lparr>fov = 45, aspect = Fin (4 / 3), near = 0.1, far = 1000,
            position = Vector3 (Fin 200) (Fin 150) (Fin 200), lookAt = origin\<rparr>"
  define ctl where
    "ctl = OrbitControls\<lparr>enableDamping := True, dampingFactor := 0.05,
                          autoRotate := True, autoRotateSpeed := 2\<rparr>"
  define cam1 where
    "cam1 = cam\<lparr>position := Vector3 (Fin d) (js_mul (Fin d) (Fin 0.7)) (Fin d), lookAt := origin\<rparr>"
  define ctl1 where "ctl1 = ctl\<lparr>target := origin\<rparr>"
  define ctl2 where "ctl2 = ctl1\<lparr>sphericalDelta_theta := (0 - pi / 900) * 0.95\<rparr>"
  define s1 where "s1 = master_fitCameraToModel (Some (cube 5)) s0"
  have dpos: "0 < d"
    unfolding d_def by (rule scenario_distance_pos)
  have f0: "camera s0 = Some cam" "controls s0 = Some ctl"
    "renderer s0 = Some \<lparr>drawingSize = (800, 600)\<rparr>" "clientWidth (canvas s0) \<noteq> 0"
    by (simp_all add: s0_def updateViewerSetting_autoRotate_def initThreeJS_def cam_def ctl_def)
  have cz0: "Fin d = master_cameraZ (maxDim (world_getSize (setFromObject (cube 5)))) (fov cam)
      (js_div (Fin (real (clientWidth (canvas s0)))) (Fin (real (clientHeight (canvas s0)))))"
    using master_cameraZ_scenario
    by (simp add: cube_size cam_def s0_def updateViewerSetting_autoRotate_def initThreeJS_def d_def)
  have c0: "origin = world_getCenter (setFromObject (cube 5))"
    using cube_center [of 5] by simp
  have one: "s1 = updateControls s0 cam1 ctl1"
    unfolding s1_def cam1_def ctl1_def by (rule master_fit_guarded [OF f0 cz0 c0])
  have p1: "position cam1 = fin3 (Vector3 d (d * 0.7) d)"
    by (simp add: cam1_def fin3_def)
  have t1: "target ctl1 = fin3 (Vector3 0 0 0)" "target ctl2 = fin3 (Vector3 0 0 0)"
    by (simp_all add: ctl1_def ctl2_def origin_fin3)
  have k1: "panOffset ctl1 = Vector3 0 0 0" "sphericalDelta_phi ctl1 = 0" "dollyScale ctl1 = 1"
      "minDistance ctl1 = Fin 0" "maxDistance ctl1 = PInf"
      "enableDamping ctl1" "dampingFactor ctl1 = 0.05"
      "autoRotate ctl1" "\<not> interacting ctl1" "autoRotateSpeed ctl1 = 2"
    by (simp_all add: ctl1_def ctl_def OrbitControls_def)
  have k2: "panOffset ctl2 = Vector3 0 0 0" "sphericalDelta_phi ctl2 = 0" "dollyScale ctl2 = 1"
      "minDistance ctl2 = Fin 0" "maxDistance ctl2 = PInf"
      "enableDamping ctl2" "dampingFactor ctl2 = 0.05"
      "autoRotate ctl2" "\<not> interacting ctl2" "autoRotateSpeed ctl2 = 2"
    by (simp_all add: ctl2_def ctl1_def ctl_def OrbitControls_def)
  have sd: "sphericalDelta_theta ctl1 = 0" "sphericalDelta_theta ctl2 = (0 - pi / 900) * 0.95"
    by (simp_all add: ctl2_def ctl1_def ctl_def OrbitControls_def)
  note u1 = update_autorotating [OF p1 t1(1) dpos k1, unfolded sd]
  note u2 = update_autorotating [OF p1 t1(2) dpos k2, unfolded sd]
  have ctl2: "fst (update ctl1 cam1) = ctl2"
    unfolding u1(2) ctl2_def ..
  have f1: "camera s1 = Some (snd (update ctl1 cam1))" "controls s1 = Some ctl2"
    "renderer s1 = Some \<lparr>drawingSize = (800, 600)\<rparr>" "clientWidth (canvas s1) \<noteq> 0"
    using f0 by (simp_all add: one updateControls_fields ctl2)
  have cz1: "Fin d = master_cameraZ (maxDim (world_getSize (setFromObject (cube 5))))
      (fov (snd (update ctl1 cam1)))
      (js_div (Fin (real (clientWidth (canvas s1)))) (Fin (real (clientHeight (canvas s1)))))"
    using cz0 by (simp add: update_intrinsics one updateControls_fields cam1_def)
  have two: "master_fitCameraToModel (Some (cube 5)) s1 = updateControls s1 cam1 ctl2"
    unfolding master_fit_guarded [OF f1 cz1 c0] update_overwritten
    by (simp add: cam1_def ctl2_def ctl1_def ctl_def OrbitControls_def)
  have x1: "map_option vx (cameraPosition s1) =
      Some (Fin (d * sqrt 2 * sin (pi / 4 - pi / 18000)))"
    using u1(1) by (simp add: cameraPosition_def f1(1))
  have x2: "map_option vx (cameraPosition (master_fitCameraToModel (Some (cube 5)) s1)) =
      Some (Fin (d * sqrt 2 * sin (pi / 4 - 1.95 * pi / 18000)))"
    using u2(1) by (simp add: cameraPosition_def two updateControls_fields)
  have "sin (pi / 4 - 1.95 * pi / 18000) < sin (pi / 4 - pi / 18000)"
    by (rule sin_monotone_2pi) (use pi_gt_zero in simp_all)
  then have "d * sqrt 2 * sin (pi / 4 - 1.95 * pi / 18000) \<noteq> d * sqrt 2 * sin (pi / 4 - pi / 18000)"
    using dpos by simp
  then have ne: "cameraPosition (master_fitCameraToModel (Some (cube 5)) s1) \<noteq> cameraPosition s1"
    using x1 x2 by auto
  show ?thesis
    using x1 x2 ne unfolding s1_def s0_def d_def by simp
qed

section \<open>The target of the fit\<close>

lemma master_fit_target:
  assumes "camera s = Some cam" "controls s = Some ctl" "renderer s = Some rnd"
    and "clientWidth (canvas s) \<noteq> 0"
    and "k = (if enableDamping ctl then dampingFactor ctl else 1)"
    and "c = world_getCenter (setFromObject m)"
  shows "cameraLookAt (master_fitCameraToModel (Some m) s) =
           Some (js_add3 c (fin3 (multiplyScalar k (panOffset ctl))))"
    and "controlsTarget (master_fitCameraToModel (Some m) s) =
           Some (js_add3 c (fin3 (multiplyScalar k (panOffset ctl))))"
  unfolding master_fit_guarded [OF assms(1,2,3,4) refl assms(6)]
  by (simp_all add: cameraLookAt_def controlsTarget_def updateControls_fields update_lookAt
      update_target assms(5))

lemma asset_fit_target:
  assumes "currentModel s = Some m" "camera s = Some cam" "controls s = Some ctl"
    and "k = (if enableDamping ctl then dampingFactor ctl else 1)"
    and "c = world_getCenter (setFromObject m)"
  shows "\<exists>s'. fitCameraToModel s = Inr s' \<and>
           cameraLookAt s' = Some (js_add3 c (fin3 (multiplyScalar k (panOffset ctl)))) \<and>
           controlsTarget s' = Some (js_add3 c (fin3 (multiplyScalar k (panOffset ctl))))"
  unfolding asset_fit_present [OF assms(1,2,3) refl assms(5)]
  by (simp add: cameraLookAt_def controlsTarget_def updateControls_fields update_lookAt
      update_target assms(4))

text \<open>
  C7, as the code has it. When a fit is not skipped, the camera looks at the point the
  controls orbit around, and that point is the centre of the world-space bounding box
  of the model moved by the share of a pending pan that the update of the controls
  applies: \<open>dampingFactor\<close> times \<open>panOffset\<close> with damping, all of \<open>panOffset\<close>
  without. When no pan is pending, it is the centre. The master logic runs the fit
  when the renderer is there and the canvas has a width; the asset script whenever
  \<open>this.model\<close> is set.
\<close>

theorem fit_targets_box_center:
  assumes "camera s = Some cam" and "controls s = Some ctl"
    and "k = (if enableDamping ctl then dampingFactor ctl else 1)"
    and "c = world_getCenter (setFromObject m)"
  shows "(renderer s \<noteq> None \<and> clientWidth (canvas s) \<noteq> 0 \<longrightarrow>
            cameraLookAt (master_fitCameraToModel (Some m) s) =
              Some (js_add3 c (fin3 (multiplyScalar k (panOffset ctl)))) \<and>
            controlsTarget (master_fitCameraToModel (Some m) s) =
              Some (js_add3 c (fin3 (multiplyScalar k (panOffset ctl))))) \<and>
         (currentModel s = Some m \<longrightarrow>
            (\<exists>s'. fitCameraToModel s = Inr s' \<and>
                  cameraLookAt s' = Some (js_add3 c (fin3 (multiplyScalar k (panOffset ctl)))) \<and>
                  controlsTarget s' = Some (js_add3 c (fin3 (multiplyScalar k (panOffset ctl)))))) \<and>
         (panOffset ctl = Vector3 0 0 0 \<longrightarrow>
            js_add3 c (fin3 (multiplyScalar k (panOffset ctl))) = c)"
proof (intro conjI impI)
  assume g: "renderer s \<noteq> None \<and> clientWidth (canvas s) \<noteq> 0"
  then obtain rnd where r: "renderer s = Some rnd"
    by auto
  from g have w: "clientWidth (canvas s) \<noteq> 0"
    by simp
  show "cameraLookAt (master_fitCameraToModel (Some m) s) =
          Some (js_add3 c (fin3 (multiplyScalar k (panOffset ctl))))"
    by (rule master_fit_target(1) [OF assms(1,2) r w assms(3,4)])
  show "controlsTarget (master_fitCameraToModel (Some m) s) =
          Some (js_add3 c (fin3 (multiplyScalar k (panOffset ctl))))"
    by (rule master_fit_target(2) [OF assms(1,2) r w assms(3,4)])
next
  assume "currentModel s = Some m"
  then show "\<exists>s'. fitCameraToModel s = Inr s' \<and>
      cameraLookAt s' = Some (js_add3 c (fin3 (multiplyScalar k (panOffset ctl)))) \<and>
      controlsTarget s' = Some (js_add3 c (fin3 (multiplyScalar k (panOffset ctl))))"
    by (rule asset_fit_target [OF _ assms])
next
  assume "panOffset ctl = Vector3 0 0 0"
  then show "js_add3 c (fin3 (multiplyScalar k (panOffset ctl))) = c"
    by (simp add: multiplyScalar_zero js_add3_zero)
qed

lemma panned_wide_fields:
  "camera panned_wide =
     Some \<lparr>fov = 45, aspect = Fin (4 / 3), near = 0.1, far = 1000,
           position = Vector3 (Fin 210) (Fin 150) (Fin 200),
           lookAt = Vector3 (Fin 10) (Fin 0) (Fin 0)\<rparr>"
  "controls panned_wide =
     Some (OrbitControls\<lparr>target := Vector3 (Fin 10) (Fin 0) (Fin 0), enableDamping := True\<rparr>)"
  "renderer panned_wide = Some \<lparr>drawingSize = (800, 600)\<rparr>"
  "currentModel panned_wide = Some (cube 5)"
  "canvas panned_wide = \<lparr>clientWidth = 800, clientHeight = 600\<rparr>"
  by (simp_all add: panned_wide_def)

theorem fit_targets_box_center_witness:
  "cameraLookAt panned_wide = Some (Vector3 (Fin 10) (Fin 0) (Fin 0)) \<and>
   controlsTarget panned_wide = Some (Vector3 (Fin 10) (Fin 0) (Fin 0)) \<and>
   cameraLookAt (master_fitCameraToModel (Some (cube 5)) panned_wide) = Some origin \<and>
   controlsTarget (master_fitCameraToModel (Some (cube 5)) panned_wide) = Some origin \<and>
   (\<exists>s'. fitCameraToModel panned_wide = Inr s' \<and>
         cameraLookAt s' = Some origin \<and> controlsTarget s' = Some origin)"
proof -
  have p: "panOffset (OrbitControls\<lparr>target := Vector3 (Fin 10) (Fin 0) (Fin 0),
                                     enableDamping := True\<rparr>) = Vector3 0 0 0"
    by (simp add: OrbitControls_def)
  have c: "origin = world_getCenter (setFromObject (cube 5))"
    using cube_center [of 5] by simp
  note th = fit_targets_box_center [OF panned_wide_fields(1,2) refl c]
  have g: "renderer panned_wide \<noteq> None \<and> clientWidth (canvas panned_wide) \<noteq> 0"
    by (simp add: panned_wide_fields)
  note e = th [THEN conjunct2, THEN conjunct2, THEN mp, OF p]
  from th [THEN conjunct1, THEN mp, OF g]
    th [THEN conjunct2, THEN conjunct1, THEN mp, OF panned_wide_fields(4)]
  show ?thesis
    unfolding e by (simp add: cameraLookAt_def controlsTarget_def panned_wide_fields)
qed

text \<open>
  C7 as stated fails. The user is panning the view of the master logic: camera and
  controls aim at \<open>(10, 0, 0)\<close> and the damped controls have a pan of two units along
  x left to apply. The fit sets the target to the centre \<open>(0, 0, 0)\<close> of the cube, the
  update that ends it applies a twentieth of the pending pan, and the camera and the
  controls end up aimed at \<open>(0.1, 0, 0)\<close>.
\<close>

theorem pending_pan_moves_target:
  "cameraLookAt (master_fitCameraToModel (Some (cube 5)) panning_viewer) =
     Some (Vector3 (Fin 0.1) (Fin 0) (Fin 0)) \<and>
   controlsTarget (master_fitCameraToModel (Some (cube 5)) panning_viewer) =
     Some (Vector3 (Fin 0.1) (Fin 0) (Fin 0)) \<and>
   world_getCenter (setFromObject (cube 5)) = Vector3 (Fin 0) (Fin 0) (Fin 0)"
proof -
  define ctl where
    "ctl = OrbitControls\<lparr>target := Vector3 (Fin 10) (Fin 0) (Fin 0),
                          enableDamping := True, panOffset := Vector3 2 0 0\<rparr>"
  have f: "camera panning_viewer =
      Some \<lparr>fov = 45, aspect = Fin (4 / 3), near = 0.1, far = 1000,
            position = Vector3 (Fin 210) (Fin 150) (Fin 200),
            lookAt = Vector3 (Fin 10) (Fin 0) (Fin 0)\<rparr>"
    "controls panning_viewer = Some ctl"
    "renderer panning_viewer = Some \<lparr>drawingSize = (800, 600)\<rparr>"
    "clientWidth (canvas panning_viewer) \<noteq> 0"
    by (simp_all add: panning_viewer_def ctl_def)
  have c: "origin = world_getCenter (setFromObject (cube 5))"
    using cube_center [of 5] by simp
  have e: "js_add3 origin
      (fin3 (multiplyScalar (if enableDamping ctl then dampingFactor ctl else 1) (panOffset ctl))) =
      Vector3 (Fin 0.1) (Fin 0) (Fin 0)"
    by (simp add: ctl_def OrbitControls_def origin_def js_add3_def fin3_def multiplyScalar_def)
  show ?thesis
    using master_fit_target [OF f refl c] c
    unfolding e by (simp add: origin_def)
qed

section \<open>The distance of the fit\<close>

lemma spec_distance_code: "master_cameraZ md f a = spec_distance md f a"
proof -
  have "f * (pi / 180) / 2 = (f * pi / 180) / 2"
    by simp
  then show ?thesis
    unfolding master_cameraZ_def spec_distance_def by (simp only:)
qed

lemma asset_distance_code: "asset_cameraZ md f = spec_distance md f (Fin 1)"
proof -
  have "f * (pi / 180) / 2 = (f * pi / 180) / 2"
    by simp
  moreover have "(if js_gt (Fin 1) (Fin 1) then Fin 2 else js_mul (Fin 2) (Fin 1)) = Fin 2"
    by simp
  ultimately show ?thesis
    unfolding asset_cameraZ_def spec_distance_def by (simp only:)
qed

lemma spec_distance_finite:
  assumes "0 < a" "cos ((f * pi / 180) / 2) \<noteq> 0" "tan ((f * pi / 180) / 2) \<noteq> 0"
  shows "spec_distance (Fin md) f (Fin a) =
           Fin (\<bar>md / (if 1 < a then 2 else 2 * a) / tan ((f * pi / 180) / 2)\<bar> * 1.5)"
  using assms by (simp add: spec_distance_def)

text \<open>
  C1, as the code has it. Let \<open>md\<close> be the largest side of the world box of the model,
  \<open>c\<close> its centre, \<open>f\<close> the field of view and \<open>a\<close> the aspect ratio of the canvas. The
  master logic, when no guard skips it, computes the distance of the specification,
  puts the camera at \<open>(d, 0.7 d, d)\<close> and updates the controls. When the controls are
  at rest and do not limit the distance (the master logic sets no limits), and the
  distance is a finite number \<open>d\<close>, the camera stays there, unless that place is
  within \<open>0.000001\<close> radians of the vertical through \<open>c\<close>. The asset script does not
  read the aspect ratio: it computes the distance that the specification gives for
  the aspect ratio \<open>1\<close>, puts the camera that far from \<open>c\<close> along z and updates the
  controls, which keep the distance within their limits (the asset script sets 50 and
  500): with the controls at rest and a distance \<open>d > 0\<close> the camera ends up
  \<open>max lo (min hi d)\<close> from \<open>c\<close>. On finite arguments, away from the zeros and poles of
  the tangent, the distance of the specification is the real number that its formula
  denotes.
\<close>

theorem fit_distance:
  assumes cam: "camera s = Some cam" and ctl: "controls s = Some ctl"
    and md: "md = maxDim (world_getSize (setFromObject m))"
    and c: "c = world_getCenter (setFromObject m)"
    and a: "a = js_div (Fin (real (clientWidth (canvas s)))) (Fin (real (clientHeight (canvas s))))"
  shows "(renderer s \<noteq> None \<and> clientWidth (canvas s) \<noteq> 0 \<longrightarrow>
            master_fitCameraToModel (Some m) s =
              updateControls s
                (cam\<lparr>position := Vector3 (spec_distance md (fov cam) a)
                                          (js_mul (spec_distance md (fov cam) a) (Fin 0.7))
                                          (spec_distance md (fov cam) a),
                     lookAt := c\<rparr>)
                (ctl\<lparr>target := c\<rparr>)) \<and>
         (renderer s \<noteq> None \<and> clientWidth (canvas s) \<noteq> 0 \<and>
          idle ctl \<and> minDistance ctl = Fin 0 \<and> maxDistance ctl = PInf \<and>
          spec_distance md (fov cam) a = Fin d \<and> c = fin3 p \<and>
          awayFromPoles (sub3 (Vector3 d (d * 0.7) d) p) \<longrightarrow>
            cameraPosition (master_fitCameraToModel (Some m) s) =
              Some (Vector3 (Fin d) (Fin (d * 0.7)) (Fin d))) \<and>
         (currentModel s = Some m \<longrightarrow>
            fitCameraToModel s =
              Inr (updateControls s
                     (cam\<lparr>position := Vector3 (vx c) (vy c)
                                          (js_add (vz c) (spec_distance md (fov cam) (Fin 1))),
                          lookAt := c\<rparr>)
                     (ctl\<lparr>target := c\<rparr>))) \<and>
         (currentModel s = Some m \<and>
          idle ctl \<and> minDistance ctl = Fin lo \<and> maxDistance ctl = Fin hi \<and>
          spec_distance md (fov cam) (Fin 1) = Fin d' \<and> 0 < d' \<and> c = fin3 p \<longrightarrow>
            (\<exists>s'. fitCameraToModel s = Inr s' \<and>
                  cameraPosition s' =
                    Some (Vector3 (Fin (vx p)) (Fin (vy p)) (Fin (vz p + max lo (min hi d')))))) \<and>
         (0 < r \<and> cos ((fov cam * pi / 180) / 2) \<noteq> 0 \<and> tan ((fov cam * pi / 180) / 2) \<noteq> 0 \<longrightarrow>
            spec_distance (Fin x) (fov cam) (Fin r) =
              Fin (\<bar>x / (if 1 < r then 2 else 2 * r) / tan ((fov cam * pi / 180) / 2)\<bar> * 1.5))"
proof (intro conjI impI)
  assume g: "renderer s \<noteq> None \<and> clientWidth (canvas s) \<noteq> 0"
  then obtain rnd where r: "renderer s = Some rnd"
    by auto
  from g have w: "clientWidth (canvas s) \<noteq> 0"
    by simp
  have z: "spec_distance md (fov cam) a =
      master_cameraZ (maxDim (world_getSize (setFromObject m))) (fov cam)
        (js_div (Fin (real (clientWidth (canvas s)))) (Fin (real (clientHeight (canvas s)))))"
    by (simp only: spec_distance_code md a)
  show "master_fitCameraToModel (Some m) s =
      updateControls s
        (cam\<lparr>position := Vector3 (spec_distance md (fov cam) a)
                                  (js_mul (spec_distance md (fov cam) a) (Fin 0.7))
                                  (spec_distance md (fov cam) a),
             lookAt := c\<rparr>)
        (ctl\<lparr>target := c\<rparr>)"
    by (rule master_fit_guarded [OF cam ctl r w z c])
next
  assume g: "renderer s \<noteq> None \<and> clientWidth (canvas s) \<noteq> 0 \<and>
      idle ctl \<and> minDistance ctl = Fin 0 \<and> maxDistance ctl = PInf \<and>
      spec_distance md (fov cam) a = Fin d \<and> c = fin3 p \<and>
      awayFromPoles (sub3 (Vector3 d (d * 0.7) d) p)"
  then obtain rnd where r: "renderer s = Some rnd"
    by auto
  from g have w: "clientWidth (canvas s) \<noteq> 0" and i: "idle ctl"
    and l: "minDistance ctl = Fin 0" "maxDistance ctl = PInf"
    and d: "spec_distance md (fov cam) a = Fin d" and p: "c = fin3 p"
    and aw: "awayFromPoles (sub3 (Vector3 d (d * 0.7) d) p)"
    by blast+
  have z: "master_cameraZ (maxDim (world_getSize (setFromObject m))) (fov cam)
      (js_div (Fin (real (clientWidth (canvas s)))) (Fin (real (clientHeight (canvas s))))) = Fin d"
    using d by (simp only: spec_distance_code md a)
  have wc: "world_getCenter (setFromObject m) = fin3 p"
    using p by (simp only: c)
  show "cameraPosition (master_fitCameraToModel (Some m) s) =
      Some (Vector3 (Fin d) (Fin (d * 0.7)) (Fin d))"
    unfolding master_fit_pose [OF cam ctl r w i l z wc aw]
    by (simp add: cameraPosition_def fin3_def)
next
  assume m: "currentModel s = Some m"
  have z: "spec_distance md (fov cam) (Fin 1) =
      asset_cameraZ (maxDim (world_getSize (setFromObject m))) (fov cam)"
    by (simp only: asset_distance_code md)
  show "fitCameraToModel s =
      Inr (updateControls s
             (cam\<lparr>position := Vector3 (vx c) (vy c)
                                  (js_add (vz c) (spec_distance md (fov cam) (Fin 1))),
                  lookAt := c\<rparr>)
             (ctl\<lparr>target := c\<rparr>))"
    by (rule asset_fit_present [OF m cam ctl z c])
next
  assume g: "currentModel s = Some m \<and>
      idle ctl \<and> minDistance ctl = Fin lo \<and> maxDistance ctl = Fin hi \<and>
      spec_distance md (fov cam) (Fin 1) = Fin d' \<and> 0 < d' \<and> c = fin3 p"
  then have m: "currentModel s = Some m" and i: "idle ctl"
    and l: "minDistance ctl = Fin lo" "maxDistance ctl = Fin hi"
    and d: "spec_distance md (fov cam) (Fin 1) = Fin d'" and pos: "0 < d'" and p: "c = fin3 p"
    by blast+
  have z: "asset_cameraZ (maxDim (world_getSize (setFromObject m))) (fov cam) = Fin d'"
    using d by (simp only: asset_distance_code md)
  have wc: "world_getCenter (setFromObject m) = fin3 p"
    using p by (simp only: c)
  have cl: "js_max (minDistance ctl) (js_min (maxDistance ctl) (Fin d')) = Fin (max lo (min hi d'))"
    by (simp add: l)
  have "fitCameraToModel s =
      Inr (s\<lparr>camera := Some (cam\<lparr>position := fin3 (Vector3 (vx p) (vy p) (vz p + max lo (min hi d'))),
                                  lookAt := fin3 p\<rparr>),
             controls := Some (ctl\<lparr>target := fin3 p\<rparr>)\<rparr>)"
    by (rule asset_fit_pose [OF m cam ctl i z pos wc cl])
  then show "\<exists>s'. fitCameraToModel s = Inr s' \<and>
      cameraPosition s' =
        Some (Vector3 (Fin (vx p)) (Fin (vy p)) (Fin (vz p + max lo (min hi d'))))"
    by (simp add: cameraPosition_def fin3_def)
next
  assume "0 < r \<and> cos ((fov cam * pi / 180) / 2) \<noteq> 0 \<and> tan ((fov cam * pi / 180) / 2) \<noteq> 0"
  then show "spec_distance (Fin x) (fov cam) (Fin r) =
      Fin (\<bar>x / (if 1 < r then 2 else 2 * r) / tan ((fov cam * pi / 180) / 2)\<bar> * 1.5)"
    using spec_distance_finite [of r "fov cam" x] by blast
qed

theorem fit_distance_witness:
  "cameraPosition (master_fitCameraToModel (Some (cube 5)) panned_wide) =
     Some (Vector3 (Fin (10 / 2 / tan (22.5 * pi / 180) * 1.5))
                   (Fin (10 / 2 / tan (22.5 * pi / 180) * 1.5 * 0.7))
                   (Fin (10 / 2 / tan (22.5 * pi / 180) * 1.5))) \<and>
   (\<exists>s'. fitCameraToModel zoomed_resized = Inr s' \<and>
         cameraPosition s' =
           Some (Vector3 (Fin 0) (Fin 0) (Fin (0 + max 50 (min 500 (75 / tan (5 * pi / 36))))))) \<and>
   fitCameraToModel scenario_viewer =
     Inr (updateControls scenario_viewer
            \<lparr>fov = 45, aspect = Fin (4 / 3), near = 0.1, far = 1000,
              position = Vector3 (Fin 0) (Fin 0)
                           (js_add (Fin 0) (spec_distance (Fin 10) 45 (Fin 1))),
              lookAt = origin\<rparr>
            (OrbitControls\<lparr>target := origin, enableDamping := True, dampingFactor := 0.05,
                            minDistance := Fin 50, maxDistance := Fin 500\<rparr>)) \<and>
   spec_distance (Fin 10) 45 (Fin (4 / 3)) =
     Fin (\<bar>10 / (if 1 < (4 / 3 :: real) then 2 else 2 * (4 / 3)) / tan ((45 * pi / 180) / 2)\<bar> * 1.5)"
proof -
  define D :: real where "D = 10 / 2 / tan (22.5 * pi / 180) * 1.5"
  define cam where
    "cam = \<lparr>fov = 45, aspect = Fin (4 / 3), near = 0.1, far = 1000,
            position = Vector3 (Fin 210) (Fin 150) (Fin 200),
            lookAt = Vector3 (Fin 10) (Fin 0) (Fin 0)\<rparr>"
  define ctl where
    "ctl = OrbitControls\<lparr>target := Vector3 (Fin 10) (Fin 0) (Fin 0), enableDamping := True\<rparr>"
  have md: "Fin 10 = maxDim (world_getSize (setFromObject (cube 5)))"
    using cube_size [of 5] by simp
  have c: "origin = world_getCenter (setFromObject (cube 5))"
    using cube_center [of 5] by simp
  have a: "Fin (4 / 3) = js_div (Fin (real (clientWidth (canvas panned_wide))))
                                (Fin (real (clientHeight (canvas panned_wide))))"
    by (simp add: panned_wide_fields)
  note th = fit_distance [OF panned_wide_fields(1,2) [folded cam_def ctl_def] md c a,
      where d = D and p = "Vector3 0 0 0" and x = 10 and r = "4 / 3"]
  have g2: "renderer panned_wide \<noteq> None \<and> clientWidth (canvas panned_wide) \<noteq> 0 \<and>
      idle ctl \<and> minDistance ctl = Fin 0 \<and> maxDistance ctl = PInf \<and>
      spec_distance (Fin 10) (fov cam) (Fin (4 / 3)) = Fin D \<and> origin = fin3 (Vector3 0 0 0) \<and>
      awayFromPoles (sub3 (Vector3 D (D * 0.7) D) (Vector3 0 0 0))"
  proof (intro conjI)
    show "renderer panned_wide \<noteq> None" "clientWidth (canvas panned_wide) \<noteq> 0"
      by (simp_all add: panned_wide_fields)
    show "idle ctl"
      unfolding ctl_def by (rule idle_OrbitControls(3))
    show "minDistance ctl = Fin 0" "maxDistance ctl = PInf"
      by (simp_all add: ctl_def OrbitControls_def)
    show "spec_distance (Fin 10) (fov cam) (Fin (4 / 3)) = Fin D"
      using master_cameraZ_scenario by (simp add: spec_distance_code [symmetric] D_def cam_def)
    show "origin = fin3 (Vector3 0 0 0)"
      by (rule origin_fin3)
    show "awayFromPoles (sub3 (Vector3 D (D * 0.7) D) (Vector3 0 0 0))"
      using awayFromPoles_diagonal [of D] by (simp add: sub3_def)
  qed
  have g5: "0 < (4 / 3 :: real) \<and> cos ((fov cam * pi / 180) / 2) \<noteq> 0 \<and>
      tan ((fov cam * pi / 180) / 2) \<noteq> 0"
    using cos_pi_8 tan_pi_8_pos by (simp add: cam_def)
  define cam' where
    "cam' = \<lparr>fov = 50, aspect = Fin (2 / 3), near = 0.1, far = 1000,
             position = Vector3 (Fin 0) (Fin 0) (Fin 150), lookAt = origin\<rparr>"
  define ctl' where
    "ctl' = OrbitControls\<lparr>enableDamping := True, dampingFactor := 0.05,
                           minDistance := Fin 50, maxDistance := Fin 500\<rparr>"
  have md': "Fin 100 = maxDim (world_getSize (setFromObject (cube 50)))"
    using cube_size [of 50] by simp
  have c': "origin = world_getCenter (setFromObject (cube 50))"
    using cube_center [of 50] by simp
  note th' = fit_distance [OF zoomed_resized_fields(2,3) [folded cam'_def ctl'_def] md' c' refl,
      where d' = "75 / tan (5 * pi / 36)" and p = "Vector3 0 0 0" and lo = 50 and hi = 500]
  have g4: "currentModel zoomed_resized = Some (cube 50) \<and>
      idle ctl' \<and> minDistance ctl' = Fin 50 \<and> maxDistance ctl' = Fin 500 \<and>
      spec_distance (Fin 100) (fov cam') (Fin 1) = Fin (75 / tan (5 * pi / 36)) \<and>
      0 < 75 / tan (5 * pi / 36) \<and> origin = fin3 (Vector3 0 0 0)"
  proof (intro conjI)
    show "currentModel zoomed_resized = Some (cube 50)"
      by (rule zoomed_resized_fields(1))
    show "idle ctl'"
      unfolding ctl'_def by (rule idle_OrbitControls(2))
    show "minDistance ctl' = Fin 50" "maxDistance ctl' = Fin 500"
      by (simp_all add: ctl'_def OrbitControls_def)
    show "spec_distance (Fin 100) (fov cam') (Fin 1) = Fin (75 / tan (5 * pi / 36))"
      using asset_cameraZ_50_100 by (simp add: asset_distance_code [symmetric] cam'_def)
    show "0 < 75 / tan (5 * pi / 36)"
      using tan_25_pos by simp
    show "origin = fin3 (Vector3 0 0 0)"
      by (rule origin_fin3)
  qed
  define cam'' where
    "cam'' = \<lparr>fov = 45, aspect = Fin (4 / 3), near = 0.1, far = 1000,
              position = Vector3 (Fin 10) (Fin 0) (Fin 150),
              lookAt = Vector3 (Fin 10) (Fin 0) (Fin 0)\<rparr>"
  define ctl'' where
    "ctl'' = OrbitControls\<lparr>target := Vector3 (Fin 10) (Fin 0) (Fin 0),
                            enableDamping := True, dampingFactor := 0.05,
                            minDistance := Fin 50, maxDistance := Fin 500\<rparr>"
  have f'': "camera scenario_viewer = Some cam''" "controls scenario_viewer = Some ctl''"
    "currentModel scenario_viewer = Some (cube 5)"
    by (simp_all add: scenario_viewer_def cam''_def ctl''_def)
  note th'' = fit_distance [OF f''(1,2) md c refl]
  from th [THEN conjunct2, THEN conjunct1, THEN mp, OF g2]
    th' [THEN conjunct2, THEN conjunct2, THEN conjunct2, THEN conjunct1, THEN mp, OF g4]
    th'' [THEN conjunct2, THEN conjunct2, THEN conjunct1, THEN mp, OF f''(3)]
    th [THEN conjunct2, THEN conjunct2, THEN conjunct2, THEN conjunct2, THEN mp, OF g5]
  show ?thesis
    by (simp add: D_def cam_def cam''_def ctl''_def origin_def OrbitControls_def)
qed

lemma spec_distance_portrait:
  "spec_distance (Fin 100) 50 (Fin (400 / 600)) = Fin (225 / 2 / tan (5 * pi / 36))"
proof -
  have "spec_distance (Fin 100) 50 (Fin (400 / 600)) = master_cameraZ (Fin 100) 50 (Fin (400 / 600))"
    by (simp only: spec_distance_code)
  also have "\<dots> = Fin (225 / 2 / tan (5 * pi / 36))"
    using master_cameraZ_finite [of "400 / 600" 50 100] cos_25 tan_25_pos
    by (simp add: half_50)
  finally show ?thesis .
qed

text \<open>
  C1 as stated fails for the asset script on a canvas that is higher than wide. With
  the cube of edge 100, 50 degrees and 400 by 600 pixels the asset script moves the
  camera \<open>75 / tan 25\<degree>\<close> away from the centre, a distance within the limits of its
  controls; the distance of the specification is \<open>112.5 / tan 25\<degree>\<close>.
\<close>

theorem asset_fit_ignores_aspect:
  "fitCameraToModel zoomed_resized =
     Inr (zoomed_resized\<lparr>camera :=
            Some \<lparr>fov = 50, aspect = Fin (2 / 3), near = 0.1, far = 1000,
                  position = Vector3 (Fin 0) (Fin 0) (Fin (75 / tan (5 * pi / 36))),
                  lookAt = origin\<rparr>\<rparr>) \<and>
   spec_distance (Fin 100) 50 (Fin (400 / 600)) = Fin (225 / 2 / tan (5 * pi / 36)) \<and>
   75 / tan (5 * pi / 36) \<noteq> 225 / 2 / tan (5 * pi / 36)"
proof (intro conjI)
  show "fitCameraToModel zoomed_resized =
     Inr (zoomed_resized\<lparr>camera :=
            Some \<lparr>fov = 50, aspect = Fin (2 / 3), near = 0.1, far = 1000,
                  position = Vector3 (Fin 0) (Fin 0) (Fin (75 / tan (5 * pi / 36))),
                  lookAt = origin\<rparr>\<rparr>)"
    by (rule fit_zoomed_resized)
  show "spec_distance (Fin 100) 50 (Fin (400 / 600)) = Fin (225 / 2 / tan (5 * pi / 36))"
    by (rule spec_distance_portrait)
  show "75 / tan (5 * pi / 36) \<noteq> 225 / 2 / tan (5 * pi / 36)"
    using tan_25_pos by (simp add: field_simps)
qed

section \<open>The scenario of the specification\<close>

lemma scenario_distance:
  "18.1 < 10 / 2 / tan (22.5 * pi / 180) * 1.5"
  "10 / 2 / tan (22.5 * pi / 180) * 1.5 < 18.11"
proof -
  have e: "(22.5::real) * pi / 180 = pi / 8"
    by simp
  have d: "10 / 2 / (sqrt 2 - 1) * 1.5 = 7.5 * (sqrt 2 + 1)"
  proof -
    have "(sqrt 2 - 1) * (sqrt 2 + 1) = 1"
      by (simp add: algebra_simps)
    moreover have "sqrt 2 - 1 \<noteq> 0"
      using sqrt2_bounds(1) by simp
    ultimately have "1 / (sqrt 2 - 1) = sqrt 2 + 1"
      by (simp add: field_simps)
    then show ?thesis by (simp add: field_simps)
  qed
  show "18.1 < 10 / 2 / tan (22.5 * pi / 180) * 1.5"
    unfolding e tan_pi_8 d using sqrt2_bounds(1) by simp
  show "10 / 2 / tan (22.5 * pi / 180) * 1.5 < 18.11"
    unfolding e tan_pi_8 d using sqrt2_bounds(2) by simp
qed




lemma fov_half_angle:
  assumes "0 < f" "f < 180"
  shows "cos (f * (pi / 180) / 2) \<noteq> 0" and "0 < tan (f * (pi / 180) / 2)"
proof -
  have lo: "0 < f * (pi / 180) / 2"
    using assms by simp
  have "f * pi < 180 * pi"
    using assms by simp
  then have hi: "f * (pi / 180) / 2 < pi / 2"
    by simp
  show "cos (f * (pi / 180) / 2) \<noteq> 0"
    using cos_gt_zero [OF lo hi] by simp
  show "0 < tan (f * (pi / 180) / 2)"
    by (rule tan_gt_zero [OF lo hi])
qed

lemma expandByPoint_ordered: "ordered b \<Longrightarrow> ordered (expandByPoint b p)"
  by (cases b) auto

lemma foldl_expand_ordered: "ordered b \<Longrightarrow> ordered (foldl expandByPoint b ps)"
  by (induction ps arbitrary: b) (simp_all add: expandByPoint_ordered)

lemma computeBoundingBox_ordered: "ordered (computeBoundingBox g)"
  by (simp add: computeBoundingBox_def setFromPoints_def foldl_expand_ordered)

section \<open>The box inside the view frustum\<close>

lemma corner_offsets:
  assumes "v \<in> set (corners lo hi)"
    and "vx lo \<le> vx hi" "vy lo \<le> vy hi" "vz lo \<le> vz hi"
  shows "\<bar>vx v - (vx lo + vx hi) * 0.5\<bar> = (vx hi - vx lo) / 2"
    and "\<bar>vy v - (vy lo + vy hi) * 0.5\<bar> = (vy hi - vy lo) / 2"
    and "\<bar>vz v - (vz lo + vz hi) * 0.5\<bar> = (vz hi - vz lo) / 2"
  using assms by (auto simp add: corners_def field_simps)

lemma setFromPoints_ordered: "ordered (setFromPoints ps)"
  by (simp add: setFromPoints_def foldl_expand_ordered)

lemma setFromObject_ordered: "setFromObject m = WorldBox b \<Longrightarrow> ordered b"
  by (auto simp add: setFromObject_def setFromPoints_ordered split: box3.splits jsnum.splits)

subsection \<open>The asset script: a camera on the z axis of the box\<close>

lemma lookAtBasis_along_z:
  assumes "0 < d"
  shows "lookAtBasis (Vector3 cx cy (cz + d)) (Vector3 cx cy cz) =
           (Vector3 1 0 0, Vector3 0 1 0, Vector3 0 0 1)"
proof -
  have z0: "sub3 (Vector3 cx cy (cz + d)) (Vector3 cx cy cz) = Vector3 0 0 d"
    by (simp add: sub3_def)
  have dd: "dot3 (Vector3 0 0 d) (Vector3 0 0 d) = d * d"
    by (simp add: dot3_def)
  have nz: "d * d \<noteq> 0"
    using assms by simp
  have s: "sqrt (d * d) = d"
    using assms by simp
  have z1: "normalize3 (Vector3 0 0 d) = Vector3 0 0 1"
    using assms by (simp add: normalize3_def dd s Let_def)
  have x0: "cross3 (Vector3 0 1 0) (Vector3 0 0 1) = Vector3 1 0 0"
    by (simp add: cross3_def)
  have x1: "normalize3 (Vector3 1 0 0) = Vector3 1 0 0"
    by (simp add: normalize3_def dot3_def Let_def)
  have y: "cross3 (Vector3 0 0 1) (Vector3 1 0 0) = Vector3 0 1 0"
    by (simp add: cross3_def)
  have dx: "dot3 (Vector3 1 0 0) (Vector3 1 0 0) \<noteq> 0"
    by (simp add: dot3_def)
  show ?thesis
    unfolding lookAtBasis_def Let_def z0 dd
    using nz by (simp add: z1 x0 x1 y dx)
qed

lemma inFrustum_along_z:
  assumes "0 < d"
  shows "inFrustum f a n fr (Vector3 cx cy (cz + d)) (Vector3 cx cy cz) v =
           (n \<le> cz + d - vz v \<and> cz + d - vz v \<le> fr \<and>
            \<bar>vy v - cy\<bar> \<le> (cz + d - vz v) * tan (f * (pi / 180) / 2) \<and>
            \<bar>vx v - cx\<bar> \<le> (cz + d - vz v) * tan (f * (pi / 180) / 2) * a)"
  unfolding inFrustum_def lookAtBasis_along_z [OF assms]
  by (simp add: sub3_def dot3_def Let_def)

lemma asset_frustum_core:
  fixes md t a n fr px py pz d :: real
  assumes md: "0 < md" and t: "0 < t" "t \<le> 1 / 2" and a: "1 \<le> a"
    and n: "n \<le> md" and fr: "d + md / 2 \<le> fr"
    and p: "\<bar>px\<bar> \<le> md / 2" "\<bar>py\<bar> \<le> md / 2" "\<bar>pz\<bar> \<le> md / 2"
    and d: "0.75 * md / t \<le> d"
  shows "n \<le> d - pz \<and> d - pz \<le> fr \<and> \<bar>py\<bar> \<le> (d - pz) * t \<and> \<bar>px\<bar> \<le> (d - pz) * t * a"
proof -
  have dt: "0.75 * md \<le> d * t"
    using t d by (simp add: field_simps)
  have "md * t \<le> md * (1 / 2)"
    using md t by (intro mult_left_mono) simp_all
  then have "1.5 * md \<le> 0.75 * md / t"
    using t md by (simp add: field_simps)
  then have d_ge: "1.5 * md \<le> d"
    using d by simp
  have "\<bar>pz * t\<bar> \<le> (md / 2) * (1 / 2)"
    unfolding abs_mult using p(3) t by (intro mult_mono) simp_all
  then have pzt: "pz * t \<le> md / 4"
    by simp
  have depth_t: "md / 2 \<le> (d - pz) * t"
    using dt pzt by (simp add: algebra_simps)
  have c1: "n \<le> d - pz"
    using n d_ge p(3) by linarith
  have c2: "d - pz \<le> fr"
    using fr p(3) by linarith
  have c3: "\<bar>py\<bar> \<le> (d - pz) * t"
    using depth_t p(2) by linarith
  have "(d - pz) * t * 1 \<le> (d - pz) * t * a"
    using depth_t md a by (intro mult_left_mono) simp_all
  then have c4: "\<bar>px\<bar> \<le> (d - pz) * t * a"
    using depth_t p(1) by linarith
  show ?thesis
    using c1 c2 c3 c4 by simp
qed

lemma asset_corners_visible:
  assumes m: "currentModel s = Some m" and cam: "camera s = Some cam"
    and ctl: "controls s = Some ctl" and idle: "idle ctl"
    and lim: "minDistance ctl = Fin mn" "maxDistance ctl = Fin mx"
    and box: "setFromObject m = WorldBox (Box lo hi)"
    and md: "md = max (max (vx hi - vx lo) (vy hi - vy lo)) (vz hi - vz lo)" "0 < md"
    and fov: "0 < fov cam" "fov cam < 180" "tan (fov cam * (pi / 180) / 2) \<le> 1 / 2"
    and asp: "aspect cam = Fin a" "1 \<le> a"
    and dist: "0.75 * md / tan (fov cam * (pi / 180) / 2) \<le> mx"
    and planes: "near cam \<le> md"
      "max mn (0.75 * md / tan (fov cam * (pi / 180) / 2)) + md / 2 \<le> far cam"
  shows "\<exists>s'. fitCameraToModel s = Inr s' \<and> (\<forall>v \<in> set (corners lo hi). sees s' v)"
proof -
  define t where "t = tan (fov cam * (pi / 180) / 2)"
  define d where "d = 0.75 * md / t"
  define r where "r = max mn d"
  define c where "c = getCenter (Box lo hi)"
  have t: "0 < t" "t \<le> 1 / 2" and ct: "cos (fov cam * (pi / 180) / 2) \<noteq> 0"
    using fov_half_angle [OF fov(1,2)] fov(3) by (simp_all add: t_def)
  have dpos: "0 < d"
    using md(2) t(1) by (simp add: d_def)
  have rd: "d \<le> r" and rpos: "0 < r"
    using dpos by (simp_all add: r_def)
  have ord: "vx lo \<le> vx hi" "vy lo \<le> vy hi" "vz lo \<le> vz hi"
    using setFromObject_ordered [OF box] by simp_all
  have "asset_cameraZ (Fin md) (fov cam) = Fin (\<bar>md / 2 / t\<bar> * 1.5)"
    using asset_cameraZ_finite [OF ct, of md] t(1) by (simp add: t_def)
  also have "\<bar>md / 2 / t\<bar> * 1.5 = d"
    using md(2) t(1) by (simp add: d_def)
  finally have z: "asset_cameraZ (maxDim (world_getSize (setFromObject m))) (fov cam) = Fin d"
    by (simp add: box maxDim_def fin3_def md(1))
  have wc: "world_getCenter (setFromObject m) = fin3 c"
    by (simp add: box c_def)
  have "d \<le> mx"
    using dist by (simp add: d_def t_def)
  then have cl: "js_max (minDistance ctl) (js_min (maxDistance ctl) (Fin d)) = Fin r"
    by (simp add: lim r_def)
  define cam' where "cam' = cam\<lparr>position := fin3 (Vector3 (vx c) (vy c) (vz c + r)),
                                   lookAt := fin3 c\<rparr>"
  define s' where "s' = s\<lparr>camera := Some cam', controls := Some (ctl\<lparr>target := fin3 c\<rparr>)\<rparr>"
  have fit: "fitCameraToModel s = Inr s'"
    unfolding asset_fit_pose [OF m cam ctl idle z dpos wc cl]
    by (simp add: s'_def cam'_def)
  have sees: "sees s' v" if v: "v \<in> set (corners lo hi)" for v
  proof -
    have eye: "finite3 (position cam') = Some (Vector3 (vx c) (vy c) (vz c + r))"
      and tgt: "finite3 (lookAt cam') = Some (Vector3 (vx c) (vy c) (vz c))"
      by (simp_all add: cam'_def finite3_def fin3_def)
    have off: "\<bar>vx v - vx c\<bar> \<le> md / 2" "\<bar>vy v - vy c\<bar> \<le> md / 2" "\<bar>vz v - vz c\<bar> \<le> md / 2"
      using corner_offsets [OF v ord] by (simp_all add: c_def md(1))
    have fr: "r + md / 2 \<le> far cam"
      using planes(2) by (simp add: r_def d_def t_def)
    have dr: "0.75 * md / t \<le> r"
      using rd by (simp add: d_def)
    have flds: "fov cam' = fov cam" "near cam' = near cam" "far cam' = far cam"
      "fin_of (aspect cam') = Some a"
      by (simp_all add: cam'_def asp(1))
    from asset_frustum_core [OF md(2) t asp(2) planes(1) fr off dr]
    have "inFrustum (fov cam) a (near cam) (far cam)
            (Vector3 (vx c) (vy c) (vz c + r)) (Vector3 (vx c) (vy c) (vz c)) v"
      unfolding inFrustum_along_z [OF rpos] t_def [symmetric]
      by (simp add: algebra_simps)
    then have "cameraSees cam' v"
      unfolding cameraSees_def eye tgt flds by simp
    then show ?thesis
      by (simp add: sees_def s'_def)
  qed
  show ?thesis
    using fit sees by blast
qed

subsection \<open>The master logic: a camera on the diagonal\<close>

lemma sqrt249_bounds: "1.577 < sqrt 2.49" "sqrt 2.49 < 1.578"
proof -
  show "1.577 < sqrt 2.49"
    by (rule real_less_rsqrt) (simp add: power2_eq_square)
  show "sqrt 2.49 < 1.578"
    by (rule real_less_lsqrt) (simp_all add: power2_eq_square)
qed

lemma lookAtBasis_diagonal:
  assumes d: "0 < d" and n: "n = sqrt 2.49" and r2: "r2 = sqrt 2"
  shows "lookAtBasis (Vector3 d (d * 0.7) d) (Vector3 0 0 0) =
           (Vector3 (1 / r2) 0 (- 1 / r2),
            Vector3 (- 0.7 / (n * r2)) (2 / (n * r2)) (- 0.7 / (n * r2)),
            Vector3 (1 / n) (0.7 / n) (1 / n))"
proof -
  have npos: "0 < n"
    using sqrt249_bounds(1) by (simp add: n)
  have r2pos: "0 < r2"
    by (simp add: r2)
  have nn: "n * n = 2.49"
    by (simp add: n)
  have rr: "r2 * r2 = 2"
    by (simp add: r2)
  have z0: "sub3 (Vector3 d (d * 0.7) d) (Vector3 0 0 0) = Vector3 d (d * 0.7) d"
    by (simp add: sub3_def)
  have dz: "dot3 (Vector3 d (d * 0.7) d) (Vector3 d (d * 0.7) d) = (d * n) * (d * n)"
    using nn by (simp add: dot3_def algebra_simps)
  have dz0: "(d * n) * (d * n) \<noteq> 0"
    using d npos by simp
  have "0 < d * n"
    using d npos by simp
  then have sz: "sqrt ((d * n) * (d * n)) = d * n"
    unfolding real_sqrt_abs2 by (rule abs_of_pos)
  have z1: "normalize3 (Vector3 d (d * 0.7) d) = Vector3 (1 / n) (0.7 / n) (1 / n)"
    unfolding normalize3_def Let_def dz sz using d npos by simp
  have x0: "cross3 (Vector3 0 1 0) (Vector3 (1 / n) (0.7 / n) (1 / n)) = Vector3 (1 / n) 0 (- 1 / n)"
    by (simp add: cross3_def)
  have dx: "dot3 (Vector3 (1 / n) 0 (- 1 / n)) (Vector3 (1 / n) 0 (- 1 / n)) = (r2 / n) * (r2 / n)"
    using rr by (simp add: dot3_def field_simps)
  have dx0: "(r2 / n) * (r2 / n) \<noteq> 0"
    using npos r2pos by simp
  have "0 < r2 / n"
    using npos r2pos by simp
  then have sx: "sqrt ((r2 / n) * (r2 / n)) = r2 / n"
    unfolding real_sqrt_abs2 by (rule abs_of_pos)
  have x1: "normalize3 (Vector3 (1 / n) 0 (- 1 / n)) = Vector3 (1 / r2) 0 (- 1 / r2)"
    unfolding normalize3_def Let_def dx sx using npos r2pos by simp
  have y: "cross3 (Vector3 (1 / n) (0.7 / n) (1 / n)) (Vector3 (1 / r2) 0 (- 1 / r2)) =
      Vector3 (- 0.7 / (n * r2)) (2 / (n * r2)) (- 0.7 / (n * r2))"
    using npos r2pos by (simp add: cross3_def field_simps)
  show ?thesis
    unfolding lookAtBasis_def Let_def z0 dz if_not_P [OF dz0] z1 x0 dx if_not_P [OF dx0] x1 y
    by (rule refl)
qed

lemma inFrustum_diagonal:
  assumes d: "0 < d" and n: "n = sqrt 2.49" and r2: "r2 = sqrt 2"
  shows "inFrustum f a nr fr (Vector3 d (d * 0.7) d) (Vector3 0 0 0) v =
           (nr \<le> (2.49 * d - (vx v + 0.7 * vy v + vz v)) / n \<and>
            (2.49 * d - (vx v + 0.7 * vy v + vz v)) / n \<le> fr \<and>
            \<bar>- 0.7 * vx v + 2 * vy v - 0.7 * vz v\<bar> / (n * r2) \<le>
              (2.49 * d - (vx v + 0.7 * vy v + vz v)) / n * tan (f * (pi / 180) / 2) \<and>
            \<bar>vx v - vz v\<bar> / r2 \<le>
              (2.49 * d - (vx v + 0.7 * vy v + vz v)) / n * tan (f * (pi / 180) / 2) * a)"
proof -
  have npos: "0 < n"
    using sqrt249_bounds(1) by (simp add: n)
  have r2pos: "0 < r2"
    by (simp add: r2)
  define w where "w = sub3 v (Vector3 d (d * 0.7) d)"
  have w: "vx w = vx v - d" "vy w = vy v - d * 0.7" "vz w = vz v - d"
    by (simp_all add: w_def sub3_def)
  have depth: "- dot3 (Vector3 (1 / n) (0.7 / n) (1 / n)) w =
      (2.49 * d - (vx v + 0.7 * vy v + vz v)) / n"
    using npos by (simp add: dot3_def w field_simps)
  have up: "dot3 (Vector3 (- 0.7 / (n * r2)) (2 / (n * r2)) (- 0.7 / (n * r2))) w =
      (- 0.7 * vx v + 2 * vy v - 0.7 * vz v) / (n * r2)"
    using npos r2pos by (simp add: dot3_def w field_simps)
  have right: "dot3 (Vector3 (1 / r2) 0 (- 1 / r2)) w = (vx v - vz v) / r2"
    using r2pos by (simp add: dot3_def w field_simps)
  have a1: "\<bar>(- 0.7 * vx v + 2 * vy v - 0.7 * vz v) / (n * r2)\<bar> =
      \<bar>- 0.7 * vx v + 2 * vy v - 0.7 * vz v\<bar> / (n * r2)"
    using npos r2pos by (simp add: abs_mult)
  have a2: "\<bar>(vx v - vz v) / r2\<bar> = \<bar>vx v - vz v\<bar> / r2"
    using r2pos by simp
  show ?thesis
    unfolding inFrustum_def lookAtBasis_diagonal [OF d n r2] prod.case Let_def
      w_def [symmetric] depth up right a1 a2
    by (rule refl)
qed

lemma product_bound:
  fixes a b A B :: real
  assumes "\<bar>a\<bar> \<le> A" "\<bar>b\<bar> \<le> B"
  shows "a * b \<le> A * B" and "- (A * B) \<le> a * b"
proof -
  have "\<bar>a * b\<bar> \<le> A * B"
    unfolding abs_mult using assms by (intro mult_mono) simp_all
  then show "a * b \<le> A * B" and "- (A * B) \<le> a * b"
    by simp_all
qed

lemma master_frustum_core:
  fixes r t a d n r2 px py pz nr fr :: real
  assumes r: "0 < r" and t: "0 < t" "t \<le> 1 / 2" and a: "0 < a"
    and d: "d = 1.5 * (2 * r) / ((if 1 < a then 2 else 2 * a) * t)"
    and n: "1.577 < n" "n < 1.578" and r2: "1.4142 < r2" "r2 < 1.4143"
    and p: "\<bar>px\<bar> \<le> r" "\<bar>py\<bar> \<le> r" "\<bar>pz\<bar> \<le> r"
    and nr: "nr \<le> 2 * r" and fr: "2.2 * d \<le> fr"
  shows "nr \<le> (2.49 * d - (px + 0.7 * py + pz)) / n"
    and "(2.49 * d - (px + 0.7 * py + pz)) / n \<le> fr"
    and "\<bar>- 0.7 * px + 2 * py - 0.7 * pz\<bar> / (n * r2) \<le>
           (2.49 * d - (px + 0.7 * py + pz)) / n * t"
    and "\<bar>px - pz\<bar> / r2 \<le> (2.49 * d - (px + 0.7 * py + pz)) / n * t * a"
proof -
  have n: "1577 / 1000 < n" "n < 1578 / 1000"
    using n by simp_all
  have r2: "14142 / 10000 < r2" "r2 < 14143 / 10000"
    using r2 by simp_all
  have fr: "22 / 10 * d \<le> fr"
    using fr by simp
  have d: "d = 15 / 10 * (2 * r) / ((if 1 < a then 2 else 2 * a) * t)"
    using d by simp
  define S where "S = px + (7 / 10) * py + pz"
  define D where "D = (249 / 100) * d - S"
  have npos: "0 < n" and r2pos: "0 < r2"
    using n r2 by simp_all
  have S: "\<bar>S\<bar> \<le> (27 / 10) * r"
    using p unfolding S_def by linarith
  have dta: "d * t * a = (if 1 < a then (15 / 10) * r * a else (15 / 10) * r)"
    using t a by (simp add: d)
  have dt: "d * t = (if 1 < a then (15 / 10) * r else (15 / 10) * r / a)"
    using t a by (simp add: d)
  have dt_ge: "(15 / 10) * r \<le> d * t"
  proof (cases "1 < a")
    case True
    then show ?thesis
      by (simp add: dt)
  next
    case False
    then have "r \<le> r / a"
      using a r by (simp add: field_simps)
    then show ?thesis
      using False by (simp add: dt)
  qed
  have dta_ge: "(15 / 10) * r \<le> d * t * a"
  proof (cases "1 < a")
    case True
    have "r * 1 \<le> r * a"
      by (rule mult_left_mono) (use True r in simp_all)
    then show ?thesis
      using True by (simp add: dta)
  next
    case False
    then show ?thesis
      by (simp add: dta)
  qed
  have dpos: "0 < d"
    using r t a by (simp add: d)
  have "d * t \<le> d * (1 / 2)"
    by (rule mult_left_mono) (use dpos t in simp_all)
  then have d_ge: "3 * r \<le> d"
    using dt_ge by simp
  have D_ge: "(477 / 100) * r \<le> D"
    using d_ge S unfolding D_def by linarith
  have D_le: "D \<le> (339 / 100) * d"
    using d_ge S unfolding D_def by linarith
  have rn: "r * n \<le> r * (1578 / 1000)"
    by (rule mult_left_mono) (use r n in simp_all)
  have dn: "d * (1577 / 1000) \<le> d * n"
    by (rule mult_left_mono) (use dpos n in simp_all)
  have "nr * n \<le> (2 * r) * n"
    by (rule mult_right_mono) (use nr npos in simp_all)
  then have "nr * n \<le> D"
    using rn D_ge r by linarith
  then show "nr \<le> (2.49 * d - (px + 0.7 * py + pz)) / n"
    using npos by (simp add: D_def S_def pos_le_divide_eq)
  have "((22 / 10) * d) * n \<le> fr * n"
    by (rule mult_right_mono) (use fr npos in simp_all)
  then have "D \<le> fr * n"
    using dn D_le dpos by linarith
  then show "(2.49 * d - (px + 0.7 * py + pz)) / n \<le> fr"
    using npos by (simp add: D_def S_def pos_divide_le_eq)
  define q where "q = t * r2"
  have q: "0 < q" "q \<le> (70715 / 100000)"
  proof -
    show "0 < q"
      using t r2pos by (simp add: q_def)
    have "t * r2 \<le> (1 / 2) * (14143 / 10000)"
      by (rule mult_mono) (use t r2 in simp_all)
    then show "q \<le> (70715 / 100000)"
      by (simp add: q_def)
  qed
  have dtr2: "(15 / 10) * r * (14142 / 10000) \<le> (d * t) * r2"
    by (rule mult_mono) (use dt_ge r2 r in simp_all)
  have Dq: "D * t * r2 = (249 / 100) * ((d * t) * r2) - S * q"
    by (simp add: D_def q_def algebra_simps)
  have Yp: "(- (7 / 10) * px + 2 * py - (7 / 10) * pz) + S * q =
      (q - (7 / 10)) * px + (2 + (7 / 10) * q) * py + (q - (7 / 10)) * pz"
    by (simp add: S_def algebra_simps)
  have Ym: "- (- (7 / 10) * px + 2 * py - (7 / 10) * pz) + S * q =
      (q + (7 / 10)) * px + ((7 / 10) * q - 2) * py + (q + (7 / 10)) * pz"
    by (simp add: S_def algebra_simps)
  have b1: "\<bar>q - (7 / 10)\<bar> \<le> (7 / 10)"
    using q by linarith
  have b2: "\<bar>2 + (7 / 10) * q\<bar> \<le> (25 / 10)"
    using q by linarith
  have b3: "\<bar>q + (7 / 10)\<bar> \<le> (141 / 100)"
    using q by linarith
  have b4: "\<bar>(7 / 10) * q - 2\<bar> \<le> 2"
    using q by linarith
  have "(- (7 / 10) * px + 2 * py - (7 / 10) * pz) + S * q \<le> (7 / 10) * r + (25 / 10) * r + (7 / 10) * r"
    unfolding Yp
    using product_bound(1) [OF b1 p(1)] product_bound(1) [OF b2 p(2)] product_bound(1) [OF b1 p(3)]
    by linarith
  moreover have "- (- (7 / 10) * px + 2 * py - (7 / 10) * pz) + S * q \<le> (141 / 100) * r + 2 * r + (141 / 100) * r"
    unfolding Ym
    using product_bound(1) [OF b3 p(1)] product_bound(1) [OF b4 p(2)] product_bound(1) [OF b3 p(3)]
    by linarith
  ultimately have "\<bar>- (7 / 10) * px + 2 * py - (7 / 10) * pz\<bar> \<le> D * t * r2"
    unfolding Dq using dtr2 r by linarith
  then have "\<bar>- (7 / 10) * px + 2 * py - (7 / 10) * pz\<bar> / (n * r2) \<le> (D * t * r2) / (n * r2)"
    by (rule divide_right_mono) (use npos r2pos in simp_all)
  also have "(D * t * r2) / (n * r2) = D / n * t"
    using npos r2pos by simp
  finally show "\<bar>- 0.7 * px + 2 * py - 0.7 * pz\<bar> / (n * r2) \<le>
           (2.49 * d - (px + 0.7 * py + pz)) / n * t"
    by (simp add: D_def S_def)
  have Dta: "(2385 / 1000) * r \<le> D * t * a"
  proof (cases "1 < a")
    case True
    have "S * t \<le> ((27 / 10) * r) * (1 / 2)"
      using product_bound(1) [OF S, of t "1 / 2"] t by simp
    moreover have "D * t = (249 / 100) * (d * t) - S * t"
      by (simp add: D_def algebra_simps)
    ultimately have "(2385 / 1000) * r \<le> D * t"
      using dt True by simp
    moreover have "((2385 / 1000) * r) * 1 \<le> ((2385 / 1000) * r) * a"
      by (rule mult_left_mono) (use True r in simp_all)
    moreover have "((2385 / 1000) * r) * a \<le> (D * t) * a"
      by (rule mult_right_mono) (use \<open>(2385 / 1000) * r \<le> D * t\<close> a in simp_all)
    ultimately show ?thesis
      by linarith
  next
    case False
    have "\<bar>t * a\<bar> \<le> 1 / 2"
    proof -
      have "t * a \<le> (1 / 2) * 1"
        by (rule mult_mono) (use t a False in simp_all)
      then show ?thesis
        using t a by simp
    qed
    then have "S * (t * a) \<le> ((27 / 10) * r) * (1 / 2)"
      by (rule product_bound(1) [OF S])
    moreover have "D * t * a = (249 / 100) * (d * t * a) - S * (t * a)"
      by (simp add: D_def algebra_simps)
    moreover have "d * t * a = (15 / 10) * r"
      using dta False by simp
    ultimately show ?thesis
      by linarith
  qed
  have "\<bar>px - pz\<bar> * n \<le> (2 * r) * (1578 / 1000)"
    by (rule mult_mono) (use p n in simp_all)
  moreover have "((2385 / 1000) * r) * (14142 / 10000) \<le> (D * t * a) * r2"
    by (rule mult_mono) (use Dta r2 r in simp_all)
  ultimately have "\<bar>px - pz\<bar> * n \<le> (D * t * a) * r2"
    using r by linarith
  then have "\<bar>px - pz\<bar> * n / (n * r2) \<le> (D * t * a) * r2 / (n * r2)"
    by (rule divide_right_mono) (use npos r2pos in simp_all)
  then have "\<bar>px - pz\<bar> / r2 \<le> D / n * t * a"
    using npos r2pos by simp
  then show "\<bar>px - pz\<bar> / r2 \<le> (2.49 * d - (px + 0.7 * py + pz)) / n * t * a"
    by (simp add: D_def S_def)
qed

lemma master_corners_visible:
  assumes cam: "camera s = Some cam" and ctl: "controls s = Some ctl"
    and rnd: "renderer s = Some rnd"
    and idle: "idle ctl" and lim: "minDistance ctl = Fin 0" "maxDistance ctl = PInf"
    and box: "setFromObject m = WorldBox (Box lo hi)"
    and centre: "getCenter (Box lo hi) = Vector3 0 0 0"
    and md: "md = max (max (vx hi - vx lo) (vy hi - vy lo)) (vz hi - vz lo)" "0 < md"
    and fov: "0 < fov cam" "fov cam < 180" "tan (fov cam * (pi / 180) / 2) \<le> 1 / 2"
    and cv: "clientWidth (canvas s) \<noteq> 0" "clientHeight (canvas s) \<noteq> 0"
      "a = real (clientWidth (canvas s)) / real (clientHeight (canvas s))"
    and asp: "aspect cam = Fin a"
    and sd: "spec_distance (Fin md) (fov cam) (Fin a) = Fin d"
    and planes: "near cam \<le> md" "2.2 * d \<le> far cam"
  shows "\<forall>v \<in> set (corners lo hi). sees (master_fitCameraToModel (Some m) s) v"
proof
  fix v
  assume v: "v \<in> set (corners lo hi)"
  define t where "t = tan (fov cam * (pi / 180) / 2)"
  define r where "r = md / 2"
  have t: "0 < t" "t \<le> 1 / 2" and ct: "cos (fov cam * (pi / 180) / 2) \<noteq> 0"
    using fov_half_angle [OF fov(1,2)] fov(3) by (simp_all add: t_def)
  have r: "0 < r"
    using md(2) by (simp add: r_def)
  have a: "0 < a"
    using cv by simp
  have asp_js: "js_div (Fin (real (clientWidth (canvas s)))) (Fin (real (clientHeight (canvas s)))) = Fin a"
    using cv by simp
  have mz: "master_cameraZ (Fin md) (fov cam) (Fin a) =
      Fin (\<bar>md / (if 1 < a then 2 else 2 * a) / t\<bar> * 1.5)"
    using master_cameraZ_finite [OF a ct, of md] t(1) by (simp add: t_def)
  have d_def: "d = 1.5 * (2 * r) / ((if 1 < a then 2 else 2 * a) * t)"
  proof -
    have "Fin d = Fin (\<bar>md / (if 1 < a then 2 else 2 * a) / t\<bar> * 1.5)"
      using sd mz by (simp only: spec_distance_code [symmetric])
    then have "d = \<bar>md / (if 1 < a then 2 else 2 * a) / t\<bar> * 1.5"
      by simp
    also have "\<dots> = 1.5 * (2 * r) / ((if 1 < a then 2 else 2 * a) * t)"
      using md(2) t(1) a by (simp add: r_def)
    finally show ?thesis .
  qed
  have dpos: "0 < d"
    using r t a by (simp add: d_def)
  have cz: "master_cameraZ (maxDim (world_getSize (setFromObject m))) (fov cam)
      (js_div (Fin (real (clientWidth (canvas s)))) (Fin (real (clientHeight (canvas s))))) = Fin d"
    unfolding asp_js using sd
    by (simp add: box maxDim_def fin3_def md(1) spec_distance_code)
  define cam' where "cam' = cam\<lparr>position := fin3 (Vector3 d (d * 0.7) d),
                                   lookAt := fin3 (Vector3 0 0 0)\<rparr>"
  have wc: "world_getCenter (setFromObject m) = fin3 (Vector3 0 0 0)"
    unfolding box world_getCenter.simps centre ..
  have aw: "awayFromPoles (sub3 (Vector3 d (d * 0.7) d) (Vector3 0 0 0))"
    using awayFromPoles_diagonal [of d] by (simp add: sub3_def)
  have fit: "camera (master_fitCameraToModel (Some m) s) = Some cam'"
    unfolding master_fit_pose [OF cam ctl rnd cv(1) idle lim cz wc aw]
    by (simp add: cam'_def)
  have eye: "finite3 (position cam') = Some (Vector3 d (d * 0.7) d)"
    and tgt: "finite3 (lookAt cam') = Some (Vector3 0 0 0)"
    by (simp_all add: cam'_def finite3_fin3)
  have flds: "fov cam' = fov cam" "near cam' = near cam" "far cam' = far cam"
    "fin_of (aspect cam') = Some a"
    by (simp_all add: cam'_def asp)
  have ord: "vx lo \<le> vx hi" "vy lo \<le> vy hi" "vz lo \<le> vz hi"
    using setFromObject_ordered [OF box] by simp_all
  have c0: "(vx lo + vx hi) * 0.5 = 0" "(vy lo + vy hi) * 0.5 = 0" "(vz lo + vz hi) * 0.5 = 0"
    using centre by simp_all
  have off: "\<bar>vx v\<bar> \<le> r" "\<bar>vy v\<bar> \<le> r" "\<bar>vz v\<bar> \<le> r"
    using corner_offsets [OF v ord] unfolding c0 by (simp_all add: r_def md(1))
  have nr: "near cam \<le> 2 * r"
    using planes(1) by (simp add: r_def)
  have fr: "2.2 * d \<le> far cam"
    by (rule planes(2))
  note core = master_frustum_core [OF r t a d_def sqrt249_bounds sqrt2_bounds off nr fr]
  have "inFrustum (fov cam) a (near cam) (far cam) (Vector3 d (d * 0.7) d) (Vector3 0 0 0) v"
    unfolding inFrustum_diagonal [OF dpos refl refl] t_def [symmetric]
    using core by simp
  then have "cameraSees cam' v"
    unfolding cameraSees_def eye tgt flds by simp
  then show "sees (master_fitCameraToModel (Some m) s) v"
    by (simp add: sees_def fit)
qed

lemma tan_pi_8_le_half: "tan (pi / 8) \<le> 1 / 2"
  using sqrt2_bounds(2) by (simp add: tan_pi_8)

lemma spec_distance_scenario:
  "spec_distance (Fin 10) 45 (Fin (4 / 3)) = Fin (10 / 2 / tan (22.5 * pi / 180) * 1.5)"
  using master_cameraZ_scenario by (simp only: spec_distance_code)

text \<open>
  C2, as the code has it. Take a model with a finite world box of largest side
  \<open>md > 0\<close>, a field of view \<open>f\<close> with \<open>tan (f / 2) \<le> 1 / 2\<close> (up to about 53
  degrees; the two scripts use 45 and 50), a near plane not beyond \<open>md\<close>, and controls
  at rest. After the fit of the master logic every corner of the box is inside the
  view frustum when the controls do not limit the distance, the box is centred at the
  origin, the aspect ratio of the camera is the one of the canvas, and the far plane
  is at least 2.2 times the distance of the specification away. After the fit of the
  asset script every corner is inside when the aspect ratio of the camera is at least
  \<open>1\<close>, the distance \<open>0.75 md / tan (f / 2)\<close> that the script computes is not beyond
  the largest distance \<open>mx\<close> that the controls allow, and the far plane is beyond the
  distance at which the controls leave the camera plus \<open>md / 2\<close>.
\<close>

theorem fit_frames_box:
  assumes cam: "camera s = Some cam" and ctl: "controls s = Some ctl" and idle: "idle ctl"
    and box: "setFromObject m = WorldBox (Box lo hi)"
    and md: "md = max (max (vx hi - vx lo) (vy hi - vy lo)) (vz hi - vz lo)" "0 < md"
    and fov: "0 < fov cam" "fov cam < 180" "tan (fov cam * (pi / 180) / 2) \<le> 1 / 2"
    and asp: "aspect cam = Fin a"
    and nr: "near cam \<le> md"
  shows "(renderer s \<noteq> None \<and> minDistance ctl = Fin 0 \<and> maxDistance ctl = PInf \<and>
          getCenter (Box lo hi) = Vector3 0 0 0 \<and>
          clientWidth (canvas s) \<noteq> 0 \<and> clientHeight (canvas s) \<noteq> 0 \<and>
          a = real (clientWidth (canvas s)) / real (clientHeight (canvas s)) \<and>
          spec_distance (Fin md) (fov cam) (Fin a) = Fin d \<and> 2.2 * d \<le> far cam \<longrightarrow>
            (\<forall>v \<in> set (corners lo hi). sees (master_fitCameraToModel (Some m) s) v)) \<and>
         (currentModel s = Some m \<and> 1 \<le> a \<and>
          minDistance ctl = Fin mn \<and> maxDistance ctl = Fin mx \<and>
          0.75 * md / tan (fov cam * (pi / 180) / 2) \<le> mx \<and>
          max mn (0.75 * md / tan (fov cam * (pi / 180) / 2)) + md / 2 \<le> far cam \<longrightarrow>
            (\<exists>s'. fitCameraToModel s = Inr s' \<and> (\<forall>v \<in> set (corners lo hi). sees s' v)))"
proof (intro conjI impI)
  assume h: "renderer s \<noteq> None \<and> minDistance ctl = Fin 0 \<and> maxDistance ctl = PInf \<and>
          getCenter (Box lo hi) = Vector3 0 0 0 \<and>
          clientWidth (canvas s) \<noteq> 0 \<and> clientHeight (canvas s) \<noteq> 0 \<and>
          a = real (clientWidth (canvas s)) / real (clientHeight (canvas s)) \<and>
          spec_distance (Fin md) (fov cam) (Fin a) = Fin d \<and> 2.2 * d \<le> far cam"
  then obtain rnd where rnd: "renderer s = Some rnd"
    by auto
  from h have lim: "minDistance ctl = Fin 0" "maxDistance ctl = PInf"
    and c: "getCenter (Box lo hi) = Vector3 0 0 0"
    and cv: "clientWidth (canvas s) \<noteq> 0" "clientHeight (canvas s) \<noteq> 0"
      "a = real (clientWidth (canvas s)) / real (clientHeight (canvas s))"
    and sd: "spec_distance (Fin md) (fov cam) (Fin a) = Fin d"
    and fr: "2.2 * d \<le> far cam"
    by blast+
  show "\<forall>v \<in> set (corners lo hi). sees (master_fitCameraToModel (Some m) s) v"
    by (rule master_corners_visible [OF cam ctl rnd idle lim box c md fov cv asp sd nr fr])
next
  assume h: "currentModel s = Some m \<and> 1 \<le> a \<and>
          minDistance ctl = Fin mn \<and> maxDistance ctl = Fin mx \<and>
          0.75 * md / tan (fov cam * (pi / 180) / 2) \<le> mx \<and>
          max mn (0.75 * md / tan (fov cam * (pi / 180) / 2)) + md / 2 \<le> far cam"
  then have m: "currentModel s = Some m" and a: "1 \<le> a"
    and lim: "minDistance ctl = Fin mn" "maxDistance ctl = Fin mx"
    and dist: "0.75 * md / tan (fov cam * (pi / 180) / 2) \<le> mx"
    and fr: "max mn (0.75 * md / tan (fov cam * (pi / 180) / 2)) + md / 2 \<le> far cam"
    by blast+
  show "\<exists>s'. fitCameraToModel s = Inr s' \<and> (\<forall>v \<in> set (corners lo hi). sees s' v)"
    by (rule asset_corners_visible [OF m cam ctl idle lim box md fov asp a dist nr fr])
qed

theorem fit_frames_box_witness:
  "sees (master_fitCameraToModel (Some (cube 5)) panned_wide) (Vector3 5 5 5) \<and>
   sees (master_fitCameraToModel (Some (cube 5)) panned_wide) (Vector3 (- 5) (- 5) (- 5)) \<and>
   (\<exists>s'. fitCameraToModel scenario_viewer = Inr s' \<and>
         sees s' (Vector3 5 5 5) \<and> sees s' (Vector3 (- 5) (- 5) (- 5)))"
proof -
  define D :: real where "D = 10 / 2 / tan (22.5 * pi / 180) * 1.5"
  define cam where
    "cam = \<lparr>fov = 45, aspect = Fin (4 / 3), near = 0.1, far = 1000,
            position = Vector3 (Fin 210) (Fin 150) (Fin 200),
            lookAt = Vector3 (Fin 10) (Fin 0) (Fin 0)\<rparr>"
  define ctl where
    "ctl = OrbitControls\<lparr>target := Vector3 (Fin 10) (Fin 0) (Fin 0), enableDamping := True\<rparr>"
  define cam' where
    "cam' = \<lparr>fov = 45, aspect = Fin (4 / 3), near = 0.1, far = 1000,
             position = Vector3 (Fin 10) (Fin 0) (Fin 150),
             lookAt = Vector3 (Fin 10) (Fin 0) (Fin 0)\<rparr>"
  define ctl' where
    "ctl' = OrbitControls\<lparr>target := Vector3 (Fin 10) (Fin 0) (Fin 0),
                           enableDamping := True, dampingFactor := 0.05,
                           minDistance := Fin 50, maxDistance := Fin 500\<rparr>"
  have i: "idle ctl" "idle ctl'"
    by (simp_all add: ctl_def ctl'_def idle_def OrbitControls_def)
  have f': "camera scenario_viewer = Some cam'" "controls scenario_viewer = Some ctl'"
    "currentModel scenario_viewer = Some (cube 5)"
    by (simp_all add: scenario_viewer_def cam'_def ctl'_def)
  have b: "setFromObject (cube 5) = WorldBox (Box (Vector3 (- 5) (- 5) (- 5)) (Vector3 5 5 5))"
    using cube_box [of 5] by simp
  have md: "(10::real) = max (max (vx (Vector3 5 5 (5::real)) - vx (Vector3 (- 5) (- 5) (- 5 :: real)))
                                 (vy (Vector3 5 5 (5::real)) - vy (Vector3 (- 5) (- 5) (- 5 :: real))))
                            (vz (Vector3 5 5 (5::real)) - vz (Vector3 (- 5) (- 5) (- 5 :: real)))"
    "0 < (10::real)"
    by simp_all
  have f: "0 < fov cam" "fov cam < 180" "tan (fov cam * (pi / 180) / 2) \<le> 1 / 2"
    using tan_pi_8_le_half by (simp_all add: cam_def half_45)
  have fa: "0 < fov cam'" "fov cam' < 180" "tan (fov cam' * (pi / 180) / 2) \<le> 1 / 2"
    using tan_pi_8_le_half by (simp_all add: cam'_def half_45)
  have a: "aspect cam = Fin (4 / 3)" "aspect cam' = Fin (4 / 3)"
    by (simp_all add: cam_def cam'_def)
  have nr: "near cam \<le> 10" "near cam' \<le> 10"
    by (simp_all add: cam_def cam'_def)
  note th = fit_frames_box [OF panned_wide_fields(1,2) [folded cam_def ctl_def] i(1) b md f a(1) nr(1),
      where d = D]
  note th' = fit_frames_box [OF f'(1,2) i(2) b md fa a(2) nr(2), where mn = 50 and mx = 500]
  have g1: "renderer panned_wide \<noteq> None \<and> minDistance ctl = Fin 0 \<and> maxDistance ctl = PInf \<and>
      getCenter (Box (Vector3 (- 5) (- 5) (- 5)) (Vector3 5 5 5)) = Vector3 0 0 0 \<and>
      clientWidth (canvas panned_wide) \<noteq> 0 \<and> clientHeight (canvas panned_wide) \<noteq> 0 \<and>
      4 / 3 = real (clientWidth (canvas panned_wide)) / real (clientHeight (canvas panned_wide)) \<and>
      spec_distance (Fin 10) (fov cam) (Fin (4 / 3)) = Fin D \<and> 2.2 * D \<le> far cam"
  proof (intro conjI)
    show "renderer panned_wide \<noteq> None" "clientWidth (canvas panned_wide) \<noteq> 0"
      "clientHeight (canvas panned_wide) \<noteq> 0"
      "4 / 3 = real (clientWidth (canvas panned_wide)) / real (clientHeight (canvas panned_wide))"
      by (simp_all add: panned_wide_fields)
    show "minDistance ctl = Fin 0" "maxDistance ctl = PInf"
      by (simp_all add: ctl_def OrbitControls_def)
    show "getCenter (Box (Vector3 (- 5) (- 5) (- 5)) (Vector3 5 5 5)) = Vector3 0 0 0"
      by simp
    show "spec_distance (Fin 10) (fov cam) (Fin (4 / 3)) = Fin D"
      using spec_distance_scenario by (simp add: cam_def D_def)
    show "2.2 * D \<le> far cam"
      using scenario_distance(2) by (simp add: cam_def D_def)
  qed
  have e: "0.75 * 10 / tan (fov cam' * (pi / 180) / 2) = D"
    by (simp add: cam'_def D_def)
  have g2: "currentModel scenario_viewer = Some (cube 5) \<and> 1 \<le> (4 / 3 :: real) \<and>
      minDistance ctl' = Fin 50 \<and> maxDistance ctl' = Fin 500 \<and>
      0.75 * 10 / tan (fov cam' * (pi / 180) / 2) \<le> 500 \<and>
      max 50 (0.75 * 10 / tan (fov cam' * (pi / 180) / 2)) + 10 / 2 \<le> far cam'"
    unfolding e
  proof (intro conjI)
    show "currentModel scenario_viewer = Some (cube 5)"
      by (rule f'(3))
    show "1 \<le> (4 / 3 :: real)"
      by simp
    show "minDistance ctl' = Fin 50" "maxDistance ctl' = Fin 500"
      by (simp_all add: ctl'_def OrbitControls_def)
    show "D \<le> 500"
      using scenario_distance(2) by (simp add: D_def)
    show "max 50 D + 10 / 2 \<le> far cam'"
      using scenario_distance(2) by (simp add: cam'_def D_def)
  qed
  from th [THEN conjunct1, THEN mp, OF g1] th' [THEN conjunct2, THEN mp, OF g2]
  show ?thesis
    by (auto simp add: corners_def)
qed

text \<open>
  C2 as stated fails. The asset script does not look at the aspect ratio: on a canvas
  of 400 by 600 pixels, with the cube of edge 100 that the STL path produces and the
  50 degrees of \<open>setupViewer\<close>, the corner \<open>(50, 50, 50)\<close> of the bounding box lies
  outside the frustum, to the right of it.
\<close>

theorem portrait_fit_cuts_corner:
  "fitCameraToModel zoomed_resized = Inr zoomed_fitted \<and>
   setFromObject (cube 50) = WorldBox (Box (Vector3 (- 50) (- 50) (- 50)) (Vector3 50 50 50)) \<and>
   Vector3 50 50 50 \<in> set (corners (Vector3 (- 50) (- 50) (- 50)) (Vector3 50 50 50)) \<and>
   \<not> sees zoomed_fitted (Vector3 50 50 50)"
proof (intro conjI)
  define t where "t = tan (5 * pi / 36)"
  have t: "0 < t"
    using tan_25_pos by (simp add: t_def)
  show "fitCameraToModel zoomed_resized = Inr zoomed_fitted"
    unfolding fit_zoomed_resized by (simp add: zoomed_resized_def zoomed_fitted_def)
  show "setFromObject (cube 50) = WorldBox (Box (Vector3 (- 50) (- 50) (- 50)) (Vector3 50 50 50))"
    using cube_box [of 50] by simp
  show "Vector3 50 50 50 \<in> set (corners (Vector3 (- 50) (- 50) (- 50)) (Vector3 50 50 50))"
    by (simp add: corners_def)
  have d: "0 < 75 / t"
    using t by simp
  have "(75 / t - 50) * t * (2 / 3) < 50"
    using t by (simp add: field_simps)
  then have "\<not> inFrustum 50 (2 / 3) 0.1 1000 (Vector3 0 0 (0 + 75 / t)) (Vector3 0 0 0)
                  (Vector3 50 50 50)"
    unfolding inFrustum_along_z [OF d] half_50 t_def [symmetric] by simp
  then show "\<not> sees zoomed_fitted (Vector3 50 50 50)"
    by (simp add: sees_def zoomed_fitted_def cameraSees_def finite3_def origin_def t_def)
qed

section \<open>Rounding to doubles and singles\<close>

lemma powr_powi: "(2::real) powr real_of_int k = 2 powi k"
  by (simp add: powr_real_of_int power_int_def power_one_over inverse_eq_divide)

lemma exponent_bounds:
  fixes x :: real
  assumes "x \<noteq> 0"
  shows "2 powi \<lfloor>log 2 \<bar>x\<bar>\<rfloor> \<le> \<bar>x\<bar>" and "\<bar>x\<bar> < 2 powi (\<lfloor>log 2 \<bar>x\<bar>\<rfloor> + 1)"
proof -
  have "0 < \<bar>x\<bar>"
    using assms by simp
  then have "2 powr real_of_int \<lfloor>log 2 \<bar>x\<bar>\<rfloor> \<le> \<bar>x\<bar> \<and>
      \<bar>x\<bar> < 2 powr real_of_int (\<lfloor>log 2 \<bar>x\<bar>\<rfloor> + 1)"
    using floor_log_eq_powr_iff [of "\<bar>x\<bar>" 2 "\<lfloor>log 2 \<bar>x\<bar>\<rfloor>"] by simp
  then show "2 powi \<lfloor>log 2 \<bar>x\<bar>\<rfloor> \<le> \<bar>x\<bar>" and "\<bar>x\<bar> < 2 powi (\<lfloor>log 2 \<bar>x\<bar>\<rfloor> + 1)"
    by (simp_all only: powr_powi)
qed

lemma exponent_eq:
  fixes x :: real
  assumes "2 powi k \<le> \<bar>x\<bar>" "\<bar>x\<bar> < 2 powi (k + 1)"
  shows "\<lfloor>log 2 \<bar>x\<bar>\<rfloor> = k"
proof -
  have "0 < (2::real) powi k"
    by simp
  then have "0 < \<bar>x\<bar>"
    using assms(1) by linarith
  moreover have "2 powr real_of_int k \<le> \<bar>x\<bar> \<and> \<bar>x\<bar> < 2 powr real_of_int (k + 1)"
    using assms by (simp only: powr_powi)
  ultimately show ?thesis
    using floor_log_eq_powr_iff [of "\<bar>x\<bar>" 2 k] by simp
qed

lemma roundTiesToEven_error: "\<bar>of_int (roundTiesToEven x) - x\<bar> \<le> 1 / 2"
proof -
  have "0 \<le> x - of_int \<lfloor>x\<rfloor>" "x - of_int \<lfloor>x\<rfloor> < 1"
    by linarith+
  then show ?thesis
    by (auto simp add: roundTiesToEven_def Let_def)
qed

lemma roundTiesToEven_int: "roundTiesToEven (of_int n) = n"
  by (simp add: roundTiesToEven_def)

lemma binary_round_eval:
  assumes "2 powi k \<le> \<bar>x\<bar>" "\<bar>x\<bar> < 2 powi (k + 1)"
  shows "binary_round p x =
           of_int (roundTiesToEven (x / 2 powi (k - int p))) * 2 powi (k - int p)"
proof -
  have "0 < (2::real) powi k"
    by simp
  then have "0 < \<bar>x\<bar>"
    using assms(1) by linarith
  then have "x \<noteq> 0"
    by simp
  then show ?thesis
    by (simp add: binary_round_def exponent_eq [OF assms] Let_def)
qed

lemma binary_round_error: "\<bar>binary_round p x - x\<bar> \<le> \<bar>x\<bar> / 2 ^ (p + 1)"
proof (cases "x = 0")
  case True
  then show ?thesis
    by (simp add: binary_round_def)
next
  case False
  define k where "k = \<lfloor>log 2 \<bar>x\<bar>\<rfloor>"
  define e where "e = k - int p"
  define y where "y = x / 2 powi e"
  have b: "2 powi k \<le> \<bar>x\<bar>"
    unfolding k_def by (rule exponent_bounds(1) [OF False])
  have pe: "0 < (2::real) powi e"
    by simp
  have xy: "x = y * 2 powi e"
    by (simp add: y_def)
  have br: "binary_round p x = of_int (roundTiesToEven y) * 2 powi e"
    using False by (simp add: binary_round_def Let_def k_def e_def y_def)
  have "binary_round p x - x = of_int (roundTiesToEven y) * 2 powi e - y * 2 powi e"
    using br xy by simp
  then have "binary_round p x - x = (of_int (roundTiesToEven y) - y) * 2 powi e"
    by (simp only: left_diff_distrib)
  then have "\<bar>binary_round p x - x\<bar> = \<bar>of_int (roundTiesToEven y) - y\<bar> * 2 powi e"
    using pe by (simp add: abs_mult)
  also have "\<dots> \<le> 1 / 2 * 2 powi e"
    using roundTiesToEven_error [of y] pe by (intro mult_right_mono) simp_all
  finally have 1: "\<bar>binary_round p x - x\<bar> \<le> 2 powi e / 2"
    by simp
  have "(2::real) powi k = 2 powi e * 2 ^ p"
    by (simp add: e_def power_int_diff)
  then have "2 powi e * 2 ^ p \<le> \<bar>x\<bar>"
    using b by simp
  then have "2 powi e \<le> \<bar>x\<bar> / 2 ^ p"
    by (simp add: field_simps)
  then have "2 powi e / 2 \<le> \<bar>x\<bar> / 2 ^ p / 2"
    by simp
  then show ?thesis
    using 1 by simp
qed

lemma double_error: "\<bar>double x - x\<bar> \<le> \<bar>x\<bar> / 2 ^ 53"
  using binary_round_error [of 52 x] by (simp add: double_def)

lemma binary_round_numeral:
  assumes "2 powi k \<le> \<bar>x\<bar>" "\<bar>x\<bar> < 2 powi (k + 1)"
    and "x / 2 powi (k - int p) = of_int n"
  shows "binary_round p x = x"
proof -
  have "binary_round p x = of_int n * 2 powi (k - int p)"
    unfolding binary_round_eval [OF assms(1,2)] assms(3) roundTiesToEven_int ..
  also have "\<dots> = x"
    unfolding assms(3) [symmetric] by simp
  finally show ?thesis .
qed

lemma exact_values:
  "double 5.5 = 5.5" "double (- 5.5) = - 5.5" "double 11 = 11" "double 0 = 0"
  "float32 5.5 = 5.5" "float32 (- 5.5) = - 5.5"
proof -
  show "double 5.5 = 5.5"
    unfolding double_def by (rule binary_round_numeral [where k = 2 and n = "11 * 2 ^ 49"]) simp_all
  show "double (- 5.5) = - 5.5"
    unfolding double_def by (rule binary_round_numeral [where k = 2 and n = "- (11 * 2 ^ 49)"]) simp_all
  show "double 11 = 11"
    unfolding double_def by (rule binary_round_numeral [where k = 3 and n = "11 * 2 ^ 49"]) simp_all
  show "double 0 = 0"
    by (simp add: double_def binary_round_def)
  show "float32 5.5 = 5.5"
    unfolding float32_def by (rule binary_round_numeral [where k = 2 and n = "11 * 2 ^ 20"]) simp_all
  show "float32 (- 5.5) = - 5.5"
    unfolding float32_def by (rule binary_round_numeral [where k = 2 and n = "- (11 * 2 ^ 20)"]) simp_all
qed

lemma double_100_11: "double (100 / 11) = 5117726849284655 / 2 ^ 49"
proof -
  have f: "\<lfloor>(56294995342131200::real) / 11\<rfloor> = 5117726849284654"
    by simp
  have "roundTiesToEven (56294995342131200 / 11) = 5117726849284655"
    unfolding roundTiesToEven_def Let_def f by simp
  moreover have "(100 / 11 :: real) / 2 powi (3 - int 52) = 56294995342131200 / 11"
    by simp
  ultimately show ?thesis
    unfolding double_def
    by (subst binary_round_eval [where k = 3]) simp_all
qed

lemma exact_halves:
  "double (11 / 2) = 11 / 2" "double (- (11 / 2)) = - (11 / 2)"
  "float32 (11 / 2) = 11 / 2" "float32 (- (11 / 2)) = - (11 / 2)"
  using exact_values by simp_all

lemma double_bounds:
  assumes "0 \<le> x"
  shows "x * (1 - 1 / 2 ^ 53) \<le> double x" and "double x \<le> x * (1 + 1 / 2 ^ 53)"
proof -
  have "\<bar>double x - x\<bar> \<le> x / 2 ^ 53"
    using double_error [of x] assms by simp
  then have "x - x / 2 ^ 53 \<le> double x" "double x \<le> x + x / 2 ^ 53"
    by linarith+
  then show "x * (1 - 1 / 2 ^ 53) \<le> double x" and "double x \<le> x * (1 + 1 / 2 ^ 53)"
    by (simp_all add: algebra_simps)
qed

lemma double_pos: "0 < x \<Longrightarrow> 0 < double x"
proof -
  assume x: "0 < x"
  have "0 < x * (1 - 1 / 2 ^ 53)"
    using x by simp
  then show ?thesis
    using double_bounds(1) [of x] x by linarith
qed

lemma double_nonpos: "x \<le> 0 \<Longrightarrow> double x \<le> 0"
proof -
  assume x: "x \<le> 0"
  have "double x - x \<le> \<bar>x\<bar> / 2 ^ 53"
    using double_error [of x] by linarith
  also have "\<dots> = - x / 2 ^ 53"
    using x by simp
  finally have "double x \<le> x * (1 - 1 / 2 ^ 53)"
    by (simp add: algebra_simps)
  moreover have "x * (1 - 1 / 2 ^ 53) \<le> 0"
    using x by (simp add: mult_nonpos_nonneg)
  ultimately show ?thesis
    by linarith
qed

lemma scale_bound:
  fixes M m k :: real
  assumes m: "0 < m" and k: "0 < k"
    and mM: "M * (1 - 1 / 2 ^ 53) \<le> m" "m \<le> M * (1 + 1 / 2 ^ 53)"
    and km: "100 * (1 - 1 / 2 ^ 53) \<le> k * m" "k * m \<le> 100 * (1 + 1 / 2 ^ 53)"
  shows "\<bar>k * M - 100\<bar> \<le> 100 / 2 ^ 50"
proof -
  define u :: real where "u = 1 / 2 ^ 53"
  have u: "0 < 1 - u" "0 < 1 + u"
    by (simp_all add: u_def)
  have mM': "M * (1 - u) \<le> m" "m \<le> M * (1 + u)"
    using mM by (simp_all only: u_def)
  have km': "100 * (1 - u) \<le> k * m" "k * m \<le> 100 * (1 + u)"
    using km by (simp_all only: u_def)
  have "k * (M * (1 - u)) \<le> k * m"
    using k mM'(1) by (intro mult_left_mono) simp_all
  then have "k * (M * (1 - u)) \<le> 100 * (1 + u)"
    using km'(2) by linarith
  then have up: "(k * M) * (1 - u) \<le> 100 * (1 + u)"
    by (simp only: mult.assoc)
  have "k * m \<le> k * (M * (1 + u))"
    using k mM'(2) by (intro mult_left_mono) simp_all
  then have "100 * (1 - u) \<le> k * (M * (1 + u))"
    using km'(1) by linarith
  then have lo: "100 * (1 - u) \<le> (k * M) * (1 + u)"
    by (simp only: mult.assoc)
  have "100 * (1 + u) \<le> (100 + 100 / 2 ^ 50) * (1 - u)"
    by (simp add: u_def)
  then have "(k * M) * (1 - u) \<le> (100 + 100 / 2 ^ 50) * (1 - u)"
    using up by linarith
  then have 1: "k * M \<le> 100 + 100 / 2 ^ 50"
    using u(1) by (rule_tac mult_right_le_imp_le)
  have "(100 - 100 / 2 ^ 50) * (1 + u) \<le> 100 * (1 - u)"
    by (simp add: u_def)
  then have "(100 - 100 / 2 ^ 50) * (1 + u) \<le> (k * M) * (1 + u)"
    using lo by linarith
  then have 2: "100 - 100 / 2 ^ 50 \<le> k * M"
    using u(2) by (rule_tac mult_right_le_imp_le)
  show ?thesis
    using 1 2 by linarith
qed

lemma max3_double:
  fixes a b c :: real
  assumes "0 \<le> a" "0 \<le> b" "0 \<le> c"
  shows "max (max a b) c * (1 - 1 / 2 ^ 53) \<le> max (max (double a) (double b)) (double c)"
    and "max (max (double a) (double b)) (double c) \<le> max (max a b) c * (1 + 1 / 2 ^ 53)"
proof -
  define M where "M = max (max a b) c"
  have M: "a \<le> M" "b \<le> M" "c \<le> M" "M = a \<or> M = b \<or> M = c"
    by (auto simp add: M_def max_def)
  have p: "x * (1 + 1 / 2 ^ 53) \<le> M * (1 + 1 / 2 ^ 53)" if "x \<le> M" for x
    using that by (intro mult_right_mono) simp_all
  have "double a \<le> M * (1 + 1 / 2 ^ 53)" "double b \<le> M * (1 + 1 / 2 ^ 53)"
    "double c \<le> M * (1 + 1 / 2 ^ 53)"
    using double_bounds(2) [OF assms(1)] double_bounds(2) [OF assms(2)]
      double_bounds(2) [OF assms(3)] p [OF M(1)] p [OF M(2)] p [OF M(3)]
    by linarith+
  then have "max (max (double a) (double b)) (double c) \<le> M * (1 + 1 / 2 ^ 53)"
    by (intro max.boundedI)
  then show "max (max (double a) (double b)) (double c) \<le> max (max a b) c * (1 + 1 / 2 ^ 53)"
    by (simp only: M_def)
  have "M * (1 - 1 / 2 ^ 53) \<le> double a \<or> M * (1 - 1 / 2 ^ 53) \<le> double b \<or>
      M * (1 - 1 / 2 ^ 53) \<le> double c"
    using M(4) double_bounds(1) [OF assms(1)] double_bounds(1) [OF assms(2)]
      double_bounds(1) [OF assms(3)] by auto
  then show "max (max a b) c * (1 - 1 / 2 ^ 53) \<le> max (max (double a) (double b)) (double c)"
    unfolding M_def [symmetric] by (auto simp only: le_max_iff_disj)
qed

lemma roundTiesToEven_cases: "roundTiesToEven x = \<lfloor>x\<rfloor> \<or> roundTiesToEven x = \<lfloor>x\<rfloor> + 1"
  by (simp add: roundTiesToEven_def Let_def)

lemma roundTiesToEven_mono:
  assumes "x \<le> y"
  shows "roundTiesToEven x \<le> roundTiesToEven y"
proof (cases "\<lfloor>x\<rfloor> = \<lfloor>y\<rfloor>")
  case True
  then have "x - of_int \<lfloor>x\<rfloor> \<le> y - of_int \<lfloor>y\<rfloor>"
    using assms by simp
  then show ?thesis
    unfolding roundTiesToEven_def Let_def True by auto
next
  case False
  have "\<lfloor>x\<rfloor> \<le> \<lfloor>y\<rfloor>"
    using assms by (rule floor_mono)
  then have "\<lfloor>x\<rfloor> + 1 \<le> \<lfloor>y\<rfloor>"
    using False by simp
  then show ?thesis
    using roundTiesToEven_cases [of x] roundTiesToEven_cases [of y] by auto
qed

lemma roundTiesToEven_minus: "roundTiesToEven (- x) = - roundTiesToEven x"
proof (cases "x = of_int \<lfloor>x\<rfloor>")
  case True
  have "roundTiesToEven (- of_int \<lfloor>x\<rfloor>) = - roundTiesToEven (of_int \<lfloor>x\<rfloor>)"
    unfolding of_int_minus [symmetric] roundTiesToEven_int ..
  then show ?thesis
    using True by simp
next
  case False
  have c: "\<lceil>x\<rceil> = \<lfloor>x\<rfloor> + 1"
    using False by (simp add: ceiling_altdef)
  have f: "\<lfloor>- x\<rfloor> = - \<lfloor>x\<rfloor> - 1"
    unfolding floor_minus c by simp
  have r: "0 < x - of_int \<lfloor>x\<rfloor>"
    using False of_int_floor_le [of x] by linarith
  show ?thesis
    unfolding roundTiesToEven_def Let_def f using r by auto
qed

lemma binary_round_minus: "binary_round p (- x) = - binary_round p x"
  by (simp add: binary_round_def Let_def roundTiesToEven_minus)

lemma binary_round_pos_bounds:
  assumes "2 powi k \<le> x" "x < 2 powi (k + 1)"
  shows "2 powi k \<le> binary_round p x" and "binary_round p x \<le> 2 powi (k + 1)"
proof -
  define e where "e = k - int p"
  define y where "y = x / 2 powi e"
  have pe: "0 < (2::real) powi e"
    by simp
  have "0 < (2::real) powi k"
    by simp
  then have x: "0 < x"
    using assms(1) by linarith
  have br: "binary_round p x = of_int (roundTiesToEven y) * 2 powi e"
    using binary_round_eval [of k x p] assms x by (simp add: e_def y_def)
  have k1: "(2::real) powi k = of_int (2 ^ p) * 2 powi e"
    by (simp add: e_def power_int_diff)
  have k2: "(2::real) powi (k + 1) = of_int (2 ^ (p + 1)) * 2 powi e"
    by (simp add: e_def power_int_diff power_int_add)
  have "of_int (2 ^ p) * 2 powi e \<le> y * 2 powi e"
    using assms(1) by (simp add: y_def k1)
  then have "of_int (2 ^ p) \<le> y"
    using pe by (rule_tac mult_right_le_imp_le)
  then have 1: "2 ^ p \<le> roundTiesToEven y"
    using roundTiesToEven_mono [of "of_int (2 ^ p)" y] by (simp only: roundTiesToEven_int)
  have "y * 2 powi e \<le> of_int (2 ^ (p + 1)) * 2 powi e"
    using assms(2) by (simp add: y_def k2)
  then have "y \<le> of_int (2 ^ (p + 1))"
    using pe by (rule_tac mult_right_le_imp_le)
  then have 2: "roundTiesToEven y \<le> 2 ^ (p + 1)"
    using roundTiesToEven_mono [of y "of_int (2 ^ (p + 1))"] by (simp only: roundTiesToEven_int)
  have "(of_int (2 ^ p) :: real) \<le> of_int (roundTiesToEven y)"
    using 1 by (simp only: of_int_le_iff)
  then show "2 powi k \<le> binary_round p x"
    unfolding br k1 using pe by (intro mult_right_mono) simp_all
  have "(of_int (roundTiesToEven y) :: real) \<le> of_int (2 ^ (p + 1))"
    using 2 by (simp only: of_int_le_iff)
  then show "binary_round p x \<le> 2 powi (k + 1)"
    unfolding br k2 using pe by (intro mult_right_mono) simp_all
qed

lemma binary_round_pos: "0 < x \<Longrightarrow> 0 < binary_round p x"
proof -
  assume x: "0 < x"
  then have "x \<noteq> 0"
    by simp
  then have "2 powi \<lfloor>log 2 \<bar>x\<bar>\<rfloor> \<le> \<bar>x\<bar>" "\<bar>x\<bar> < 2 powi (\<lfloor>log 2 \<bar>x\<bar>\<rfloor> + 1)"
    by (rule exponent_bounds)+
  then have "2 powi \<lfloor>log 2 \<bar>x\<bar>\<rfloor> \<le> x" "x < 2 powi (\<lfloor>log 2 \<bar>x\<bar>\<rfloor> + 1)"
    using x by simp_all
  then have "2 powi \<lfloor>log 2 \<bar>x\<bar>\<rfloor> \<le> binary_round p x"
    by (rule binary_round_pos_bounds(1))
  moreover have "0 < (2::real) powi \<lfloor>log 2 \<bar>x\<bar>\<rfloor>"
    by simp
  ultimately show ?thesis
    by linarith
qed

lemma binary_round_zero: "binary_round p 0 = 0"
  by (simp add: binary_round_def)

lemma binary_round_mono_pos:
  assumes x: "0 < x" and xy: "x \<le> y"
  shows "binary_round p x \<le> binary_round p y"
proof -
  define kx where "kx = \<lfloor>log 2 \<bar>x\<bar>\<rfloor>"
  define ky where "ky = \<lfloor>log 2 \<bar>y\<bar>\<rfloor>"
  have y: "0 < y"
    using x xy by linarith
  have bx: "2 powi kx \<le> x" "x < 2 powi (kx + 1)"
    using exponent_bounds [of x] x by (simp_all add: kx_def)
  have bnd: "2 powi ky \<le> y" "y < 2 powi (ky + 1)"
    using exponent_bounds [of y] y by (simp_all add: ky_def)
  have "log 2 x \<le> log 2 y"
    using x xy by simp
  then have le: "kx \<le> ky"
    using x y by (simp add: kx_def ky_def floor_mono)
  show ?thesis
  proof (cases "kx = ky")
    case True
    define e where "e = kx - int p"
    have pe: "0 < (2::real) powi e"
      by simp
    have 1: "binary_round p x = of_int (roundTiesToEven (x / 2 powi e)) * 2 powi e"
      using binary_round_eval [of kx x p] bx x by (simp add: e_def)
    have 2: "binary_round p y = of_int (roundTiesToEven (y / 2 powi e)) * 2 powi e"
      using binary_round_eval [of ky y p] bnd y by (simp add: e_def True)
    have "x / 2 powi e \<le> y / 2 powi e"
      using xy pe by (intro divide_right_mono) simp_all
    then have "roundTiesToEven (x / 2 powi e) \<le> roundTiesToEven (y / 2 powi e)"
      by (rule roundTiesToEven_mono)
    then have "(of_int (roundTiesToEven (x / 2 powi e)) :: real)
        \<le> of_int (roundTiesToEven (y / 2 powi e))"
      by (simp only: of_int_le_iff)
    then show ?thesis
      unfolding 1 2 using pe by (intro mult_right_mono) simp_all
  next
    case False
    then have "kx + 1 \<le> ky"
      using le by simp
    then have "(2::real) powi (kx + 1) \<le> 2 powi ky"
      by (intro power_int_increasing) simp_all
    moreover have "binary_round p x \<le> 2 powi (kx + 1)"
      using bx by (rule binary_round_pos_bounds(2))
    moreover have "2 powi ky \<le> binary_round p y"
      using bnd by (rule binary_round_pos_bounds(1))
    ultimately show ?thesis
      by linarith
  qed
qed

lemma binary_round_nonneg: "0 \<le> x \<Longrightarrow> 0 \<le> binary_round p x"
  using binary_round_pos [of x p] by (cases "x = 0") (simp_all add: binary_round_zero)

lemma binary_round_nonpos: "x \<le> 0 \<Longrightarrow> binary_round p x \<le> 0"
  using binary_round_nonneg [of "- x" p] by (simp add: binary_round_minus)

lemma binary_round_mono:
  assumes "x \<le> y"
  shows "binary_round p x \<le> binary_round p y"
proof -
  consider "0 < x" | "x \<le> 0" "0 \<le> y" | "y < 0"
    by linarith
  then show ?thesis
  proof cases
    case 1
    then show ?thesis
      using assms by (rule binary_round_mono_pos)
  next
    case 2
    then show ?thesis
      using binary_round_nonpos [of x p] binary_round_nonneg [of y p] by linarith
  next
    case 3
    then have "0 < - y" "- y \<le> - x"
      using assms by simp_all
    then have "binary_round p (- y) \<le> binary_round p (- x)"
      by (rule binary_round_mono_pos)
    then show ?thesis
      by (simp add: binary_round_minus)
  qed
qed

lemma stored_mono: "x \<le> y \<Longrightarrow> float32 (double (x + d)) \<le> float32 (double (y + d))"
  unfolding float32_def double_def by (intro binary_round_mono) simp

lemma stored_minus: "float32 (double (- x)) = - float32 (double x)"
  by (simp add: float32_def double_def binary_round_minus)

section \<open>The STL loading path\<close>

lemma expandByPoint_mapBox:
  assumes "mono fx" "mono fy" "mono fz"
  shows "expandByPoint (mapBox (\<lambda>v. Vector3 (fx (vx v)) (fy (vy v)) (fz (vz v))) b)
           (Vector3 (fx (vx p)) (fy (vy p)) (fz (vz p))) =
         mapBox (\<lambda>v. Vector3 (fx (vx v)) (fy (vy v)) (fz (vz v))) (expandByPoint b p)"
  using assms by (cases b) (simp_all add: min_of_mono max_of_mono)

lemma foldl_expand_mapBox:
  assumes "mono fx" "mono fy" "mono fz"
  shows "foldl expandByPoint (mapBox (\<lambda>v. Vector3 (fx (vx v)) (fy (vy v)) (fz (vz v))) b)
           (map (\<lambda>v. Vector3 (fx (vx v)) (fy (vy v)) (fz (vz v))) g) =
         mapBox (\<lambda>v. Vector3 (fx (vx v)) (fy (vy v)) (fz (vz v))) (foldl expandByPoint b g)"
proof (induction g arbitrary: b)
  case Nil
  show ?case
    by simp
next
  case (Cons p g)
  show ?case
    unfolding list.map foldl_Cons expandByPoint_mapBox [OF assms] by (rule Cons.IH)
qed

lemma computeBoundingBox_translate:
  "computeBoundingBox (translate dx dy dz g) =
     mapBox (\<lambda>v. Vector3 (float32 (double (vx v + dx))) (float32 (double (vy v + dy)))
                          (float32 (double (vz v + dz))))
       (computeBoundingBox g)"
proof -
  have m: "mono (\<lambda>x. float32 (double (x + d)))" for d
    by (rule monoI) (rule stored_mono)
  show ?thesis
    unfolding computeBoundingBox_def setFromPoints_def translate_def
    using foldl_expand_mapBox [OF m m m, of dx dy dz EmptyBox g] by simp
qed

lemma scaled_corners_box:
  assumes "0 < k" "vx lo \<le> vx hi" "vy lo \<le> vy hi" "vz lo \<le> vz hi"
  shows "setFromPoints (map (localToWorld (Vector3 0 0 0) 0 k) (corners lo hi)) =
           Box (Vector3 (k * vx lo) (k * vy lo) (k * vz lo))
               (Vector3 (k * vx hi) (k * vy hi) (k * vz hi))"
proof -
  have "k * vx lo \<le> k * vx hi" "k * vy lo \<le> k * vy hi" "k * vz lo \<le> k * vz hi"
    using assms by simp_all
  then show ?thesis
    by (simp add: setFromPoints_def corners_def localToWorld_def)
qed

lemma double_zero: "double 0 = 0"
  by (simp add: double_def binary_round_def)

lemma centerAndScale_mesh:
  assumes c: "c = double3 (getCenter (computeBoundingBox g))"
    and g': "g' = translate (- vx c) (- vy c) (- vz c) g"
    and sz: "sz = double3 (getSize (computeBoundingBox g'))"
    and md: "md = max (max (vx sz) (vy sz)) (vz sz)"
    and pos: "md \<noteq> 0"
  shows "centerAndScale g =
           \<lparr>geometry = g', mesh_position = Vector3 0 0 0, rotation_x = 0,
             mesh_scale = Fin (double (100 / md))\<rparr>"
  unfolding centerAndScale_def Let_def c [symmetric] g' [symmetric] sz [symmetric] md [symmetric]
  using pos by simp

lemma scaled_world_box:
  assumes c: "c = double3 (getCenter (computeBoundingBox g))"
    and g': "g' = translate (- vx c) (- vy c) (- vz c) g"
    and sz: "sz = double3 (getSize (computeBoundingBox g'))"
    and md: "md = max (max (vx sz) (vy sz)) (vz sz)"
    and pos: "0 < md"
  obtains lo hi k where "computeBoundingBox g' = Box lo hi"
    and "vx lo \<le> vx hi" "vy lo \<le> vy hi" "vz lo \<le> vz hi"
    and "k = double (100 / md)" "0 < k"
    and "setFromObject (centerAndScale g) =
           WorldBox (Box (Vector3 (k * vx lo) (k * vy lo) (k * vz lo))
                         (Vector3 (k * vx hi) (k * vy hi) (k * vz hi)))"
proof -
  obtain lo hi where box: "computeBoundingBox g' = Box lo hi"
    using sz md pos by (cases "computeBoundingBox g'") (auto simp add: double3_def double_zero)
  have ord: "vx lo \<le> vx hi" "vy lo \<le> vy hi" "vz lo \<le> vz hi"
    using computeBoundingBox_ordered [of g'] by (simp_all add: box)
  define k where "k = double (100 / md)"
  have k: "0 < k"
    unfolding k_def using pos by (intro double_pos) simp
  have mesh: "centerAndScale g =
      \<lparr>geometry = g', mesh_position = Vector3 0 0 0, rotation_x = 0, mesh_scale = Fin k\<rparr>"
    unfolding k_def using c g' sz md by (rule centerAndScale_mesh) (use pos in simp)
  have "setFromObject (centerAndScale g) =
      WorldBox (Box (Vector3 (k * vx lo) (k * vy lo) (k * vz lo))
                    (Vector3 (k * vx hi) (k * vy hi) (k * vz hi)))"
    by (simp add: mesh setFromObject_def box scaled_corners_box [OF k ord])
  then show ?thesis
    using that box ord k k_def by blast
qed

lemma world_size_bound:
  assumes c: "c = double3 (getCenter (computeBoundingBox g))"
    and g': "g' = translate (- vx c) (- vy c) (- vz c) g"
    and sz: "sz = double3 (getSize (computeBoundingBox g'))"
    and md: "md = max (max (vx sz) (vy sz)) (vz sz)"
    and pos: "0 < md"
  shows "\<exists>D. maxDim (world_getSize (setFromObject (centerAndScale g))) = Fin D \<and>
             \<bar>D - 100\<bar> \<le> 100 / 2 ^ 50"
proof -
  obtain lo hi k where box: "computeBoundingBox g' = Box lo hi"
    and ord: "vx lo \<le> vx hi" "vy lo \<le> vy hi" "vz lo \<le> vz hi"
    and kd: "k = double (100 / md)" and k: "0 < k"
    and world: "setFromObject (centerAndScale g) =
           WorldBox (Box (Vector3 (k * vx lo) (k * vy lo) (k * vz lo))
                         (Vector3 (k * vx hi) (k * vy hi) (k * vz hi)))"
    using c g' sz md pos by (rule scaled_world_box)
  define a where "a = vx hi - vx lo"
  define b where "b = vy hi - vy lo"
  define d where "d = vz hi - vz lo"
  define M where "M = max (max a b) d"
  have nn: "0 \<le> a" "0 \<le> b" "0 \<le> d"
    using ord by (simp_all add: a_def b_def d_def)
  have mdv: "md = max (max (double a) (double b)) (double d)"
    by (simp add: md sz box double3_def a_def b_def d_def)
  have mM: "M * (1 - 1 / 2 ^ 53) \<le> md" "md \<le> M * (1 + 1 / 2 ^ 53)"
    unfolding mdv M_def using nn by (rule max3_double)+
  have q: "0 \<le> 100 / md"
    using pos by simp
  have "100 / md * (1 - 1 / 2 ^ 53) \<le> k" "k \<le> 100 / md * (1 + 1 / 2 ^ 53)"
    unfolding kd using q by (rule double_bounds)+
  then have "100 / md * (1 - 1 / 2 ^ 53) * md \<le> k * md"
    "k * md \<le> 100 / md * (1 + 1 / 2 ^ 53) * md"
    using pos by (simp_all only: mult_le_cancel_right) auto
  moreover have "100 / md * (1 - 1 / 2 ^ 53) * md = 100 * (1 - 1 / 2 ^ 53)"
    "100 / md * (1 + 1 / 2 ^ 53) * md = 100 * (1 + 1 / 2 ^ 53)"
    using pos by simp_all
  ultimately have km: "100 * (1 - 1 / 2 ^ 53) \<le> k * md" "k * md \<le> 100 * (1 + 1 / 2 ^ 53)"
    by simp_all
  have bound: "\<bar>k * M - 100\<bar> \<le> 100 / 2 ^ 50"
    using pos k mM km by (rule scale_bound)
  have "max (max (k * a) (k * b)) (k * d) = k * M"
    using k by (simp add: M_def max_mult_distrib_left)
  then have "maxDim (world_getSize (setFromObject (centerAndScale g))) = Fin (k * M)"
    by (simp add: world maxDim_def fin3_def a_def b_def d_def right_diff_distrib)
  then show ?thesis
    using bound by blast
qed

lemma centred_translate:
  assumes c: "c = double3 (getCenter (computeBoundingBox g))"
    and g': "g' = translate (- vx c) (- vy c) (- vz c) g"
    and exact: "c = getCenter (computeBoundingBox g)"
    and box: "computeBoundingBox g' = Box lo hi"
  shows "vx lo = - vx hi" "vy lo = - vy hi" "vz lo = - vz hi"
proof -
  obtain l h where b0: "computeBoundingBox g = Box l h"
    using box unfolding g' computeBoundingBox_translate
    by (cases "computeBoundingBox g") simp_all
  have cv: "vx c = (vx l + vx h) / 2" "vy c = (vy l + vy h) / 2" "vz c = (vz l + vz h) / 2"
    using exact by (simp_all add: b0)
  have e: "vx l + - vx c = - (vx h + - vx c)" "vy l + - vy c = - (vy h + - vy c)"
    "vz l + - vz c = - (vz h + - vz c)"
    by (simp_all add: cv field_simps)
  have lo: "lo = Vector3 (float32 (double (vx l + - vx c))) (float32 (double (vy l + - vy c)))
      (float32 (double (vz l + - vz c)))"
    and hi: "hi = Vector3 (float32 (double (vx h + - vx c))) (float32 (double (vy h + - vy c)))
      (float32 (double (vz h + - vz c)))"
    using box unfolding g' computeBoundingBox_translate b0 by simp_all
  show "vx lo = - vx hi" "vy lo = - vy hi" "vz lo = - vz hi"
    unfolding lo hi vector3.sel e stored_minus by (rule refl)+
qed

text \<open>
  C10. In the STL loading path, let \<open>c\<close> be the centre of the geometry's bounding box as
  \<open>getCenter\<close> computes it in doubles, \<open>g'\<close> the vertices that \<open>translate\<close> stores when it
  moves the geometry by \<open>- c\<close>, and \<open>md > 0\<close> the largest side of the bounding box of
  \<open>g'\<close> as \<open>getSize\<close> computes it. The mesh the fit is run on has the geometry \<open>g'\<close> and
  the uniform scale \<open>100 / md\<close> rounded to a double, and the largest side of its box in
  world space is within \<open>100 / 2^50\<close> of 100. If the centre \<open>c\<close> is the exact centre of
  the bounding box (the sum of \<open>min\<close> and \<open>max\<close> needed no rounding), the bounding box
  of \<open>g'\<close> and the box in world space are centred at the origin. The fit runs on the
  state that holds this mesh.
\<close>

theorem stl_model_centered_and_scaled:
  assumes c: "c = double3 (getCenter (computeBoundingBox g))"
    and g': "g' = translate (- vx c) (- vy c) (- vz c) g"
    and sz: "sz = double3 (getSize (computeBoundingBox g'))"
    and md: "md = max (max (vx sz) (vy sz)) (vz sz)"
    and pos: "0 < md"
  shows "centerAndScale g =
           \<lparr>geometry = g', mesh_position = Vector3 0 0 0, rotation_x = 0,
             mesh_scale = Fin (double (100 / md))\<rparr> \<and>
         (\<exists>D. maxDim (world_getSize (setFromObject (centerAndScale g))) = Fin D \<and>
              \<bar>D - 100\<bar> \<le> 100 / 2 ^ 50) \<and>
         (c = getCenter (computeBoundingBox g) \<longrightarrow>
            getCenter (computeBoundingBox g') = Vector3 0 0 0 \<and>
            world_getCenter (setFromObject (centerAndScale g)) = origin) \<and>
         loadSTLModel_onLoad g s = fitCameraToModel (s\<lparr>currentModel := Some (centerAndScale g)\<rparr>)"
proof (intro conjI impI)
  show "centerAndScale g =
      \<lparr>geometry = g', mesh_position = Vector3 0 0 0, rotation_x = 0,
        mesh_scale = Fin (double (100 / md))\<rparr>"
    using c g' sz md by (rule centerAndScale_mesh) (use pos in simp)
  show "\<exists>D. maxDim (world_getSize (setFromObject (centerAndScale g))) = Fin D \<and>
      \<bar>D - 100\<bar> \<le> 100 / 2 ^ 50"
    using c g' sz md pos by (rule world_size_bound)
  show "loadSTLModel_onLoad g s = fitCameraToModel (s\<lparr>currentModel := Some (centerAndScale g)\<rparr>)"
    by (simp add: loadSTLModel_onLoad_def)
next
  assume exact: "c = getCenter (computeBoundingBox g)"
  obtain lo hi k where box: "computeBoundingBox g' = Box lo hi"
    and world: "setFromObject (centerAndScale g) =
           WorldBox (Box (Vector3 (k * vx lo) (k * vy lo) (k * vz lo))
                         (Vector3 (k * vx hi) (k * vy hi) (k * vz hi)))"
    using c g' sz md pos by (rule scaled_world_box)
  have sym: "vx lo = - vx hi" "vy lo = - vy hi" "vz lo = - vz hi"
    using c g' exact box by (rule centred_translate)+
  show "getCenter (computeBoundingBox g') = Vector3 0 0 0"
    by (simp add: box sym)
  show "world_getCenter (setFromObject (centerAndScale g)) = origin"
    by (simp add: world sym fin3_def origin_def)
qed

lemma edge11_diagonal_box:
  "computeBoundingBox edge11_diagonal = Box (Vector3 0 0 0) (Vector3 11 11 11)"
  by (simp add: edge11_diagonal_def computeBoundingBox_def setFromPoints_def)

lemma edge11_diagonal_center:
  "double3 (getCenter (computeBoundingBox edge11_diagonal)) = Vector3 (11 / 2) (11 / 2) (11 / 2)"
  by (simp add: edge11_diagonal_box double3_def exact_halves)

lemma edge11_diagonal_translate:
  "translate (- (11 / 2)) (- (11 / 2)) (- (11 / 2)) edge11_diagonal =
     [Vector3 (- (11 / 2)) (- (11 / 2)) (- (11 / 2)), Vector3 (11 / 2) (11 / 2) (11 / 2)]"
  by (simp add: edge11_diagonal_def translate_def exact_halves)

lemma edge11_diagonal_size:
  "double3 (getSize (computeBoundingBox
      [Vector3 (- (11 / 2)) (- (11 / 2)) (- (11 / 2)), Vector3 (11 / 2) (11 / 2) (11 / 2)])) =
     Vector3 11 11 11"
  by (simp add: computeBoundingBox_def setFromPoints_def double3_def exact_values)

theorem stl_model_centered_and_scaled_witness:
  "centerAndScale edge11_diagonal =
     \<lparr>geometry = [Vector3 (- (11 / 2)) (- (11 / 2)) (- (11 / 2)), Vector3 (11 / 2) (11 / 2) (11 / 2)],
       mesh_position = Vector3 0 0 0, rotation_x = 0, mesh_scale = Fin (double (100 / 11))\<rparr> \<and>
   (\<exists>D. maxDim (world_getSize (setFromObject (centerAndScale edge11_diagonal))) = Fin D \<and>
        \<bar>D - 100\<bar> \<le> 100 / 2 ^ 50) \<and>
   getCenter (computeBoundingBox
      [Vector3 (- (11 / 2)) (- (11 / 2)) (- (11 / 2)), Vector3 (11 / 2) (11 / 2) (11 / 2)]) =
     Vector3 0 0 0 \<and>
   world_getCenter (setFromObject (centerAndScale edge11_diagonal)) = origin \<and>
   loadSTLModel_onLoad edge11_diagonal (setupViewer \<lparr>clientWidth = 800, clientHeight = 600\<rparr>) =
     fitCameraToModel ((setupViewer \<lparr>clientWidth = 800, clientHeight = 600\<rparr>)
       \<lparr>currentModel := Some (centerAndScale edge11_diagonal)\<rparr>)"
proof -
  have c: "Vector3 (11 / 2) (11 / 2) (11 / 2) =
      double3 (getCenter (computeBoundingBox edge11_diagonal))"
    by (simp only: edge11_diagonal_center)
  have g': "[Vector3 (- (11 / 2)) (- (11 / 2)) (- (11 / 2)), Vector3 (11 / 2) (11 / 2) (11 / 2)] =
      translate (- vx (Vector3 (11 / 2) (11 / 2) (11 / 2 :: real)))
        (- vy (Vector3 (11 / 2) (11 / 2) (11 / 2 :: real)))
        (- vz (Vector3 (11 / 2) (11 / 2) (11 / 2 :: real))) edge11_diagonal"
    by (simp only: vector3.sel edge11_diagonal_translate)
  have sz: "Vector3 11 11 11 = double3 (getSize (computeBoundingBox
      [Vector3 (- (11 / 2)) (- (11 / 2)) (- (11 / 2)), Vector3 (11 / 2) (11 / 2) (11 / 2)]))"
    by (simp only: edge11_diagonal_size)
  have md: "(11::real) = max (max (vx (Vector3 11 11 (11::real))) (vy (Vector3 11 11 (11::real))))
      (vz (Vector3 11 11 (11::real)))"
    by simp
  have pos: "0 < (11::real)"
    by simp
  have exact: "Vector3 (11 / 2) (11 / 2) (11 / 2) = getCenter (computeBoundingBox edge11_diagonal)"
    by (simp add: edge11_diagonal_box)
  show ?thesis
    using stl_model_centered_and_scaled [OF c g' sz md pos,
        of "setupViewer \<lparr>clientWidth = 800, clientHeight = 600\<rparr>"] exact
    by blast
qed

lemma edge11_cube_box:
  "computeBoundingBox edge11_cube = Box (Vector3 0 0 0) (Vector3 11 11 11)"
  by (simp add: edge11_cube_def corners_def computeBoundingBox_def setFromPoints_def)

lemma edge11_cube_translate:
  "translate (- (11 / 2)) (- (11 / 2)) (- (11 / 2)) edge11_cube =
     corners (Vector3 (- (11 / 2)) (- (11 / 2)) (- (11 / 2))) (Vector3 (11 / 2) (11 / 2) (11 / 2))"
  by (simp add: edge11_cube_def corners_def translate_def exact_halves)

lemma edge11_cube_translated_box:
  "computeBoundingBox
     (corners (Vector3 (- (11 / 2)) (- (11 / 2)) (- (11 / 2))) (Vector3 (11 / 2) (11 / 2) (11 / 2))) =
   Box (Vector3 (- (11 / 2)) (- (11 / 2)) (- (11 / 2))) (Vector3 (11 / 2) (11 / 2) (11 / 2))"
  by (simp add: corners_def computeBoundingBox_def setFromPoints_def)

lemma edge11_cube_mesh:
  "centerAndScale edge11_cube =
     \<lparr>geometry = corners (Vector3 (- (11 / 2)) (- (11 / 2)) (- (11 / 2)))
                          (Vector3 (11 / 2) (11 / 2) (11 / 2)),
       mesh_position = Vector3 0 0 0, rotation_x = 0,
       mesh_scale = Fin (5117726849284655 / 2 ^ 49)\<rparr>"
proof -
  have "centerAndScale edge11_cube =
     \<lparr>geometry = corners (Vector3 (- (11 / 2)) (- (11 / 2)) (- (11 / 2)))
                          (Vector3 (11 / 2) (11 / 2) (11 / 2)),
       mesh_position = Vector3 0 0 0, rotation_x = 0,
       mesh_scale = Fin (double (100 / 11))\<rparr>"
  proof (rule centerAndScale_mesh [where c = "Vector3 (11 / 2) (11 / 2) (11 / 2)"
        and sz = "Vector3 11 11 11"])
    show "Vector3 (11 / 2) (11 / 2) (11 / 2) = double3 (getCenter (computeBoundingBox edge11_cube))"
      by (simp add: edge11_cube_box double3_def exact_halves)
    show "corners (Vector3 (- (11 / 2)) (- (11 / 2)) (- (11 / 2))) (Vector3 (11 / 2) (11 / 2) (11 / 2)) =
        translate (- vx (Vector3 (11 / 2) (11 / 2) (11 / 2 :: real)))
          (- vy (Vector3 (11 / 2) (11 / 2) (11 / 2 :: real)))
          (- vz (Vector3 (11 / 2) (11 / 2) (11 / 2 :: real))) edge11_cube"
      by (simp only: vector3.sel edge11_cube_translate)
    show "Vector3 11 11 11 = double3 (getSize (computeBoundingBox
        (corners (Vector3 (- (11 / 2)) (- (11 / 2)) (- (11 / 2))) (Vector3 (11 / 2) (11 / 2) (11 / 2)))))"
      by (simp add: edge11_cube_translated_box double3_def exact_values)
    show "(11::real) = max (max (vx (Vector3 11 11 (11::real))) (vy (Vector3 11 11 (11::real))))
        (vz (Vector3 11 11 (11::real)))"
      by simp
    show "(11::real) \<noteq> 0"
      by simp
  qed
  then show ?thesis
    by (simp only: double_100_11)
qed

lemma double_world_side: "double (100 + 5 / 2 ^ 49) = 100 + 1 / 2 ^ 46"
proof -
  have f: "\<lfloor>(56294995342131205::real) / 8\<rfloor> = 7036874417766400"
    by simp
  have "roundTiesToEven (56294995342131205 / 8) = 7036874417766401"
    unfolding roundTiesToEven_def Let_def f by simp
  moreover have "(100 + 5 / 2 ^ 49 :: real) / 2 powi (6 - int 52) = 56294995342131205 / 8"
    by simp
  ultimately show ?thesis
    unfolding double_def
    by (subst binary_round_eval [where k = 6]) simp_all
qed

text \<open>
  C10, as the specification states it, fails for a cube of edge 11: the scale is the
  double nearest to \<open>100 / 11\<close>, which is \<open>5117726849284655 / 2^49\<close>
  (\<open>9.090909090909092\<close>), and 11 times it is \<open>100 + 5 / 2^49\<close>, not 100. The double
  nearest to that side is \<open>100 + 2^-46\<close> (\<open>100.00000000000001\<close>).
\<close>

theorem scaled_model_misses_100:
  "mesh_scale (centerAndScale edge11_cube) = Fin (5117726849284655 / 2 ^ 49) \<and>
   maxDim (world_getSize (setFromObject (centerAndScale edge11_cube))) = Fin (100 + 5 / 2 ^ 49) \<and>
   maxDim (world_getSize (setFromObject (centerAndScale edge11_cube))) \<noteq> Fin 100 \<and>
   double (100 + 5 / 2 ^ 49) = 100 + 1 / 2 ^ 46"
proof -
  have k: "(0::real) < 5117726849284655 / 2 ^ 49"
    by simp
  have w: "setFromObject (centerAndScale edge11_cube) =
      WorldBox (Box (Vector3 (5117726849284655 / 2 ^ 49 * - (11 / 2))
                             (5117726849284655 / 2 ^ 49 * - (11 / 2))
                             (5117726849284655 / 2 ^ 49 * - (11 / 2)))
                    (Vector3 (5117726849284655 / 2 ^ 49 * (11 / 2))
                             (5117726849284655 / 2 ^ 49 * (11 / 2))
                             (5117726849284655 / 2 ^ 49 * (11 / 2))))"
    unfolding edge11_cube_mesh setFromObject_def
    by (simp add: edge11_cube_translated_box scaled_corners_box [OF k] del: power_numeral)
  have d: "maxDim (world_getSize (setFromObject (centerAndScale edge11_cube))) =
      Fin (100 + 5 / 2 ^ 49)"
    unfolding w by (simp add: maxDim_def fin3_def)
  have s: "mesh_scale (centerAndScale edge11_cube) = Fin (5117726849284655 / 2 ^ 49)"
    by (simp only: edge11_cube_mesh mesh.select_convs)
  have n: "Fin (100 + 5 / 2 ^ 49) \<noteq> Fin 100"
    by simp
  show ?thesis
    unfolding d using s n double_world_side by blast
qed

end
